theory Spec2Isabelle
  imports Main "HOL-Library.Word"
begin

unbundle bit_operations_syntax

section \<open>Python primitives used by the translator\<close>

text \<open>
  Strings are lists of characters. A character stands for a code point below 256; code
  points above that are not represented. The functions below model the library calls
  the source makes on strings: \<^verbatim>\<open>str.endswith\<close>, \<^verbatim>\<open>str.replace\<close>,
  \<^verbatim>\<open>str.strip\<close>, \<^verbatim>\<open>str.isspace\<close>, \<^verbatim>\<open>str.split(" ")\<close>, \<^verbatim>\<open>str(int)\<close>,
  \<^verbatim>\<open>int(str)\<close>, \<^verbatim>\<open>os.path.basename\<close>, \<^verbatim>\<open>os.path.join\<close> and
  \<^verbatim>\<open>re.sub('//.*', "", line)\<close>.
\<close>

definition startswith :: "string \<Rightarrow> string \<Rightarrow> bool" where
  "startswith s p = (take (length p) s = p)"

definition endswith :: "string \<Rightarrow> string \<Rightarrow> bool" where
  "endswith s p = (length p \<le> length s \<and> drop (length s - length p) s = p)"

text \<open>\<^verbatim>\<open>s.replace(old, new)\<close> for a non-empty \<open>old\<close>: every occurrence, left to right,
  without overlap. (The source only calls it with the constants ".vm" and ".asm".)\<close>

function py_replace :: "string \<Rightarrow> string \<Rightarrow> string \<Rightarrow> string" where
  "py_replace old new s =
     (if s = [] \<or> old = [] then s
      else if startswith s old then new @ py_replace old new (drop (length old) s)
      else hd s # py_replace old new (tl s))"
  by pat_completeness auto
termination
  by (relation "measure (\<lambda>(old, new, s). length s)") auto

declare py_replace.simps [simp del]

text \<open>The characters for which \<^verbatim>\<open>str.isspace\<close> holds, among the code points below 256.\<close>

definition py_isspace :: "char \<Rightarrow> bool" where
  "py_isspace c = (c \<in> set [CHR 0x09, CHR 0x0A, CHR 0x0B, CHR 0x0C, CHR 0x0D,
                            CHR 0x1C, CHR 0x1D, CHR 0x1E, CHR 0x1F, CHR 0x20,
                            CHR 0x85, CHR 0xA0])"

definition py_strip :: "string \<Rightarrow> string" where
  "py_strip s = rev (dropWhile py_isspace (rev (dropWhile py_isspace s)))"

text \<open>\<^verbatim>\<open>s.split(sep)\<close> with a one-character separator: never an empty list, and two
  separators in a row give an empty field.\<close>

fun py_split :: "char \<Rightarrow> string \<Rightarrow> string list" where
  "py_split sep [] = [[]]"
| "py_split sep (c # cs) =
     (if c = sep then [] # py_split sep cs
      else (case py_split sep cs of
              [] \<Rightarrow> [[c]]
            | w # ws \<Rightarrow> (c # w) # ws))"

text \<open>\<^verbatim>\<open>os.path.basename\<close> (POSIX): what follows the last slash.\<close>

definition basename :: "string \<Rightarrow> string" where
  "basename p = rev (takeWhile (\<lambda>c. c \<noteq> CHR ''/'') (rev p))"

text \<open>\<^verbatim>\<open>os.path.join(a, b)\<close> (POSIX) for two components.\<close>

definition path_join :: "string \<Rightarrow> string \<Rightarrow> string" where
  "path_join a b =
     (if startswith b ''/'' then b
      else if a = [] \<or> endswith a ''/'' then a @ b
      else a @ ''/'' @ b)"

text \<open>\<^verbatim>\<open>str(n)\<close> for an integer: decimal digits, with a minus sign for a negative one.\<close>

definition digit_char :: "nat \<Rightarrow> char" where
  "digit_char d = ''0123456789'' ! d"

function str_nat :: "nat \<Rightarrow> string" where
  "str_nat n = (if n < 10 then [digit_char n] else str_nat (n div 10) @ [digit_char (n mod 10)])"
  by pat_completeness auto
termination
  by (relation "measure (\<lambda>n. n)") auto

declare str_nat.simps [simp del]

definition str_int :: "int \<Rightarrow> string" where
  "str_int i = (if i < 0 then CHR ''-'' # str_nat (nat (- i)) else str_nat (nat i))"

text \<open>The value of an f-string field that holds an integer or \<^verbatim>\<open>None\<close>, and of one that
  holds a string or \<^verbatim>\<open>None\<close>.\<close>

fun py_str_int :: "int option \<Rightarrow> string" where
  "py_str_int None = ''None''"
| "py_str_int (Some i) = str_int i"

fun py_str :: "string option \<Rightarrow> string" where
  "py_str None = ''None''"
| "py_str (Some s) = s"

text \<open>\<^verbatim>\<open>int(s)\<close> in base 10: surrounding whitespace is dropped, then an optional sign, then
  digits, where single underscores may stand between digits. \<open>None\<close> is the
  \<^verbatim>\<open>ValueError\<close>. The whitespace that \<^verbatim>\<open>int\<close> drops is not that of \<^verbatim>\<open>str.isspace\<close>: the
  separators 0x1C to 0x1F are not dropped, and a string that has one is no number.\<close>

definition int_isspace :: "char \<Rightarrow> bool" where
  "int_isspace c = (c \<in> set [CHR 0x09, CHR 0x0A, CHR 0x0B, CHR 0x0C, CHR 0x0D, CHR 0x20,
                             CHR 0x85, CHR 0xA0])"

definition is_digit :: "char \<Rightarrow> bool" where
  "is_digit c = (c \<in> set ''0123456789'')"

definition digit_val :: "char \<Rightarrow> nat" where
  "digit_val c = of_char c - 48"

fun digits_ok :: "string \<Rightarrow> bool" where
  "digits_ok [] = False"
| "digits_ok [c] = is_digit c"
| "digits_ok (c # d # cs) =
     (is_digit c \<and> (if d = CHR ''_'' then digits_ok cs else digits_ok (d # cs)))"

definition nat_of_digits :: "string \<Rightarrow> nat" where
  "nat_of_digits s = foldl (\<lambda>a c. 10 * a + digit_val c) 0 (filter (\<lambda>c. c \<noteq> CHR ''_'') s)"

definition py_int :: "string \<Rightarrow> int option" where
  "py_int s =
     (case rev (dropWhile int_isspace (rev (dropWhile int_isspace s))) of
        [] \<Rightarrow> None
      | c # cs \<Rightarrow>
          if c = CHR ''-'' then (if digits_ok cs then Some (- int (nat_of_digits cs)) else None)
          else if c = CHR ''+'' then (if digits_ok cs then Some (int (nat_of_digits cs)) else None)
          else if digits_ok (c # cs) then Some (int (nat_of_digits (c # cs))) else None)"

text \<open>\<^verbatim>\<open>re.sub('//.*', "", line)\<close>: from every \<^verbatim>\<open>//\<close> up to, and not including, the next
  newline. The flag says that the scan is inside such a match.\<close>

fun strip_comment :: "bool \<Rightarrow> string \<Rightarrow> string" where
  "strip_comment inside [] = []"
| "strip_comment True (c # cs) =
     (if c = CHR 0x0A then c # strip_comment False cs else strip_comment True cs)"
| "strip_comment False (c # cs) =
     (if c = CHR ''/'' \<and> startswith cs ''/'' then strip_comment True cs
      else c # strip_comment False cs)"

section \<open>Errors\<close>

text \<open>
  The source raises \<^verbatim>\<open>Exception\<close> with a message at each of its failure sites; the
  constructors below name the sites (the message is given beside each), with the
  values the message is built from. \<open>KeyError\<close>, \<open>TypeError\<close> and \<open>ValueError\<close>
  are the interpreter's own: a missing key of \<^verbatim>\<open>SEGMENTS_MAPPER\<close>, arithmetic or
  \<^verbatim>\<open>range\<close> on \<^verbatim>\<open>None\<close>, a write to a closed file.
\<close>

datatype error =
    BaseDirEmpty  \<comment> \<open>CodeWriter.__init__: "Base directory name cannot be empty."\<close>
  | NotAsmFile string  \<comment> \<open>CodeWriter.__init__: "Output filepath ... must be a '.asm' file"\<close>
  | WrongCommandType string  \<comment> \<open>write_push_pop: "Command type ... erroneously triggered ..."\<close>
  | CommandNone  \<comment> \<open>translate_arithmetic...: "Command given cannot be none."\<close>
  | InvalidOperator string  \<comment> \<open>translate_arithmetic...: "... is not a valid arithmetic command."\<close>
  | InvalidSegment string  \<comment> \<open>translate_pop...: "Can't call 'pop()' operation on a ... segment"\<close>
  | UnboundContext  \<comment> \<open>translate_segment_vm_code, static with no file name: Exception("")\<close>
  | InvalidOperand "int option"  \<comment> \<open>translate_segment_vm_code: "The 'pointer' segment cannot take index ..."\<close>
  | UnexpectedSegment string  \<comment> \<open>translate_segment_vm_code: "Unexpected segment command ... read."\<close>
  | KeyError string
  | TypeError
  | ValueError
  | ZeroCommands  \<comment> \<open>Command.__init__: "Line with 0 commands found."\<close>
  | UnidentifiedCommand string  \<comment> \<open>command_type setter: "Unidentified command ... found."\<close>
  | OneArgument string  \<comment> \<open>Command.__init__: "Non-arithmetic command ... with only one argument given."\<close>
  | TooManyArguments string  \<comment> \<open>Command.__init__: "Line with more than 3 commands found: ..."\<close>
  | Arg1OfReturn  \<comment> \<open>arg1 getter and setter: "arg1 should not be ... C_RETURN ..."\<close>
  | Arg2NotAllowed string  \<comment> \<open>arg2 getter and setter: "arg2 should not be ... when command of type ..."\<close>
  | NegativeIndex int  \<comment> \<open>arg2 setter: "Command with index ... given, but indexes cannot be negative."\<close>
  | Arg2NotInteger string  \<comment> \<open>arg2 setter: "arg2 must be an integer, instead ... is given."\<close>
  | UnexpectedCommandType string  \<comment> \<open>translate_file: "This project should not contain a ... command type (yet)."\<close>
  | Arg1Missing  \<comment> \<open>not in the source: see \<open>translate_command\<close>\<close>

fun bind_res :: "error + 'a \<Rightarrow> ('a \<Rightarrow> error + 'b) \<Rightarrow> error + 'b" where
  "bind_res (Inl e) f = Inl e"
| "bind_res (Inr x) f = f x"

section \<open>Command.py\<close>

definition COMMAND_TYPE_MAP :: "string \<Rightarrow> string option" where
  "COMMAND_TYPE_MAP = map_of
     [(''pop'', ''C_POP''), (''push'', ''C_PUSH''),
      (''add'', ''C_ARITHMETIC''), (''sub'', ''C_ARITHMETIC''), (''neg'', ''C_ARITHMETIC''),
      (''eq'', ''C_ARITHMETIC''), (''gt'', ''C_ARITHMETIC''), (''lt'', ''C_ARITHMETIC''),
      (''and'', ''C_ARITHMETIC''), (''or'', ''C_ARITHMETIC''), (''not'', ''C_ARITHMETIC''),
      (''label'', ''C_LABEL''), (''goto'', ''C_GOTO''), (''if-goto'', ''C_IF''),
      (''function'', ''C_FUNCTION''), (''return'', ''C_RETURN''), (''call'', ''C_CALL'')]"

definition ARG1_BLACKLIST_COMMAND_TYPES :: "string list" where
  "ARG1_BLACKLIST_COMMAND_TYPES = [''C_RETURN'']"

definition ARG2_WHITELIST_COMMAND_TYPES :: "string list" where
  "ARG2_WHITELIST_COMMAND_TYPES = [''C_PUSH'', ''C_POP'', ''C_FUNCTION'', ''C_CALL'']"

text \<open>The three private fields of a \<^verbatim>\<open>Command\<close> object.\<close>

record Command =
  command_type :: string
  arg1 :: "string option"
  arg2 :: "int option"

definition is_valid_arg1_call :: "string \<Rightarrow> bool" where
  "is_valid_arg1_call ct = (ct \<notin> set ARG1_BLACKLIST_COMMAND_TYPES)"

text \<open>The source looks the command type (already a \<^verbatim>\<open>C_...\<close> name) up in the map from
  command words, so this is the source's test as written.\<close>

definition is_arithmetic_command :: "string \<Rightarrow> bool" where
  "is_arithmetic_command ct = (COMMAND_TYPE_MAP ct = Some ''C_ARITHMETIC'')"

definition get_arg1 :: "Command \<Rightarrow> error + string option" where
  "get_arg1 c = (if \<not> is_valid_arg1_call (command_type c) then Inl Arg1OfReturn else Inr (arg1 c))"

definition set_arg1 :: "Command \<Rightarrow> string \<Rightarrow> error + Command" where
  "set_arg1 c s =
     (if \<not> is_valid_arg1_call (command_type c) then Inl Arg1OfReturn
      else Inr (c\<lparr>arg1 := Some (if is_arithmetic_command (command_type c)
                                then command_type c else s)\<rparr>))"

definition get_arg2 :: "Command \<Rightarrow> error + int option" where
  "get_arg2 c =
     (if command_type c \<notin> set ARG2_WHITELIST_COMMAND_TYPES
      then Inl (Arg2NotAllowed (command_type c)) else Inr (arg2 c))"

definition set_arg2 :: "Command \<Rightarrow> string \<Rightarrow> error + Command" where
  "set_arg2 c s =
     (if command_type c \<notin> set ARG2_WHITELIST_COMMAND_TYPES
      then Inl (Arg2NotAllowed (command_type c))
      else (case py_int s of
              None \<Rightarrow> Inl (Arg2NotInteger s)
            | Some num \<Rightarrow> if num < 0 then Inl (NegativeIndex num) else Inr (c\<lparr>arg2 := Some num\<rparr>)))"

definition Command_init :: "string \<Rightarrow> error + Command" where
  "Command_init s =
     (let commands = py_split CHR '' '' s in
      if length commands = 0 then Inl ZeroCommands
      else (case COMMAND_TYPE_MAP (commands ! 0) of
              None \<Rightarrow> Inl (UnidentifiedCommand (commands ! 0))
            | Some ct \<Rightarrow>
                (let c = \<lparr>command_type = ct, arg1 = None, arg2 = None\<rparr> in
                 if ct = ''C_ARITHMETIC'' then set_arg1 c (commands ! 0)
                 else if ct = ''C_RETURN'' then Inr c
                 else if length commands = 1 then Inl (OneArgument s)
                 else bind_res (set_arg1 c (commands ! 1)) (\<lambda>c.
                        if length commands = 2 then Inr c
                        else bind_res (set_arg2 c (commands ! 2)) (\<lambda>c.
                               if length commands > 3 then Inl (TooManyArguments s)
                               else Inr c)))))"

section \<open>Parser.py\<close>

definition clean_line :: "string \<Rightarrow> string" where
  "clean_line line = py_strip (strip_comment False line)"

definition is_blank :: "string \<Rightarrow> bool" where
  "is_blank line = (line = [] \<or> list_all py_isspace line)"

text \<open>\<^verbatim>\<open>clean_file\<close> walks the list with an index: a line that is blank once cleaned is
  removed and the index stays, any other line is replaced by its cleaned form and the
  index moves on. The recursion is over the lines from the index on.\<close>

fun clean_file :: "string list \<Rightarrow> string list" where
  "clean_file [] = []"
| "clean_file (l # ls) =
     (if is_blank (clean_line l) then clean_file ls else clean_line l # clean_file ls)"

section \<open>CodeWriter.py\<close>

definition SEGMENTS_MAPPER :: "string \<Rightarrow> string option" where
  "SEGMENTS_MAPPER = map_of
     [(''argument'', ''ARG''), (''local'', ''LCL''), (''this'', ''THIS''), (''that'', ''THAT'')]"

text \<open>
  The fields of a \<^verbatim>\<open>CodeWriter\<close> object. The output file is the list of the lines
  written to it so far (every one ended by a newline in the file) and a flag that says
  whether it has been closed.
\<close>

record CodeWriter =
  in_filepath :: string
  out_filename :: string
  write_file :: "string list"
  closed :: bool
  current_filename :: "string option"
  current_function :: "string option"
  arith_jump_counter :: int
  return_counter :: int
  log_vm_commands :: bool

text \<open>A method that changes the object returns the exception it raised, if any, and
  the object as it is when the method returns or raises.\<close>

type_synonym outcome = "error option \<times> CodeWriter"

fun and_then :: "outcome \<Rightarrow> (CodeWriter \<Rightarrow> outcome) \<Rightarrow> outcome" where
  "and_then (None, cw) f = f cw"
| "and_then (Some e, cw) f = (Some e, cw)"

definition in_function :: "CodeWriter \<Rightarrow> bool" where
  "in_function cw = (current_function cw \<noteq> None)"

definition set_filename :: "CodeWriter \<Rightarrow> string \<Rightarrow> CodeWriter" where
  "set_filename cw filepath =
     cw\<lparr>current_filename := Some (py_replace ''.vm'' [] (basename filepath)),
        current_function := None\<rparr>"

text \<open>\<^verbatim>\<open>write\<close>: the commands joined by newlines, and one more newline. An empty list of
  commands therefore writes one empty line. Writing to a closed file raises
  \<^verbatim>\<open>ValueError\<close>.\<close>

definition write_out :: "CodeWriter \<Rightarrow> string list \<Rightarrow> outcome" where
  "write_out cw commands =
     (if closed cw then (Some ValueError, cw)
      else (None, cw\<lparr>write_file := write_file cw @ (if commands = [] then [[]] else commands)\<rparr>))"

definition close :: "CodeWriter \<Rightarrow> CodeWriter" where
  "close cw = cw\<lparr>closed := True\<rparr>"

definition get_ram_code :: "string \<Rightarrow> error + string" where
  "get_ram_code segment =
     (case SEGMENTS_MAPPER segment of
        None \<Rightarrow> Inl (KeyError segment)
      | Some ram_code \<Rightarrow> Inr ram_code)"

subsection \<open>Translation methods\<close>

definition translate_segment_vm_code ::
    "CodeWriter \<Rightarrow> string \<Rightarrow> int option \<Rightarrow> error + string list" where
  "translate_segment_vm_code cw segment index =
     (if segment \<in> set [''local'', ''argument'', ''this'', ''that''] then
        bind_res (get_ram_code segment) (\<lambda>ram_code.
          Inr ([''@'' @ ram_code] @
               (if index = Some 0 then [''A=M'']
                else [''D=M'', ''@'' @ py_str_int index, ''A=D+A''])))
      else if segment = ''static'' then
        (case current_filename cw of
           None \<Rightarrow> Inl UnboundContext
         | Some fname \<Rightarrow> Inr [''@'' @ fname @ ''.'' @ py_str_int index])
      else if segment = ''pointer'' then
        (if index = Some 0 then Inr [''@THIS'']
         else if index = Some 1 then Inr [''@THAT'']
         else Inl (InvalidOperand index))
      else if segment = ''temp'' then
        Inr [''@5'', ''D=A'', ''@'' @ py_str_int index, ''A=D+A'']
      else if segment = ''constant'' then
        Inr [''@'' @ py_str_int index, ''D=A'']
      else Inl (UnexpectedSegment segment))"

definition translate_push_vm_code_to_asm ::
    "CodeWriter \<Rightarrow> string \<Rightarrow> int option \<Rightarrow> error + string list" where
  "translate_push_vm_code_to_asm cw segment index =
     bind_res
       (if segment \<noteq> ''skip'' then
          bind_res (translate_segment_vm_code cw segment index) (\<lambda>seg_commands.
            Inr (seg_commands @ (if segment \<noteq> ''constant'' then [''D=M''] else [])))
        else Inr [])
       (\<lambda>asm_commands. Inr (asm_commands @ [''@SP'', ''AM=M+1'', ''A=A-1'', ''M=D'']))"

definition translate_pop_vm_code_to_asm ::
    "CodeWriter \<Rightarrow> string \<Rightarrow> int option \<Rightarrow> error + string list" where
  "translate_pop_vm_code_to_asm cw segment index =
     (if segment = ''constant'' then Inl (InvalidSegment segment)
      else bind_res (translate_segment_vm_code cw segment index) (\<lambda>asm_commands.
             Inr (asm_commands @
                  [''D=A'', ''@SP'', ''AM=M-1'', ''D=D+M'', ''A=D-M'', ''D=D-A'', ''M=D''])))"

text \<open>The translation of an arithmetic command returns the lines and the object: a
  comparison moves the counter of its labels on.\<close>

definition translate_arithmetic_vm_code_to_assembly ::
    "CodeWriter \<Rightarrow> string option \<Rightarrow> error + (string list \<times> CodeWriter)" where
  "translate_arithmetic_vm_code_to_assembly cw command =
     (case command of
        None \<Rightarrow> Inl CommandNone
      | Some c \<Rightarrow>
          (let asm_commands =
                 [''@SP'', ''AM=M-1''] @
                 (if \<not> (c = ''neg'' \<or> c = ''not'') then [''D=M'', ''@SP'', ''AM=M-1''] else []);
               finish = (\<lambda>arith_commands. asm_commands @ arith_commands @ [''@SP'', ''M=M+1''])
           in
           if c = ''add'' then Inr (finish [''M=M+D''], cw)
           else if c = ''sub'' then Inr (finish [''M=M-D''], cw)
           else if c = ''neg'' then Inr (finish [''M=-M''], cw)
           else if c \<in> set [''eq'', ''gt'', ''lt''] then
             (let n = str_int (arith_jump_counter cw) in
              Inr (finish
                     ([''D=M-D'', ''@TRUE_'' @ n] @
                      (if c = ''eq'' then [''D;JEQ'']
                       else if c = ''gt'' then [''D;JGT'']
                       else if c = ''lt'' then [''D;JLT'']
                       else []) @
                      [''D=0'', ''@END_'' @ n, ''0;JMP'', ''(TRUE_'' @ n @ '')'', ''D=-1'',
                       ''(END_'' @ n @ '')'', ''@SP'', ''A=M'', ''M=D'']),
                   cw\<lparr>arith_jump_counter := arith_jump_counter cw + 1\<rparr>))
           else if c = ''and'' then Inr (finish [''M=D&M''], cw)
           else if c = ''or'' then Inr (finish [''M=D|M''], cw)
           else if c = ''not'' then Inr (finish [''M=!M''], cw)
           else Inl (InvalidOperator c)))"

subsection \<open>Writing methods\<close>

definition write_arithmetic :: "CodeWriter \<Rightarrow> string option \<Rightarrow> outcome" where
  "write_arithmetic cw vm_command =
     and_then
       (if log_vm_commands cw then write_out cw [''//  '' @ py_str vm_command] else (None, cw))
       (\<lambda>cw. case translate_arithmetic_vm_code_to_assembly cw vm_command of
                Inl e \<Rightarrow> (Some e, cw)
              | Inr (asm_commands, cw) \<Rightarrow> write_out cw asm_commands)"

definition write_push_pop :: "CodeWriter \<Rightarrow> string \<Rightarrow> string \<Rightarrow> int option \<Rightarrow> outcome" where
  "write_push_pop cw ctype segment index =
     and_then
       (if log_vm_commands cw then
          write_out cw [''//  '' @ (if ctype = ''C_PUSH'' then ''push'' else ''pop'') @ '' '' @
                        segment @ '' '' @ py_str_int index]
        else (None, cw))
       (\<lambda>cw. case (if ctype = ''C_PUSH'' then translate_push_vm_code_to_asm cw segment index
                    else if ctype = ''C_POP'' then translate_pop_vm_code_to_asm cw segment index
                    else Inl (WrongCommandType ctype)) of
                Inl e \<Rightarrow> (Some e, cw)
              | Inr asm_commands \<Rightarrow> write_out cw asm_commands)"

text \<open>The name a label, goto or if-goto instruction emits: scoped by the current
  function when there is one. (The source repeats this line in each of the three
  methods.)\<close>

definition scoped_label :: "CodeWriter \<Rightarrow> string \<Rightarrow> string" where
  "scoped_label cw label =
     (if in_function cw then py_str (current_function cw) @ ''.'' @ label else label)"

definition write_label :: "CodeWriter \<Rightarrow> string \<Rightarrow> outcome" where
  "write_label cw label =
     and_then
       (if log_vm_commands cw then write_out cw [''//  label '' @ label] else (None, cw))
       (\<lambda>cw. write_out cw [''('' @ scoped_label cw label @ '')''])"

definition write_goto :: "CodeWriter \<Rightarrow> string \<Rightarrow> outcome" where
  "write_goto cw label =
     and_then
       (if log_vm_commands cw then write_out cw [''//  goto '' @ label] else (None, cw))
       (\<lambda>cw. write_out cw [''@'' @ scoped_label cw label, ''0;JMP''])"

definition write_if :: "CodeWriter \<Rightarrow> string \<Rightarrow> outcome" where
  "write_if cw label =
     and_then
       (if log_vm_commands cw then write_out cw [''//  if-goto '' @ label] else (None, cw))
       (\<lambda>cw. write_out cw
                [''@SP'', ''AM=M-1'', ''D=M'', ''@'' @ scoped_label cw label, ''D;JNE''])"

text \<open>\<^verbatim>\<open>range(n)\<close> of an integer or \<^verbatim>\<open>None\<close>: no element when \<open>n\<close> is not positive, a
  \<^verbatim>\<open>TypeError\<close> for \<^verbatim>\<open>None\<close>.\<close>

fun py_range :: "int option \<Rightarrow> error + int list" where
  "py_range None = Inl TypeError"
| "py_range (Some n) = Inr (map int [0 ..< nat n])"

definition write_function :: "CodeWriter \<Rightarrow> string \<Rightarrow> int option \<Rightarrow> outcome" where
  "write_function cw function_name num_local_vars =
     and_then
       (let cw = cw\<lparr>current_function := Some function_name\<rparr> in
        if log_vm_commands cw then
          write_out cw [''//  function '' @ function_name @ '' '' @ py_str_int num_local_vars]
        else (None, cw))
       (\<lambda>cw. case bind_res (get_ram_code ''local'') (\<lambda>local_reg.
                     bind_res (py_range num_local_vars) (\<lambda>is.
                       Inr ([''('' @ function_name @ '')''] @
                            concat (map (\<lambda>i. [''@'' @ local_reg, ''D=M'', ''@'' @ str_int i,
                                               ''A=D+A'', ''M=0'', ''@SP'', ''M=M+1'']) is)))) of
                Inl e \<Rightarrow> (Some e, cw)
              | Inr asm_commands \<Rightarrow> write_out cw asm_commands)"

text \<open>\<^verbatim>\<open>num_vars + 5\<close>: a \<^verbatim>\<open>TypeError\<close> when \<open>num_vars\<close> is \<^verbatim>\<open>None\<close>.\<close>

fun py_add5 :: "int option \<Rightarrow> error + int" where
  "py_add5 None = Inl TypeError"
| "py_add5 (Some n) = Inr (n + 5)"

text \<open>The list \<^verbatim>\<open>asm_commands\<close> that \<^verbatim>\<open>write_call\<close> builds, given the return label
  it has made.\<close>

definition call_commands ::
    "CodeWriter \<Rightarrow> string \<Rightarrow> string \<Rightarrow> int option \<Rightarrow> error + string list" where
  "call_commands cw return_address_label function_name num_vars =
     bind_res (translate_push_vm_code_to_asm cw ''skip'' None) (\<lambda>push_ret.
     bind_res (get_ram_code ''local'') (\<lambda>lcl.
     bind_res (translate_push_vm_code_to_asm cw ''skip'' None) (\<lambda>push_lcl.
     bind_res (get_ram_code ''argument'') (\<lambda>arg.
     bind_res (translate_push_vm_code_to_asm cw ''skip'' None) (\<lambda>push_arg.
     bind_res (get_ram_code ''this'') (\<lambda>this.
     bind_res (translate_push_vm_code_to_asm cw ''skip'' None) (\<lambda>push_this.
     bind_res (get_ram_code ''that'') (\<lambda>that.
     bind_res (translate_push_vm_code_to_asm cw ''skip'' None) (\<lambda>push_that.
     bind_res (py_add5 num_vars) (\<lambda>n5.
     bind_res (get_ram_code ''argument'') (\<lambda>arg'.
     bind_res (get_ram_code ''local'') (\<lambda>lcl'.
       Inr ([''@'' @ return_address_label, ''D=A''] @ push_ret @
            [''@'' @ lcl, ''D=M''] @ push_lcl @
            [''@'' @ arg, ''D=M''] @ push_arg @
            [''@'' @ this, ''D=M''] @ push_this @
            [''@'' @ that, ''D=M''] @ push_that @
            [''@SP'', ''D=M'', ''@'' @ str_int n5, ''D=D-A'', ''@'' @ arg', ''M=D'',
             ''@SP'', ''D=M'', ''@'' @ lcl', ''M=D'',
             ''@'' @ function_name, ''0;JMP'',
             ''('' @ return_address_label @ '')''])))))))))))))"

definition write_call :: "CodeWriter \<Rightarrow> string \<Rightarrow> int option \<Rightarrow> outcome" where
  "write_call cw function_name num_vars =
     and_then
       (if log_vm_commands cw then
          write_out cw [''//  call '' @ function_name @ '' '' @ py_str_int num_vars]
        else (None, cw))
       (\<lambda>cw. let return_address_label = ''RETURN_'' @ str_int (return_counter cw);
                  cw = cw\<lparr>return_counter := return_counter cw + 1\<rparr>
              in case call_commands cw return_address_label function_name num_vars of
                   Inl e \<Rightarrow> (Some e, cw)
                 | Inr asm_commands \<Rightarrow> write_out cw asm_commands)"

text \<open>The list \<^verbatim>\<open>asm_commands\<close> of \<^verbatim>\<open>write_return\<close>.\<close>

definition return_commands :: "error + string list" where
  "return_commands =
     bind_res (get_ram_code ''local'') (\<lambda>lcl.
     bind_res (get_ram_code ''argument'') (\<lambda>arg.
     bind_res (get_ram_code ''that'') (\<lambda>that.
     bind_res (get_ram_code ''this'') (\<lambda>this.
       Inr [''@'' @ lcl, ''D=M'', ''@frame'', ''M=D'',
            ''@5'', ''A=D-A'', ''D=M'', ''@return'', ''M=D'',
            ''@SP'', ''AM=M-1'', ''D=M'', ''@'' @ arg, ''A=M'', ''M=D'',
            ''D=A+1'', ''@SP'', ''M=D'',
            ''@frame'', ''D=M'', ''@1'', ''A=D-A'', ''D=M'', ''@'' @ that, ''M=D'',
            ''@frame'', ''D=M'', ''@2'', ''A=D-A'', ''D=M'', ''@'' @ this, ''M=D'',
            ''@frame'', ''D=M'', ''@3'', ''A=D-A'', ''D=M'', ''@'' @ arg, ''M=D'',
            ''@frame'', ''D=M'', ''@4'', ''A=D-A'', ''D=M'', ''@'' @ lcl, ''M=D'',
            ''@return'', ''A=M'', ''0;JMP'']))))"

definition write_return :: "CodeWriter \<Rightarrow> outcome" where
  "write_return cw =
     and_then
       (if log_vm_commands cw then write_out cw [''//  return''] else (None, cw))
       (\<lambda>cw. case return_commands of
                Inl e \<Rightarrow> (Some e, cw)
              | Inr asm_commands \<Rightarrow> write_out cw asm_commands)"

subsection \<open>Construction and bootstrap\<close>

text \<open>\<open>isdir\<close> is \<^verbatim>\<open>os.path.isdir\<close>, the state of the file system.\<close>

definition write_init :: "(string \<Rightarrow> bool) \<Rightarrow> CodeWriter \<Rightarrow> outcome" where
  "write_init isdir cw =
     (if \<not> isdir (in_filepath cw) then (None, cw)
      else and_then
             (if log_vm_commands cw then write_out cw [''//  Boostrap code''] else (None, cw))
             (\<lambda>cw. and_then (write_out cw [''@256'', ''D=A'', ''@SP'', ''M=D''])
                     (\<lambda>cw. write_call cw ''Sys.init'' (Some 0))))"

text \<open>\<^verbatim>\<open>CodeWriter(filepath, log_vm_commands)\<close>: the path of the output file, then the
  fields, then \<^verbatim>\<open>write_init\<close>. An exception leaves no object. (Opening the output file
  is taken to succeed.)\<close>

definition CodeWriter_init :: "(string \<Rightarrow> bool) \<Rightarrow> string \<Rightarrow> bool \<Rightarrow> error + CodeWriter" where
  "CodeWriter_init isdir filepath log =
     bind_res
       (if endswith filepath ''.vm'' then Inr (py_replace ''.vm'' ''.asm'' filepath)
        else if isdir filepath then
          (let base_dir_name = basename filepath in
           if length base_dir_name = 0 then Inl BaseDirEmpty
           else Inr (path_join filepath (base_dir_name @ ''.asm'')))
        else Inr filepath)
       (\<lambda>out.
          if \<not> endswith out ''.asm'' then Inl (NotAsmFile filepath)
          else (case write_init isdir
                       \<lparr>in_filepath = filepath, out_filename = out, write_file = [],
                        closed = False, current_filename = None, current_function = None,
                        arith_jump_counter = 0, return_counter = 0, log_vm_commands = log\<rparr> of
                  (None, cw) \<Rightarrow> Inr cw
                | (Some e, cw) \<Rightarrow> Inl e))"

section \<open>VMTranslator.py\<close>

text \<open>
  One pass of the loop of \<^verbatim>\<open>translate_file\<close>, on the command the parser has built
  from the current line. A command that is not a return has its first argument set by
  its constructor (\<open>Command_init\<close>); \<open>Arg1Missing\<close> stands in the branch where it is
  not, which no constructed command reaches.
\<close>

definition translate_command :: "CodeWriter \<Rightarrow> Command \<Rightarrow> outcome" where
  "translate_command cw c =
     (let ctype = command_type c in
      if ctype = ''C_RETURN'' then write_return cw
      else
        (case get_arg1 c of
           Inl e \<Rightarrow> (Some e, cw)
         | Inr a1 \<Rightarrow>
             if ctype = ''C_ARITHMETIC'' then write_arithmetic cw a1
             else
               (case a1 of
                  None \<Rightarrow> (Some Arg1Missing, cw)
                | Some s \<Rightarrow>
                    if ctype \<in> set [''C_PUSH'', ''C_POP''] then
                      (case get_arg2 c of
                         Inl e \<Rightarrow> (Some e, cw)
                       | Inr a2 \<Rightarrow> write_push_pop cw ctype s a2)
                    else if ctype = ''C_LABEL'' then write_label cw s
                    else if ctype = ''C_IF'' then write_if cw s
                    else if ctype = ''C_GOTO'' then write_goto cw s
                    else
                      (case get_arg2 c of
                         Inl e \<Rightarrow> (Some e, cw)
                       | Inr a2 \<Rightarrow>
                           if ctype = ''C_FUNCTION'' then write_function cw s a2
                           else if ctype = ''C_CALL'' then write_call cw s a2
                           else (Some (UnexpectedCommandType ctype), cw)))))"

text \<open>The loop of \<^verbatim>\<open>translate_file\<close> over the cleaned lines that the parser still has:
  \<^verbatim>\<open>advance\<close> builds the command of the next line, and an exception ends the loop.\<close>

fun translate_lines :: "CodeWriter \<Rightarrow> string list \<Rightarrow> outcome" where
  "translate_lines cw [] = (None, cw)"
| "translate_lines cw (l # ls) =
     (case Command_init l of
        Inl e \<Rightarrow> (Some e, cw)
      | Inr c \<Rightarrow> and_then (translate_command cw c) (\<lambda>cw. translate_lines cw ls))"

definition translate_file :: "string list \<Rightarrow> string \<Rightarrow> CodeWriter \<Rightarrow> outcome" where
  "translate_file file filepath cw = translate_lines (set_filename cw filepath) (clean_file file)"

text \<open>The loop of \<^verbatim>\<open>translate_files\<close> over the ordered dictionary from file paths to
  their lines.\<close>

fun translate_units :: "CodeWriter \<Rightarrow> (string \<times> string list) list \<Rightarrow> outcome" where
  "translate_units cw [] = (None, cw)"
| "translate_units cw ((filepath, file) # files) =
     and_then (translate_file file filepath cw) (\<lambda>cw. translate_units cw files)"

text \<open>\<^verbatim>\<open>translate_files\<close>: the writer is built, every unit is translated, the writer is
  closed. The result is the exception that reached the caller, if any, and the writer,
  if one was built, as the call left it.\<close>

definition translate_files ::
    "(string \<Rightarrow> bool) \<Rightarrow> (string \<times> string list) list \<Rightarrow> string
       \<Rightarrow> error option \<times> CodeWriter option" where
  "translate_files isdir files input_path =
     (case CodeWriter_init isdir input_path True of
        Inl e \<Rightarrow> (Some e, None)
      | Inr code_writer \<Rightarrow>
          (case translate_units code_writer files of
             (Some e, cw) \<Rightarrow> (Some e, Some cw)
           | (None, cw) \<Rightarrow> (None, Some (close cw))))"

section \<open>The target machine\<close>

text \<open>
  The lines the translator writes are assembly for the Hack computer. The machine is not
  part of the repository; the model below is what the claims about executing the
  emitted lines are stated against. It has two 16-bit registers \<open>A\<close> and \<open>D\<close>, a
  memory of 16-bit words addressed by the low 15 bits of \<open>A\<close> (written \<open>M\<close> in an
  instruction), and a program counter into the list of instructions. A line is
  \<^item> a comment (\<^verbatim>\<open>//...\<close>), a label declaration (\<^verbatim>\<open>(name)\<close>) or an empty line, none of
    which is an instruction;
  \<^item> an address instruction \<^verbatim>\<open>@x\<close>, which loads \<open>A\<close> with the number \<open>x\<close> (below
    32768), or with the address the assembler gives the symbol \<open>x\<close>;
  \<^item> a compute instruction \<^verbatim>\<open>dest=comp;jump\<close>, in which \<^verbatim>\<open>dest=\<close> and \<^verbatim>\<open>;jump\<close> are
    optional: \<open>comp\<close> is computed from \<open>A\<close>, \<open>D\<close> and \<open>M\<close>, stored in the registers
    named by \<open>dest\<close> (\<open>M\<close> is the cell addressed before the instruction), and the
    machine continues at the instruction addressed by \<open>A\<close> when \<open>jump\<close> holds of the
    computed value, at the next instruction otherwise.
  The computations accepted are an operand (\<open>0\<close>, \<open>1\<close>, \<open>A\<close>, \<open>D\<close>, \<open>M\<close>), \<open>-\<close> or
  \<open>!\<close> of an operand, and \<open>+\<close>, \<open>-\<close>, \<open>&\<close>, \<open>|\<close> of two operands: every
  computation of the Hack language and every one the translator writes is among them.
  The screen and the keyboard are ordinary memory here.
\<close>

record hack =
  pc :: nat
  areg :: "16 word"
  dreg :: "16 word"
  ram :: "15 word \<Rightarrow> 16 word"

definition addr :: "16 word \<Rightarrow> 15 word" where
  "addr a = ucast a"

definition is_pseudo :: "string \<Rightarrow> bool" where
  "is_pseudo line = (line = [] \<or> startswith line ''//'' \<or> startswith line ''('')"

text \<open>The instruction memory of a program: its lines that are instructions.\<close>

definition rom_of :: "string list \<Rightarrow> string list" where
  "rom_of lines = filter (\<lambda>l. \<not> is_pseudo l) lines"

definition is_number :: "string \<Rightarrow> bool" where
  "is_number x = (x \<noteq> [] \<and> list_all is_digit x)"

text \<open>The value an address instruction loads, given the assembler's symbol table.\<close>

definition a_value :: "(string \<Rightarrow> 16 word) \<Rightarrow> string \<Rightarrow> 16 word option" where
  "a_value env x =
     (if is_number x then
        (if nat_of_digits x < 32768 then Some (of_nat (nat_of_digits x)) else None)
      else Some (env x))"

fun operand :: "char \<Rightarrow> 16 word \<Rightarrow> 16 word \<Rightarrow> 16 word \<Rightarrow> 16 word option" where
  "operand c a d m =
     (if c = CHR ''0'' then Some 0
      else if c = CHR ''1'' then Some 1
      else if c = CHR ''A'' then Some a
      else if c = CHR ''D'' then Some d
      else if c = CHR ''M'' then Some m
      else None)"

fun eval_comp :: "string \<Rightarrow> 16 word \<Rightarrow> 16 word \<Rightarrow> 16 word \<Rightarrow> 16 word option" where
  "eval_comp [c] a d m = operand c a d m"
| "eval_comp [u, c] a d m =
     (case operand c a d m of
        None \<Rightarrow> None
      | Some x \<Rightarrow>
          if u = CHR ''-'' then Some (- x)
          else if u = CHR ''!'' then Some (NOT x)
          else None)"
| "eval_comp [c1, b, c2] a d m =
     (case (operand c1 a d m, operand c2 a d m) of
        (Some x, Some y) \<Rightarrow>
          if b = CHR ''+'' then Some (x + y)
          else if b = CHR ''-'' then Some (x - y)
          else if b = CHR ''&'' then Some (x AND y)
          else if b = CHR ''|'' then Some (x OR y)
          else None
      | _ \<Rightarrow> None)"
| "eval_comp _ a d m = None"

text \<open>The jump conditions, on the computed value read as a signed number.\<close>

definition jump_taken :: "string \<Rightarrow> 16 word \<Rightarrow> bool option" where
  "jump_taken j v =
     (if j = [] then Some False
      else if j = ''JGT'' then Some (0 <s v)
      else if j = ''JEQ'' then Some (v = 0)
      else if j = ''JGE'' then Some (0 \<le>s v)
      else if j = ''JLT'' then Some (v <s 0)
      else if j = ''JNE'' then Some (v \<noteq> 0)
      else if j = ''JLE'' then Some (v \<le>s 0)
      else if j = ''JMP'' then Some True
      else None)"

text \<open>The three fields of a compute instruction.\<close>

definition c_fields :: "string \<Rightarrow> string \<times> string \<times> string" where
  "c_fields line =
     (let dest = (if CHR ''='' \<in> set line then takeWhile (\<lambda>c. c \<noteq> CHR ''='') line else []);
          rest = (if CHR ''='' \<in> set line then tl (dropWhile (\<lambda>c. c \<noteq> CHR ''='') line) else line);
          cmp = takeWhile (\<lambda>c. c \<noteq> CHR '';'') rest;
          jump = (if CHR '';'' \<in> set rest then tl (dropWhile (\<lambda>c. c \<noteq> CHR '';'') rest) else [])
      in (dest, cmp, jump))"

text \<open>One instruction, on the state. \<open>None\<close>: the line is no instruction of the
  machine.\<close>

definition exec_line :: "(string \<Rightarrow> 16 word) \<Rightarrow> string \<Rightarrow> hack \<Rightarrow> hack option" where
  "exec_line env line s =
     (if startswith line ''@'' \<and> line \<noteq> [] then
        (case a_value env (tl line) of
           None \<Rightarrow> None
         | Some v \<Rightarrow> Some (s\<lparr>pc := pc s + 1, areg := v\<rparr>))
      else
        (case c_fields line of (dest, cmp, jump) \<Rightarrow>
           (case (eval_comp cmp (areg s) (dreg s) (ram s (addr (areg s))), jump_taken jump
                    (case eval_comp cmp (areg s) (dreg s) (ram s (addr (areg s))) of
                       None \<Rightarrow> 0 | Some v \<Rightarrow> v)) of
              (Some v, Some j) \<Rightarrow>
                if list_all (\<lambda>c. c \<in> set ''AMD'') dest then
                  Some \<lparr>pc = (if j then unat (addr (areg s)) else pc s + 1),
                        areg = (if CHR ''A'' \<in> set dest then v else areg s),
                        dreg = (if CHR ''D'' \<in> set dest then v else dreg s),
                        ram = (if CHR ''M'' \<in> set dest then (ram s)(addr (areg s) := v)
                               else ram s)\<rparr>
                else None
            | _ \<Rightarrow> None)))"

text \<open>One step of the machine on an instruction memory: the instruction at the
  program counter. \<open>None\<close> when there is none.\<close>

definition step :: "(string \<Rightarrow> 16 word) \<Rightarrow> string list \<Rightarrow> hack \<Rightarrow> hack option" where
  "step env rom s = (if pc s < length rom then exec_line env (rom ! pc s) s else None)"

text \<open>\<open>run env rom n s\<close>: the state after exactly \<open>n\<close> steps, \<open>None\<close> if one of them
  cannot be made.\<close>

fun run :: "(string \<Rightarrow> 16 word) \<Rightarrow> string list \<Rightarrow> nat \<Rightarrow> hack \<Rightarrow> hack option" where
  "run env rom 0 s = Some s"
| "run env rom (Suc n) s =
     (case step env rom s of
        None \<Rightarrow> None
      | Some s' \<Rightarrow> run env rom n s')"

text \<open>The instructions \<open>code\<close> stand in the instruction memory from address \<open>p\<close> on.\<close>

definition rom_at :: "string list \<Rightarrow> nat \<Rightarrow> string list \<Rightarrow> bool" where
  "rom_at rom p code = (take (length code) (drop p rom) = code)"

subsection \<open>The assembler's symbol table\<close>

text \<open>The predefined symbols, then the labels (the address of the instruction that
  follows the declaration), then the variables: the other symbols, numbered from 16 in
  the order in which the program first uses them.\<close>

definition predefined :: "string \<Rightarrow> nat option" where
  "predefined = map_of
     [(''SP'', 0), (''LCL'', 1), (''ARG'', 2), (''THIS'', 3), (''THAT'', 4),
      (''R0'', 0), (''R1'', 1), (''R2'', 2), (''R3'', 3), (''R4'', 4), (''R5'', 5),
      (''R6'', 6), (''R7'', 7), (''R8'', 8), (''R9'', 9), (''R10'', 10), (''R11'', 11),
      (''R12'', 12), (''R13'', 13), (''R14'', 14), (''R15'', 15),
      (''SCREEN'', 16384), (''KBD'', 24576)]"

fun label_address :: "string list \<Rightarrow> string \<Rightarrow> nat \<Rightarrow> nat option" where
  "label_address [] l n = None"
| "label_address (x # xs) l n =
     (if x = ''('' @ l @ '')'' then Some n
      else label_address xs l (if is_pseudo x then n else n + 1))"

definition variables :: "string list \<Rightarrow> string list" where
  "variables lines =
     rev (remdups (rev
       (filter (\<lambda>x. \<not> is_number x \<and> predefined x = None \<and> label_address lines x 0 = None)
          (map tl (filter (\<lambda>l. startswith l ''@'' \<and> l \<noteq> []) lines)))))"

fun index_of :: "string \<Rightarrow> string list \<Rightarrow> nat" where
  "index_of x [] = 0"
| "index_of x (y # ys) = (if x = y then 0 else 1 + index_of x ys)"

definition assemble_env :: "string list \<Rightarrow> string \<Rightarrow> 16 word" where
  "assemble_env lines x =
     (case predefined x of
        Some v \<Rightarrow> of_nat v
      | None \<Rightarrow>
          (case label_address lines x 0 of
             Some v \<Rightarrow> of_nat v
           | None \<Rightarrow> of_nat (16 + index_of x (variables lines))))"

text \<open>A symbol table gives the predefined symbols the translator uses their
  addresses.\<close>

definition base_env :: "(string \<Rightarrow> 16 word) \<Rightarrow> bool" where
  "base_env env =
     (env ''SP'' = 0 \<and> env ''LCL'' = 1 \<and> env ''ARG'' = 2 \<and> env ''THIS'' = 3 \<and> env ''THAT'' = 4)"

text \<open>The machine started on a whole program, as assembled.\<close>

definition run_program :: "string list \<Rightarrow> nat \<Rightarrow> hack \<Rightarrow> hack option" where
  "run_program lines n s = run (assemble_env lines) (rom_of lines) n s"

section \<open>Notions used in the statements\<close>

text \<open>What no method of the writer changes once the object is built: whether the file is
  closed, the logging flag and the input path; the two counters never go down; the
  file only grows at its end.\<close>

definition keeps :: "CodeWriter \<Rightarrow> CodeWriter \<Rightarrow> bool" where
  "keeps cw cw' =
     (closed cw' = closed cw \<and> log_vm_commands cw' = log_vm_commands cw \<and>
      in_filepath cw' = in_filepath cw \<and>
      arith_jump_counter cw \<le> arith_jump_counter cw' \<and>
      return_counter cw \<le> return_counter cw' \<and>
      (\<exists>ys. write_file cw' = write_file cw @ ys))"

text \<open>The same, and the current function is unchanged as well.\<close>

definition keeps_fn :: "CodeWriter \<Rightarrow> CodeWriter \<Rightarrow> bool" where
  "keeps_fn cw cw' = (keeps cw cw' \<and> current_function cw' = current_function cw)"

text \<open>A cleaned line whose command is a \<^verbatim>\<open>function\<close> instruction.\<close>

definition is_function_line :: "string \<Rightarrow> bool" where
  "is_function_line l =
     (case Command_init l of Inl e \<Rightarrow> False | Inr c \<Rightarrow> command_type c = ''C_FUNCTION'')"

text \<open>A file system in which no path is a directory, and one in which every path is.\<close>

definition no_dirs :: "string \<Rightarrow> bool" where
  "no_dirs p = False"

definition all_dirs :: "string \<Rightarrow> bool" where
  "all_dirs p = True"

text \<open>Two writers for the examples: one inside the function \<^verbatim>\<open>A.f\<close> of the unit \<^verbatim>\<open>A\<close>,
  and what it becomes when the unit \<^verbatim>\<open>d/B.vm\<close> begins and \<^verbatim>\<open>push constant 1\<close> is
  translated.\<close>

definition writer_in_function :: CodeWriter where
  "writer_in_function =
     \<lparr>in_filepath = ''d'', out_filename = ''d/d.asm'', write_file = [],
      closed = False, current_filename = Some ''A'', current_function = Some ''A.f'',
      arith_jump_counter = 0, return_counter = 0, log_vm_commands = False\<rparr>"

definition writer_after_push :: CodeWriter where
  "writer_after_push =
     \<lparr>in_filepath = ''d'', out_filename = ''d/d.asm'',
      write_file = [''@1'', ''D=A'', ''@SP'', ''AM=M+1'', ''A=A-1'', ''M=D''],
      closed = False, current_filename = Some ''B'', current_function = None,
      arith_jump_counter = 0, return_counter = 0, log_vm_commands = False\<rparr>"

text \<open>The lines of a translation that succeeded.\<close>

definition emitted :: "error + string list \<Rightarrow> string list" where
  "emitted r = (case r of Inl e \<Rightarrow> [] | Inr c \<Rightarrow> c)"

text \<open>Instructions executed one after the other, as long as each continues at the next
  one; only the last may jump. This is what the machine does on an instruction memory
  that holds them (\<open>run_straight\<close> below).\<close>

fun exec_straight :: "(string \<Rightarrow> 16 word) \<Rightarrow> string list \<Rightarrow> hack \<Rightarrow> hack option" where
  "exec_straight env [] s = Some s"
| "exec_straight env (l # ls) s =
     (case exec_line env l s of
        None \<Rightarrow> None
      | Some s' \<Rightarrow> if ls = [] \<or> pc s' = pc s + 1 then exec_straight env ls s' else None)"

named_theorems hack_exec

text \<open>A machine state for the examples: the stack pointer at 256, with 7 on top of the
  stack, the base pointers of local, argument, this and that at 300, 400, 3000 and
  3010, and a value in cell 305.\<close>

definition machine0 :: hack where
  "machine0 =
     \<lparr>pc = 0, areg = 0, dreg = 0,
      ram = (\<lambda>a. 0)(0 := 256, 1 := 300, 2 := 400, 3 := 3000, 4 := 3010, 255 := 7,
                       305 := 77)\<rparr>"

text \<open>A program for the examples: a label of the function \<^verbatim>\<open>A.f\<close> and the lines of
  \<^verbatim>\<open>if-goto LOOP\<close> inside that function.\<close>

definition loop_program :: "string list" where
  "loop_program = [''(A.f.LOOP)'', ''@SP'', ''AM=M-1'', ''D=M'', ''@A.f.LOOP'', ''D;JNE'']"

text \<open>The lines of the translation of an arithmetic command that succeeded.\<close>

definition arithmetic_lines :: "error + (string list \<times> CodeWriter) \<Rightarrow> string list" where
  "arithmetic_lines r = (case r of Inl e \<Rightarrow> [] | Inr (asm, cw) \<Rightarrow> asm)"

text \<open>The condition of a comparison command, on the difference \<open>left - right\<close> read as a
  signed 16-bit number.\<close>

definition comparison_holds :: "string \<Rightarrow> 16 word \<Rightarrow> bool" where
  "comparison_holds c d =
     (if c = ''eq'' then d = 0 else if c = ''gt'' then 0 <s d else d <s 0)"

text \<open>Scenario B: the unit \<^verbatim>\<open>B.vm\<close> and the lines written for it.\<close>

definition scenario_b :: "string list" where
  "scenario_b = [''push constant 5'', ''push constant 5'', ''eq'']"

definition scenario_b_output :: "string list" where
  "scenario_b_output =
     [''//  push constant 5'', ''@5'', ''D=A'', ''@SP'', ''AM=M+1'', ''A=A-1'', ''M=D'',
      ''//  push constant 5'', ''@5'', ''D=A'', ''@SP'', ''AM=M+1'', ''A=A-1'', ''M=D'',
      ''//  eq'', ''@SP'', ''AM=M-1'', ''D=M'', ''@SP'', ''AM=M-1'', ''D=M-D'', ''@TRUE_0'',
      ''D;JEQ'', ''D=0'', ''@END_0'', ''0;JMP'', ''(TRUE_0)'', ''D=-1'', ''(END_0)'', ''@SP'',
      ''A=M'', ''M=D'', ''@SP'', ''M=M+1'']"

text \<open>A unit that compares 32767 with -1, and the lines written for it.\<close>

definition overflow_unit :: "string list" where
  "overflow_unit = [''push constant 32767'', ''push constant 1'', ''neg'', ''gt'']"

definition overflow_output :: "string list" where
  "overflow_output =
     [''//  push constant 32767'', ''@32767'', ''D=A'', ''@SP'', ''AM=M+1'', ''A=A-1'', ''M=D'',
      ''//  push constant 1'', ''@1'', ''D=A'', ''@SP'', ''AM=M+1'', ''A=A-1'', ''M=D'',
      ''//  neg'', ''@SP'', ''AM=M-1'', ''M=-M'', ''@SP'', ''M=M+1'',
      ''//  gt'', ''@SP'', ''AM=M-1'', ''D=M'', ''@SP'', ''AM=M-1'', ''D=M-D'', ''@TRUE_0'',
      ''D;JGT'', ''D=0'', ''@END_0'', ''0;JMP'', ''(TRUE_0)'', ''D=-1'', ''(END_0)'', ''@SP'',
      ''A=M'', ''M=D'', ''@SP'', ''M=M+1'']"

text \<open>A machine state at the end of a function that was called with no argument: the
  frame saved by the call is in cells 300 to 304 (the return address 7, then the caller's
  local, argument, this and that base pointers 1000, 2000, 3000 and 4000), so that the
  local base is 305 and the argument base is 300, the cell of the return address; the
  stack pointer is 310 and the value to return, 42, is on top of the stack.\<close>

definition frame_machine :: hack where
  "frame_machine =
     \<lparr>pc = 0, areg = 0, dreg = 0,
      ram = (\<lambda>a. 0)(0 := 310, 1 := 305, 2 := 300, 3 := 5000, 4 := 6000, 300 := 7,
                       301 := 1000, 302 := 2000, 303 := 3000, 304 := 4000, 309 := 42)\<rparr>"

text \<open>A program for the examples: the lines of \<^verbatim>\<open>call A.g 2\<close>, written by a writer whose
  counter of calls is 0, an endless loop, and the entry of \<^verbatim>\<open>A.g\<close>.\<close>

definition call_program :: "string list" where
  "call_program =
     write_file (snd (write_call writer_in_function ''A.g'' (Some 2))) @
     [''(END)'', ''@END'', ''0;JMP'', ''(A.g)'', ''D=0'']"

section \<open>What the methods of the writer leave unchanged\<close>

lemma keeps_refl: "keeps cw cw"
  by (simp add: keeps_def)

lemma keeps_trans: "keeps a b \<Longrightarrow> keeps b c \<Longrightarrow> keeps a c"
  by (auto simp: keeps_def)

lemma keeps_fn_refl: "keeps_fn cw cw"
  by (simp add: keeps_fn_def keeps_refl)

lemma keeps_fn_trans: "keeps_fn a b \<Longrightarrow> keeps_fn b c \<Longrightarrow> keeps_fn a c"
  by (auto simp: keeps_fn_def intro: keeps_trans)

lemma and_then_cases:
  assumes "and_then r f = (x, cw')"
  shows "(\<exists>e. r = (Some e, cw') \<and> x = Some e) \<or> (\<exists>cw1. r = (None, cw1) \<and> f cw1 = (x, cw'))"
proof (cases r)
  case (Pair a b)
  with assms show ?thesis by (cases a) auto
qed

lemma write_out_keeps: "write_out cw xs = (r, cw') \<Longrightarrow> keeps_fn cw cw'"
  by (auto simp: write_out_def keeps_def keeps_fn_def split: if_splits)

lemma log_keeps:
  "(if log_vm_commands cw then write_out cw xs else (None, cw)) = (r, cw') \<Longrightarrow> keeps_fn cw cw'"
  by (auto simp: keeps_fn_refl dest: write_out_keeps split: if_splits)

lemma write_out_keeps_snd: "keeps_fn cw (snd (write_out cw xs))"
  by (rule write_out_keeps [OF prod.collapse [symmetric]])

lemma log_keeps_snd:
  "keeps_fn cw (snd (if log_vm_commands cw then write_out cw xs else (None, cw)))"
  by (rule log_keeps [OF prod.collapse [symmetric]])

lemma and_then_keeps_fn:
  assumes "and_then r f = (x, cw')" and "keeps_fn cw (snd r)"
    and "\<And>cw1 y cw2. f cw1 = (y, cw2) \<Longrightarrow> keeps_fn cw1 cw2"
  shows "keeps_fn cw cw'"
  using and_then_cases [OF assms(1)] assms(2,3)
  by (auto intro: keeps_fn_trans)

lemma and_then_keeps:
  assumes "and_then r f = (x, cw')" and "keeps cw (snd r)"
    and "\<And>cw1 y cw2. f cw1 = (y, cw2) \<Longrightarrow> keeps cw1 cw2"
  shows "keeps cw cw'"
  using and_then_cases [OF assms(1)] assms(2,3)
  by (auto intro: keeps_trans)

lemma translate_arithmetic_keeps:
  "translate_arithmetic_vm_code_to_assembly cw c = Inr (asm, cw') \<Longrightarrow> keeps_fn cw cw'"
  by (auto simp: translate_arithmetic_vm_code_to_assembly_def keeps_def keeps_fn_def Let_def
           split: option.splits if_splits)

lemma write_arithmetic_keeps: "write_arithmetic cw c = (r, cw') \<Longrightarrow> keeps_fn cw cw'"
  unfolding write_arithmetic_def
  by (erule and_then_keeps_fn)
     (auto simp: keeps_fn_refl log_keeps_snd dest: log_keeps write_out_keeps translate_arithmetic_keeps
           intro: keeps_fn_trans split: sum.splits prod.splits)

lemma write_push_pop_keeps: "write_push_pop cw t seg i = (r, cw') \<Longrightarrow> keeps_fn cw cw'"
  unfolding write_push_pop_def
  by (erule and_then_keeps_fn)
     (auto simp: keeps_fn_refl log_keeps_snd dest: log_keeps write_out_keeps split: sum.splits)

lemma write_label_keeps: "write_label cw l = (r, cw') \<Longrightarrow> keeps_fn cw cw'"
  unfolding write_label_def
  by (erule and_then_keeps_fn) (auto simp: log_keeps_snd dest: log_keeps write_out_keeps)

lemma write_goto_keeps: "write_goto cw l = (r, cw') \<Longrightarrow> keeps_fn cw cw'"
  unfolding write_goto_def
  by (erule and_then_keeps_fn) (auto simp: log_keeps_snd dest: log_keeps write_out_keeps)

lemma write_if_keeps: "write_if cw l = (r, cw') \<Longrightarrow> keeps_fn cw cw'"
  unfolding write_if_def
  by (erule and_then_keeps_fn) (auto simp: log_keeps_snd dest: log_keeps write_out_keeps)

lemma write_return_keeps: "write_return cw = (r, cw') \<Longrightarrow> keeps_fn cw cw'"
  unfolding write_return_def
  by (erule and_then_keeps_fn)
     (auto simp: keeps_fn_refl log_keeps_snd dest: log_keeps write_out_keeps split: sum.splits)

lemma counter_step_keeps: "keeps_fn cw (cw\<lparr>return_counter := return_counter cw + 1\<rparr>)"
  by (simp add: keeps_fn_def keeps_def)

lemma write_call_keeps: "write_call cw f n = (r, cw') \<Longrightarrow> keeps_fn cw cw'"
  unfolding write_call_def
  by (erule and_then_keeps_fn)
     (auto simp: Let_def log_keeps_snd dest: log_keeps write_out_keeps
           intro: counter_step_keeps keeps_fn_trans [OF counter_step_keeps] split: sum.splits)

lemma write_function_keeps: "write_function cw f n = (r, cw') \<Longrightarrow> keeps cw cw'"
proof -
  have a: "keeps cw (cw\<lparr>current_function := Some f\<rparr>)"
    by (simp add: keeps_def)
  assume "write_function cw f n = (r, cw')"
  then show ?thesis
    unfolding write_function_def
    by (rule and_then_keeps)
       (auto simp: Let_def keeps_refl keeps_fn_def write_out_def keeps_def split: sum.splits if_splits)
qed

lemma translate_command_keeps: "translate_command cw c = (r, cw') \<Longrightarrow> keeps cw cw'"
  by (auto simp: translate_command_def Let_def keeps_refl keeps_fn_def
           dest!: write_return_keeps write_arithmetic_keeps write_push_pop_keeps write_label_keeps
                 write_if_keeps write_goto_keeps write_function_keeps write_call_keeps
           split: if_splits sum.splits option.splits)

lemma translate_command_keeps_fn:
  "translate_command cw c = (r, cw') \<Longrightarrow> command_type c \<noteq> ''C_FUNCTION'' \<Longrightarrow> keeps_fn cw cw'"
  by (auto simp: translate_command_def Let_def keeps_fn_refl
           dest!: write_return_keeps write_arithmetic_keeps write_push_pop_keeps write_label_keeps
                 write_if_keeps write_goto_keeps write_call_keeps
           split: if_splits sum.splits option.splits)

lemma translate_lines_keeps: "translate_lines cw ls = (r, cw') \<Longrightarrow> keeps cw cw'"
proof (induction ls arbitrary: cw r cw')
  case Nil
  then show ?case by (simp add: keeps_refl)
next
  case (Cons l ls)
  show ?case
  proof (cases "Command_init l")
    case (Inl e)
    with Cons.prems show ?thesis by (simp add: keeps_refl)
  next
    case (Inr c)
    with Cons.prems have "and_then (translate_command cw c) (\<lambda>cw. translate_lines cw ls) = (r, cw')"
      by simp
    then show ?thesis
    proof (rule and_then_keeps)
      show "keeps cw (snd (translate_command cw c))"
        by (rule translate_command_keeps [OF prod.collapse [symmetric]])
    next
      fix cw1 y cw2
      assume "translate_lines cw1 ls = (y, cw2)"
      then show "keeps cw1 cw2" by (rule Cons.IH)
    qed
  qed
qed


lemma set_filename_keeps: "keeps cw (set_filename cw fp)"
  by (simp add: keeps_def set_filename_def)

lemma translate_file_keeps: "translate_file lns fp cw = (r, cw') \<Longrightarrow> keeps cw cw'"
  unfolding translate_file_def
  by (blast intro: keeps_trans set_filename_keeps dest: translate_lines_keeps)

lemma translate_units_keeps: "translate_units cw files = (r, cw') \<Longrightarrow> keeps cw cw'"
proof (induction files arbitrary: cw r cw')
  case Nil
  then show ?case by (simp add: keeps_refl)
next
  case (Cons u files)
  obtain fp lns where u: "u = (fp, lns)" by (cases u)
  with Cons.prems
  have "and_then (translate_file lns fp cw) (\<lambda>cw. translate_units cw files) = (r, cw')"
    by simp
  then show ?case
  proof (rule and_then_keeps)
    show "keeps cw (snd (translate_file lns fp cw))"
      by (rule translate_file_keeps [OF prod.collapse [symmetric]])
  next
    fix cw1 y cw2
    assume "translate_units cw1 files = (y, cw2)"
    then show "keeps cw1 cw2" by (rule Cons.IH)
  qed
qed

lemma translate_lines_keeps_fn:
  "translate_lines cw ls = (r, cw') \<Longrightarrow>
   list_all (\<lambda>l. \<not> is_function_line l) ls \<Longrightarrow>
   keeps_fn cw cw'"
proof (induction ls arbitrary: cw r cw')
  case Nil
  then show ?case by (simp add: keeps_fn_refl)
next
  case (Cons l ls)
  show ?case
  proof (cases "Command_init l")
    case (Inl e)
    with Cons.prems show ?thesis by (simp add: keeps_fn_refl)
  next
    case (Inr c)
    with Cons.prems have nf: "command_type c \<noteq> ''C_FUNCTION''"
      and rest: "list_all (\<lambda>l. \<not> is_function_line l) ls"
      by (simp_all add: is_function_line_def)
    from Inr Cons.prems have "and_then (translate_command cw c) (\<lambda>cw. translate_lines cw ls) = (r, cw')"
      by simp
    then show ?thesis
    proof (rule and_then_keeps_fn)
      show "keeps_fn cw (snd (translate_command cw c))"
        by (rule translate_command_keeps_fn [OF prod.collapse [symmetric] nf])
    next
      fix cw1 y cw2
      assume "translate_lines cw1 ls = (y, cw2)"
      then show "keeps_fn cw1 cw2" using rest by (rule Cons.IH)
    qed
  qed
qed

lemma write_init_keeps: "write_init isdir cw = (r, cw') \<Longrightarrow> keeps cw cw'"
  by (auto simp: write_init_def keeps_refl log_keeps_snd keeps_fn_def
           dest!: and_then_cases write_out_keeps log_keeps write_call_keeps
           split: if_splits)
     (blast intro: keeps_trans)+

lemma CodeWriter_init_open: "CodeWriter_init isdir fp log = Inr cw \<Longrightarrow> \<not> closed cw"
  by (auto simp: CodeWriter_init_def keeps_def Let_def
           dest!: write_init_keeps split: if_splits prod.splits option.splits)

lemma write_label_open:
  "\<not> closed cw \<Longrightarrow>
   write_label cw l =
     (None, cw\<lparr>write_file := write_file cw @
                  (if log_vm_commands cw then [''//  label '' @ l] else []) @
                  [''('' @ scoped_label cw l @ '')'']\<rparr>)"
  by (simp add: write_label_def write_out_def scoped_label_def in_function_def)

lemma write_goto_open:
  "\<not> closed cw \<Longrightarrow>
   write_goto cw l =
     (None, cw\<lparr>write_file := write_file cw @
                  (if log_vm_commands cw then [''//  goto '' @ l] else []) @
                  [''@'' @ scoped_label cw l, ''0;JMP'']\<rparr>)"
  by (simp add: write_goto_def write_out_def scoped_label_def in_function_def)

lemma write_if_open:
  "\<not> closed cw \<Longrightarrow>
   write_if cw l =
     (None, cw\<lparr>write_file := write_file cw @
                  (if log_vm_commands cw then [''//  if-goto '' @ l] else []) @
                  [''@SP'', ''AM=M-1'', ''D=M'', ''@'' @ scoped_label cw l, ''D;JNE'']\<rparr>)"
  by (simp add: write_if_def write_out_def scoped_label_def in_function_def)

section \<open>Decimal numerals\<close>

text \<open>\<open>str_int\<close> is one-to-one, and the machine reads the numeral of an address
  instruction back as the number it was written from.\<close>

lemma lt10_cases: "(d::nat) < 10 \<Longrightarrow> d = 0 \<or> d = 1 \<or> d = 2 \<or> d = 3 \<or> d = 4 \<or> d = 5 \<or> d = 6 \<or> d = 7 \<or> d = 8 \<or> d = 9"
  by arith

lemma digit_val_digit_char: "d < 10 \<Longrightarrow> digit_val (digit_char d) = d"
  by (drule lt10_cases) (auto simp: digit_val_def digit_char_def)

lemma is_digit_digit_char: "d < 10 \<Longrightarrow> is_digit (digit_char d)"
  by (drule lt10_cases) (auto simp: is_digit_def digit_char_def)

lemma str_nat_digits: "list_all is_digit (str_nat n)"
proof (induction n rule: str_nat.induct)
  case (1 n)
  show ?case
  proof (cases "n < 10")
    case True
    then show ?thesis by (subst str_nat.simps) (simp add: is_digit_digit_char)
  next
    case False
    with "1.IH" show ?thesis by (subst str_nat.simps) (simp add: is_digit_digit_char)
  qed
qed

lemma str_nat_nonempty: "str_nat n \<noteq> []"
  by (subst str_nat.simps) simp

lemma is_number_str_nat: "is_number (str_nat n)"
  by (simp add: is_number_def str_nat_nonempty str_nat_digits)

lemma is_digit_not_underscore: "is_digit c \<Longrightarrow> c \<noteq> CHR ''_''"
  by (auto simp: is_digit_def)

lemma filter_digits: "list_all is_digit s \<Longrightarrow> filter (\<lambda>c. c \<noteq> CHR ''_'') s = s"
  by (induction s) (auto dest: is_digit_not_underscore)

lemma nat_of_digits_snoc:
  "list_all is_digit s \<Longrightarrow> is_digit c \<Longrightarrow>
   nat_of_digits (s @ [c]) = 10 * nat_of_digits s + digit_val c"
  by (simp add: nat_of_digits_def filter_digits is_digit_not_underscore)

lemma nat_of_digits_single: "is_digit c \<Longrightarrow> nat_of_digits [c] = digit_val c"
  by (simp add: nat_of_digits_def is_digit_not_underscore)

lemma nat_of_digits_str_nat: "nat_of_digits (str_nat n) = n"
proof (induction n rule: str_nat.induct)
  case (1 n)
  show ?case
  proof (cases "n < 10")
    case True
    then show ?thesis
      by (subst str_nat.simps)
         (simp add: nat_of_digits_single is_digit_digit_char digit_val_digit_char)
  next
    case False
    with "1.IH" have "nat_of_digits (str_nat (n div 10)) = n div 10" by simp
    with False show ?thesis
      by (subst str_nat.simps)
         (simp add: nat_of_digits_snoc str_nat_digits is_digit_digit_char digit_val_digit_char)
  qed
qed

lemma str_nat_inj: "str_nat a = str_nat b \<Longrightarrow> a = b"
  by (metis nat_of_digits_str_nat)

lemma str_nat_hd_digit: "is_digit (hd (str_nat n))"
  using str_nat_digits [of n] str_nat_nonempty [of n] by (cases "str_nat n") simp_all

lemma str_nat_not_minus: "str_nat n \<noteq> CHR ''-'' # s"
  using str_nat_hd_digit [of n] by (auto simp: is_digit_def)

lemma str_int_inj: "str_int a = str_int b \<Longrightarrow> a = b"
  by (auto simp: str_int_def str_nat_not_minus str_nat_not_minus [symmetric]
           dest!: str_nat_inj split: if_splits)

lemma a_value_str_int:
  "0 \<le> i \<Longrightarrow> i < 32768 \<Longrightarrow> a_value env (str_int i) = Some (of_int i)"
  by (simp add: a_value_def str_int_def is_number_str_nat nat_of_digits_str_nat)

lemma not_number_Cons: "\<not> is_digit c \<Longrightarrow> \<not> is_number (c # cs)"
  by (simp add: is_number_def)

lemma a_value_symbol: "\<not> is_number x \<Longrightarrow> a_value env x = Some (env x)"
  by (simp add: a_value_def)

lemma exec_at:
  "exec_line env (CHR ''@'' # x) s =
     (case a_value env x of None \<Rightarrow> None | Some v \<Rightarrow> Some (s\<lparr>pc := pc s + 1, areg := v\<rparr>))"
  by (simp add: exec_line_def startswith_def)

section \<open>Executing the instructions the translator writes\<close>

lemma exec_D_eq_A [hack_exec]:
  "exec_line env ''D=A'' s =
     Some (s\<lparr>pc := pc s + 1, dreg := areg s\<rparr>)"
  by (simp add: exec_line_def startswith_def c_fields_def jump_taken_def)

lemma exec_M_eq_D [hack_exec]:
  "exec_line env ''M=D'' s =
     Some (s\<lparr>pc := pc s + 1, ram := (ram s)(addr (areg s) := dreg s)\<rparr>)"
  by (simp add: exec_line_def startswith_def c_fields_def jump_taken_def)

lemma exec_AM_eq_M_minus_1 [hack_exec]:
  "exec_line env ''AM=M-1'' s =
     Some (s\<lparr>pc := pc s + 1, areg := ram s (addr (areg s)) - 1, ram := (ram s)(addr (areg s) := ram s (addr (areg s)) - 1)\<rparr>)"
  by (simp add: exec_line_def startswith_def c_fields_def jump_taken_def)

lemma exec_D_eq_M [hack_exec]:
  "exec_line env ''D=M'' s =
     Some (s\<lparr>pc := pc s + 1, dreg := ram s (addr (areg s))\<rparr>)"
  by (simp add: exec_line_def startswith_def c_fields_def jump_taken_def)

lemma exec_AM_eq_M_plus_1 [hack_exec]:
  "exec_line env ''AM=M+1'' s =
     Some (s\<lparr>pc := pc s + 1, areg := ram s (addr (areg s)) + 1, ram := (ram s)(addr (areg s) := ram s (addr (areg s)) + 1)\<rparr>)"
  by (simp add: exec_line_def startswith_def c_fields_def jump_taken_def)

lemma exec_A_eq_A_minus_1 [hack_exec]:
  "exec_line env ''A=A-1'' s =
     Some (s\<lparr>pc := pc s + 1, areg := areg s - 1\<rparr>)"
  by (simp add: exec_line_def startswith_def c_fields_def jump_taken_def)

lemma exec_M_eq_M_plus_D [hack_exec]:
  "exec_line env ''M=M+D'' s =
     Some (s\<lparr>pc := pc s + 1, ram := (ram s)(addr (areg s) := ram s (addr (areg s)) + dreg s)\<rparr>)"
  by (simp add: exec_line_def startswith_def c_fields_def jump_taken_def)

lemma exec_M_eq_M_minus_D [hack_exec]:
  "exec_line env ''M=M-D'' s =
     Some (s\<lparr>pc := pc s + 1, ram := (ram s)(addr (areg s) := ram s (addr (areg s)) - dreg s)\<rparr>)"
  by (simp add: exec_line_def startswith_def c_fields_def jump_taken_def)

lemma exec_M_eq_minus_M [hack_exec]:
  "exec_line env ''M=-M'' s =
     Some (s\<lparr>pc := pc s + 1, ram := (ram s)(addr (areg s) := - (ram s (addr (areg s))))\<rparr>)"
  by (simp add: exec_line_def startswith_def c_fields_def jump_taken_def)

lemma exec_D_eq_M_minus_D [hack_exec]:
  "exec_line env ''D=M-D'' s =
     Some (s\<lparr>pc := pc s + 1, dreg := ram s (addr (areg s)) - dreg s\<rparr>)"
  by (simp add: exec_line_def startswith_def c_fields_def jump_taken_def)

lemma exec_D_JEQ [hack_exec]:
  "exec_line env ''D;JEQ'' s =
     Some (s\<lparr>pc := (if dreg s = 0 then unat (addr (areg s)) else pc s + 1)\<rparr>)"
  by (simp add: exec_line_def startswith_def c_fields_def jump_taken_def)

lemma exec_D_JGT [hack_exec]:
  "exec_line env ''D;JGT'' s =
     Some (s\<lparr>pc := (if 0 <s dreg s then unat (addr (areg s)) else pc s + 1)\<rparr>)"
  by (simp add: exec_line_def startswith_def c_fields_def jump_taken_def)

lemma exec_D_JLT [hack_exec]:
  "exec_line env ''D;JLT'' s =
     Some (s\<lparr>pc := (if dreg s <s 0 then unat (addr (areg s)) else pc s + 1)\<rparr>)"
  by (simp add: exec_line_def startswith_def c_fields_def jump_taken_def)

lemma exec_D_eq_0 [hack_exec]:
  "exec_line env ''D=0'' s =
     Some (s\<lparr>pc := pc s + 1, dreg := 0\<rparr>)"
  by (simp add: exec_line_def startswith_def c_fields_def jump_taken_def)

lemma exec_0_JMP [hack_exec]:
  "exec_line env ''0;JMP'' s =
     Some (s\<lparr>pc := unat (addr (areg s))\<rparr>)"
  by (simp add: exec_line_def startswith_def c_fields_def jump_taken_def)

lemma exec_D_eq_minus_1 [hack_exec]:
  "exec_line env ''D=-1'' s =
     Some (s\<lparr>pc := pc s + 1, dreg := - 1\<rparr>)"
  by (simp add: exec_line_def startswith_def c_fields_def jump_taken_def)

lemma exec_A_eq_M [hack_exec]:
  "exec_line env ''A=M'' s =
     Some (s\<lparr>pc := pc s + 1, areg := ram s (addr (areg s))\<rparr>)"
  by (simp add: exec_line_def startswith_def c_fields_def jump_taken_def)

lemma exec_M_eq_D_and_M [hack_exec]:
  "exec_line env ''M=D&M'' s =
     Some (s\<lparr>pc := pc s + 1, ram := (ram s)(addr (areg s) := dreg s AND ram s (addr (areg s)))\<rparr>)"
  by (simp add: exec_line_def startswith_def c_fields_def jump_taken_def)

lemma exec_M_eq_D_or_M [hack_exec]:
  "exec_line env ''M=D|M'' s =
     Some (s\<lparr>pc := pc s + 1, ram := (ram s)(addr (areg s) := dreg s OR ram s (addr (areg s)))\<rparr>)"
  by (simp add: exec_line_def startswith_def c_fields_def jump_taken_def)

lemma exec_M_eq_not_M [hack_exec]:
  "exec_line env ''M=!M'' s =
     Some (s\<lparr>pc := pc s + 1, ram := (ram s)(addr (areg s) := NOT (ram s (addr (areg s))))\<rparr>)"
  by (simp add: exec_line_def startswith_def c_fields_def jump_taken_def)

lemma exec_M_eq_M_plus_1 [hack_exec]:
  "exec_line env ''M=M+1'' s =
     Some (s\<lparr>pc := pc s + 1, ram := (ram s)(addr (areg s) := ram s (addr (areg s)) + 1)\<rparr>)"
  by (simp add: exec_line_def startswith_def c_fields_def jump_taken_def)

lemma exec_D_JNE [hack_exec]:
  "exec_line env ''D;JNE'' s =
     Some (s\<lparr>pc := (if dreg s \<noteq> 0 then unat (addr (areg s)) else pc s + 1)\<rparr>)"
  by (simp add: exec_line_def startswith_def c_fields_def jump_taken_def)

lemma exec_A_eq_D_plus_A [hack_exec]:
  "exec_line env ''A=D+A'' s =
     Some (s\<lparr>pc := pc s + 1, areg := dreg s + areg s\<rparr>)"
  by (simp add: exec_line_def startswith_def c_fields_def jump_taken_def)

lemma exec_M_eq_0 [hack_exec]:
  "exec_line env ''M=0'' s =
     Some (s\<lparr>pc := pc s + 1, ram := (ram s)(addr (areg s) := 0)\<rparr>)"
  by (simp add: exec_line_def startswith_def c_fields_def jump_taken_def)

lemma exec_D_eq_D_minus_A [hack_exec]:
  "exec_line env ''D=D-A'' s =
     Some (s\<lparr>pc := pc s + 1, dreg := dreg s - areg s\<rparr>)"
  by (simp add: exec_line_def startswith_def c_fields_def jump_taken_def)

lemma exec_A_eq_D_minus_A [hack_exec]:
  "exec_line env ''A=D-A'' s =
     Some (s\<lparr>pc := pc s + 1, areg := dreg s - areg s\<rparr>)"
  by (simp add: exec_line_def startswith_def c_fields_def jump_taken_def)

lemma exec_D_eq_A_plus_1 [hack_exec]:
  "exec_line env ''D=A+1'' s =
     Some (s\<lparr>pc := pc s + 1, dreg := areg s + 1\<rparr>)"
  by (simp add: exec_line_def startswith_def c_fields_def jump_taken_def)

lemma exec_D_eq_D_plus_M [hack_exec]:
  "exec_line env ''D=D+M'' s =
     Some (s\<lparr>pc := pc s + 1, dreg := dreg s + ram s (addr (areg s))\<rparr>)"
  by (simp add: exec_line_def startswith_def c_fields_def jump_taken_def)

lemma exec_A_eq_D_minus_M [hack_exec]:
  "exec_line env ''A=D-M'' s =
     Some (s\<lparr>pc := pc s + 1, areg := dreg s - ram s (addr (areg s))\<rparr>)"
  by (simp add: exec_line_def startswith_def c_fields_def jump_taken_def)

lemma exec_sym [hack_exec]:
  "\<not> is_digit c \<Longrightarrow> exec_line env (CHR ''@'' # c # x) s = Some (s\<lparr>pc := pc s + 1, areg := env (c # x)\<rparr>)"
  by (simp add: exec_at a_value_symbol not_number_Cons)

lemma exec_num [hack_exec]:
  "0 \<le> i \<Longrightarrow> i < 32768 \<Longrightarrow>
   exec_line env (CHR ''@'' # str_int i) s = Some (s\<lparr>pc := pc s + 1, areg := of_int i\<rparr>)"
  by (simp add: exec_at a_value_str_int)

lemma rom_at_Nil: "rom_at rom p []"
  by (simp add: rom_at_def)

lemma rom_at_Cons:
  "rom_at rom p (l # ls) \<longleftrightarrow> p < length rom \<and> rom ! p = l \<and> rom_at rom (Suc p) ls"
proof (cases "p < length rom")
  case True
  then have "drop p rom = rom ! p # drop (Suc p) rom"
    by (simp add: Cons_nth_drop_Suc)
  with True show ?thesis by (simp add: rom_at_def)
next
  case False
  then show ?thesis by (simp add: rom_at_def)
qed

lemma rom_at_append:
  "rom_at rom p (a @ b) \<longleftrightarrow> rom_at rom p a \<and> rom_at rom (p + length a) b"
  by (induction a arbitrary: p) (simp_all add: rom_at_Nil rom_at_Cons)

lemma run_add:
  "run env rom (m + n) s = (case run env rom m s of None \<Rightarrow> None | Some s' \<Rightarrow> run env rom n s')"
  by (induction m arbitrary: s) (simp_all split: option.splits)

lemma run_straight_length:
  "rom_at rom (pc s) code \<Longrightarrow> exec_straight env code s = Some s' \<Longrightarrow>
   run env rom (length code) s = Some s'"
proof (induction code arbitrary: s)
  case Nil
  then show ?case by simp
next
  case (Cons l ls)
  from Cons.prems(1) have here: "pc s < length rom" "rom ! pc s = l"
    and rest: "rom_at rom (Suc (pc s)) ls"
    by (simp_all add: rom_at_Cons)
  from Cons.prems(2) obtain t where t: "exec_line env l s = Some t"
    and cont: "ls = [] \<or> pc t = pc s + 1" and tail: "exec_straight env ls t = Some s'"
    by (auto split: option.splits if_splits)
  from cont rest have "rom_at rom (pc t) ls"
    by (auto simp: rom_at_Nil)
  then have "run env rom (length ls) t = Some s'"
    using tail by (rule Cons.IH)
  with here t show ?case by (simp add: step_def)
qed

lemma run_straight:
  "rom_at rom (pc s) code \<Longrightarrow> exec_straight env code s = Some s' \<Longrightarrow> length code = n \<Longrightarrow>
   run env rom n s = Some s'"
  by (drule (1) run_straight_length) simp

lemma get_ram_code_simps:
  "get_ram_code ''local'' = Inr ''LCL''" "get_ram_code ''argument'' = Inr ''ARG''"
  "get_ram_code ''this'' = Inr ''THIS''" "get_ram_code ''that'' = Inr ''THAT''"
  by (simp_all add: get_ram_code_def SEGMENTS_MAPPER_def)

lemma base_segment_cases:
  assumes "(seg, reg) \<in> set [(''argument'', ''ARG''), (''local'', ''LCL''),
                               (''this'', ''THIS''), (''that'', ''THAT'')]"
  obtains "seg = ''argument''" "reg = ''ARG''" | "seg = ''local''" "reg = ''LCL''"
    | "seg = ''this''" "reg = ''THIS''" | "seg = ''that''" "reg = ''THAT''"
  using assms by auto

lemma translate_segment_base:
  assumes "(seg, reg) \<in> set [(''argument'', ''ARG''), (''local'', ''LCL''),
                               (''this'', ''THIS''), (''that'', ''THAT'')]"
  shows "translate_segment_vm_code cw seg index =
           Inr ([''@'' @ reg] @ (if index = Some 0 then [''A=M'']
                                 else [''D=M'', ''@'' @ py_str_int index, ''A=D+A'']))"
  using assms
  by (rule base_segment_cases) (simp_all add: translate_segment_vm_code_def get_ram_code_simps)

lemma exec_reg:
  assumes "(seg, reg) \<in> set [(''argument'', ''ARG''), (''local'', ''LCL''),
                               (''this'', ''THIS''), (''that'', ''THAT'')]"
  shows "exec_line env (CHR ''@'' # reg) s = Some (s\<lparr>pc := pc s + 1, areg := env reg\<rparr>)"
  using assms
  by (rule base_segment_cases) (simp_all add: exec_sym is_digit_def)

lemma translate_push_base:
  assumes "(seg, reg) \<in> set [(''argument'', ''ARG''), (''local'', ''LCL''),
                               (''this'', ''THIS''), (''that'', ''THAT'')]"
  shows "translate_push_vm_code_to_asm cw seg index =
           Inr ([''@'' @ reg] @ (if index = Some 0 then [''A=M'']
                                 else [''D=M'', ''@'' @ py_str_int index, ''A=D+A'']) @
                [''D=M'', ''@SP'', ''AM=M+1'', ''A=A-1'', ''M=D''])"
  using assms
  by (rule base_segment_cases)
     (simp_all add: translate_push_vm_code_to_asm_def translate_segment_base)

lemma addr_0: "addr 0 = 0"
  by (simp add: addr_def)

lemma translate_pop_constant:
  "translate_pop_vm_code_to_asm cw ''constant'' index = Inl (InvalidSegment ''constant'')"
  by (simp add: translate_pop_vm_code_to_asm_def)

lemma translate_segment_pointer:
  "index \<noteq> Some 0 \<Longrightarrow> index \<noteq> Some 1 \<Longrightarrow>
   translate_segment_vm_code cw ''pointer'' index = Inl (InvalidOperand index)"
  by (simp add: translate_segment_vm_code_def)

lemma translate_push_pop_pointer:
  "index \<noteq> Some 0 \<Longrightarrow> index \<noteq> Some 1 \<Longrightarrow>
   translate_push_vm_code_to_asm cw ''pointer'' index = Inl (InvalidOperand index) \<and>
   translate_pop_vm_code_to_asm cw ''pointer'' index = Inl (InvalidOperand index)"
  by (simp add: translate_push_vm_code_to_asm_def translate_pop_vm_code_to_asm_def
        translate_segment_pointer)


lemma base_env_assemble: "base_env (assemble_env ls)"
  by (simp add: base_env_def assemble_env_def predefined_def)


lemma write_function_sets_function:
  assumes "write_function cw f n = (r, cw')"
  shows "current_function cw' = Some f"
proof -
  let ?cw = "cw\<lparr>current_function := Some f\<rparr>"
  from assms have "keeps_fn ?cw cw'"
    unfolding write_function_def
    by (rule and_then_keeps_fn)
       (auto simp: Let_def keeps_fn_refl log_keeps_snd [of ?cw, simplified]
             dest: write_out_keeps split: sum.splits)
  then show ?thesis by (simp add: keeps_fn_def)
qed


lemma rom_at_split:
  "rom_at rom p (a @ b) \<Longrightarrow> length a = k \<Longrightarrow> rom_at rom p a \<and> rom_at rom (p + k) b"
  by (auto simp: rom_at_append)

lemma compare_run:
  fixes P :: "16 word \<Rightarrow> bool"
  assumes jmp: "\<And>u. exec_line env j u =
                  Some (u\<lparr>pc := (if P (dreg u) then unat (addr (areg u)) else pc u + 1)\<rparr>)"
    and env: "base_env env"
    and rom: "rom_at rom (pc s)
                [''@SP'', ''AM=M-1'', ''D=M'', ''@SP'', ''AM=M-1'', ''D=M-D'', ''@TRUE_'' @ n, j,
                 ''D=0'', ''@END_'' @ n, ''0;JMP'', ''D=-1'',
                 ''@SP'', ''A=M'', ''M=D'', ''@SP'', ''M=M+1'']"
    and true_label: "unat (addr (env (''TRUE_'' @ n))) = pc s + 11"
    and end_label: "unat (addr (env (''END_'' @ n))) = pc s + 12"
    and top1: "addr (ram s 0 - 1) \<noteq> 0" and top2: "addr (ram s 0 - 2) \<noteq> 0"
  shows "run env rom (if P (ram s (addr (ram s 0 - 2)) - ram s (addr (ram s 0 - 1))) then 14 else 16) s =
           Some \<lparr>pc = pc s + 17, areg = 0,
                 dreg = (if P (ram s (addr (ram s 0 - 2)) - ram s (addr (ram s 0 - 1))) then - 1 else 0),
                 ram = (ram s)(0 := ram s 0 - 1,
                               addr (ram s 0 - 2) :=
                                 (if P (ram s (addr (ram s 0 - 2)) - ram s (addr (ram s 0 - 1)))
                                  then - 1 else 0))\<rparr>"
proof -
  let ?sp = "ram s 0"
  let ?d = "ram s (addr (?sp - 2)) - ram s (addr (?sp - 1))"
  let ?head = "[''@SP'', ''AM=M-1'', ''D=M'', ''@SP'', ''AM=M-1'', ''D=M-D'', ''@TRUE_'' @ n, j]"
  let ?false = "[''D=0'', ''@END_'' @ n, ''0;JMP'']"
  let ?true = "[''D=-1'']"
  let ?tail = "[''@SP'', ''A=M'', ''M=D'', ''@SP'', ''M=M+1'']"
  from env have sp: "env ''SP'' = 0" by (simp add: base_env_def)
  from rom have p0: "rom_at rom (pc s) (?head @ ?false @ ?true @ ?tail)" by simp
  have "rom_at rom (pc s) ?head \<and> rom_at rom (pc s + 8) (?false @ ?true @ ?tail)"
    by (rule rom_at_split [OF p0]) simp
  then have r_head: "rom_at rom (pc s) ?head"
    and p1: "rom_at rom (pc s + 8) (?false @ ?true @ ?tail)" by blast+
  have "rom_at rom (pc s + 8) ?false \<and> rom_at rom (pc s + 8 + 3) (?true @ ?tail)"
    by (rule rom_at_split [OF p1]) simp
  then have r_false: "rom_at rom (pc s + 8) ?false"
    and p2: "rom_at rom (pc s + 11) (?true @ ?tail)" by (simp_all add: ac_simps)
  have "rom_at rom (pc s + 11) ?true \<and> rom_at rom (pc s + 11 + 1) ?tail"
    by (rule rom_at_split [OF p2]) simp
  then have r_true: "rom_at rom (pc s + 11) ?true"
    and r_tail: "rom_at rom (pc s + 12) ?tail" by (simp_all add: ac_simps)
  let ?s8 = "\<lparr>pc = (if P ?d then pc s + 11 else pc s + 8), areg = env (''TRUE_'' @ n), dreg = ?d,
              ram = (ram s)(0 := ?sp - 2)\<rparr>"
  have "exec_straight env ?head s = Some ?s8"
    using top1 top2 true_label by (simp add: hack_exec is_digit_def sp addr_0 jmp)
  with r_head have run8: "run env rom 8 s = Some ?s8"
    by (rule run_straight) simp
  let ?final = "\<lambda>v. \<lparr>pc = pc s + 17, areg = 0, dreg = v,
                      ram = (ram s)(0 := ?sp - 1, addr (?sp - 2) := v)\<rparr>"
  have run_tail: "run env rom 5 \<lparr>pc = pc s + 12, areg = a, dreg = v, ram = (ram s)(0 := ?sp - 2)\<rparr> =
                    Some (?final v)" for a v
  proof (rule run_straight)
    show "rom_at rom (pc \<lparr>pc = pc s + 12, areg = a, dreg = v, ram = (ram s)(0 := ?sp - 2)\<rparr>) ?tail"
      using r_tail by simp
    show "exec_straight env ?tail \<lparr>pc = pc s + 12, areg = a, dreg = v, ram = (ram s)(0 := ?sp - 2)\<rparr> =
            Some (?final v)"
      using top2 by (simp add: hack_exec is_digit_def sp addr_0 fun_upd_twist)
  qed simp
  show ?thesis
  proof (cases "P ?d")
    case True
    have "run env rom 1 ?s8 =
            Some \<lparr>pc = pc s + 12, areg = env (''TRUE_'' @ n), dreg = - 1, ram = (ram s)(0 := ?sp - 2)\<rparr>"
    proof (rule run_straight)
      show "rom_at rom (pc ?s8) ?true" using r_true True by simp
      show "exec_straight env ?true ?s8 =
              Some \<lparr>pc = pc s + 12, areg = env (''TRUE_'' @ n), dreg = - 1, ram = (ram s)(0 := ?sp - 2)\<rparr>"
        using True by (simp add: hack_exec)
    qed simp
    with run8 run_tail [of "env (''TRUE_'' @ n)" "- 1"]
    have "run env rom (8 + (1 + 5)) s = Some (?final (- 1))"
      by (simp only: run_add option.case)
    with True show ?thesis by simp
  next
    case False
    have "run env rom 3 ?s8 =
            Some \<lparr>pc = pc s + 12, areg = env (''END_'' @ n), dreg = 0, ram = (ram s)(0 := ?sp - 2)\<rparr>"
    proof (rule run_straight)
      show "rom_at rom (pc ?s8) ?false" using r_false False by simp
      show "exec_straight env ?false ?s8 =
              Some \<lparr>pc = pc s + 12, areg = env (''END_'' @ n), dreg = 0, ram = (ram s)(0 := ?sp - 2)\<rparr>"
        using False end_label by (simp add: hack_exec is_digit_def)
    qed simp
    with run8 run_tail [of "env (''END_'' @ n)" 0]
    have "run env rom (8 + (3 + 5)) s = Some (?final 0)"
      by (simp only: run_add option.case)
    with False show ?thesis by simp
  qed
qed

lemma translate_comparison:
  assumes "c \<in> set [''eq'', ''gt'', ''lt'']"
  shows "translate_arithmetic_vm_code_to_assembly cw (Some c) =
           Inr ([''@SP'', ''AM=M-1'', ''D=M'', ''@SP'', ''AM=M-1'', ''D=M-D'',
                 ''@TRUE_'' @ str_int (arith_jump_counter cw),
                 (if c = ''eq'' then ''D;JEQ'' else if c = ''gt'' then ''D;JGT'' else ''D;JLT''),
                 ''D=0'', ''@END_'' @ str_int (arith_jump_counter cw), ''0;JMP'',
                 ''(TRUE_'' @ str_int (arith_jump_counter cw) @ '')'', ''D=-1'',
                 ''(END_'' @ str_int (arith_jump_counter cw) @ '')'',
                 ''@SP'', ''A=M'', ''M=D'', ''@SP'', ''M=M+1''],
                cw\<lparr>arith_jump_counter := arith_jump_counter cw + 1\<rparr>)"
proof -
  from assms consider "c = ''eq''" | "c = ''gt''" | "c = ''lt''" by auto
  then show ?thesis
    by cases (simp_all add: translate_arithmetic_vm_code_to_assembly_def Let_def)
qed


lemma comparison_run:
  assumes c: "c \<in> set [''eq'', ''gt'', ''lt'']"
    and env: "base_env env"
    and rom: "rom_at rom (pc s)
                (rom_of (arithmetic_lines (translate_arithmetic_vm_code_to_assembly cw (Some c))))"
    and true_label: "unat (addr (env (''TRUE_'' @ str_int (arith_jump_counter cw)))) = pc s + 11"
    and end_label: "unat (addr (env (''END_'' @ str_int (arith_jump_counter cw)))) = pc s + 12"
    and top1: "addr (ram s 0 - 1) \<noteq> 0" and top2: "addr (ram s 0 - 2) \<noteq> 0"
  shows "translate_arithmetic_vm_code_to_assembly cw (Some c) =
           Inr ([''@SP'', ''AM=M-1'', ''D=M'', ''@SP'', ''AM=M-1'', ''D=M-D'',
                 ''@TRUE_'' @ str_int (arith_jump_counter cw),
                 (if c = ''eq'' then ''D;JEQ'' else if c = ''gt'' then ''D;JGT'' else ''D;JLT''),
                 ''D=0'', ''@END_'' @ str_int (arith_jump_counter cw), ''0;JMP'',
                 ''(TRUE_'' @ str_int (arith_jump_counter cw) @ '')'', ''D=-1'',
                 ''(END_'' @ str_int (arith_jump_counter cw) @ '')'',
                 ''@SP'', ''A=M'', ''M=D'', ''@SP'', ''M=M+1''],
                cw\<lparr>arith_jump_counter := arith_jump_counter cw + 1\<rparr>) \<and>
         run env rom
           (if comparison_holds c (ram s (addr (ram s 0 - 2)) - ram s (addr (ram s 0 - 1)))
            then 14 else 16) s =
           Some \<lparr>pc = pc s + 17, areg = 0,
                 dreg = (if comparison_holds c
                              (ram s (addr (ram s 0 - 2)) - ram s (addr (ram s 0 - 1)))
                         then - 1 else 0),
                 ram = (ram s)(0 := ram s 0 - 1,
                               addr (ram s 0 - 2) :=
                                 (if comparison_holds c
                                       (ram s (addr (ram s 0 - 2)) - ram s (addr (ram s 0 - 1)))
                                  then - 1 else 0))\<rparr>"
proof -
  let ?n = "str_int (arith_jump_counter cw)"
  let ?j = "(if c = ''eq'' then ''D;JEQ'' else if c = ''gt'' then ''D;JGT'' else ''D;JLT'')"
  note tr = translate_comparison [OF c, of cw]
  have jmp: "exec_line env ?j u =
               Some (u\<lparr>pc := (if comparison_holds c (dreg u) then unat (addr (areg u))
                               else pc u + 1)\<rparr>)" for u
  proof -
    from c consider "c = ''eq''" | "c = ''gt''" | "c = ''lt''" by auto
    then show ?thesis
      by cases (simp_all add: comparison_holds_def hack_exec)
  qed
  have "rom_of (arithmetic_lines (translate_arithmetic_vm_code_to_assembly cw (Some c))) =
          rom_of [''@SP'', ''AM=M-1'', ''D=M'', ''@SP'', ''AM=M-1'', ''D=M-D'', ''@TRUE_'' @ ?n, ?j,
                  ''D=0'', ''@END_'' @ ?n, ''0;JMP'', ''(TRUE_'' @ ?n @ '')'', ''D=-1'',
                  ''(END_'' @ ?n @ '')'', ''@SP'', ''A=M'', ''M=D'', ''@SP'', ''M=M+1'']"
    unfolding tr arithmetic_lines_def by simp
  also have "\<dots> =
          [''@SP'', ''AM=M-1'', ''D=M'', ''@SP'', ''AM=M-1'', ''D=M-D'', ''@TRUE_'' @ ?n, ?j,
           ''D=0'', ''@END_'' @ ?n, ''0;JMP'', ''D=-1'', ''@SP'', ''A=M'', ''M=D'', ''@SP'', ''M=M+1'']"
  proof -
    from c consider "c = ''eq''" | "c = ''gt''" | "c = ''lt''" by auto
    then show ?thesis
      by cases (simp_all add: rom_of_def is_pseudo_def startswith_def)
  qed
  finally have "rom_of (arithmetic_lines (translate_arithmetic_vm_code_to_assembly cw (Some c))) =
          [''@SP'', ''AM=M-1'', ''D=M'', ''@SP'', ''AM=M-1'', ''D=M-D'', ''@TRUE_'' @ ?n, ?j,
           ''D=0'', ''@END_'' @ ?n, ''0;JMP'', ''D=-1'', ''@SP'', ''A=M'', ''M=D'', ''@SP'', ''M=M+1'']" .
  with rom have rom': "rom_at rom (pc s)
          [''@SP'', ''AM=M-1'', ''D=M'', ''@SP'', ''AM=M-1'', ''D=M-D'', ''@TRUE_'' @ ?n, ?j,
           ''D=0'', ''@END_'' @ ?n, ''0;JMP'', ''D=-1'', ''@SP'', ''A=M'', ''M=D'', ''@SP'', ''M=M+1'']"
    by simp
  from compare_run [where P = "comparison_holds c", OF jmp env rom' true_label end_label top1 top2] tr
  show ?thesis by blast
qed

lemma scenario_b_translated:
  "translate_files no_dirs [(''B.vm'', scenario_b)] ''B.vm'' =
     (None, Some \<lparr>in_filepath = ''B.vm'', out_filename = ''B.asm'',
                  write_file = scenario_b_output, closed = True,
                  current_filename = Some ''B'', current_function = None,
                  arith_jump_counter = 1, return_counter = 0, log_vm_commands = True\<rparr>)"
  by code_simp

lemma exec_literal_5:
  "exec_line env ''@5'' u = Some (u\<lparr>pc := pc u + 1, areg := 5\<rparr>)"
  by (simp add: exec_at a_value_def is_number_def is_digit_def nat_of_digits_def digit_val_def)

lemma scenario_b_run:
  assumes start: "pc s = 0" and sp0: "addr (ram s 0) \<noteq> 0" and sp1: "addr (ram s 0 + 1) \<noteq> 0"
  shows "\<exists>s'. run_program scenario_b_output 26 s = Some s' \<and> pc s' = 29 \<and>
              ram s' 0 = ram s 0 + 1 \<and> ram s' (addr (ram s 0)) = - 1"
proof -
  let ?env = "assemble_env scenario_b_output"
  let ?rom = "rom_of scenario_b_output"
  let ?pushes = "[''@5'', ''D=A'', ''@SP'', ''AM=M+1'', ''A=A-1'', ''M=D'',
                  ''@5'', ''D=A'', ''@SP'', ''AM=M+1'', ''A=A-1'', ''M=D'']"
  let ?eq = "[''@SP'', ''AM=M-1'', ''D=M'', ''@SP'', ''AM=M-1'', ''D=M-D'', ''@TRUE_'' @ ''0'',
              ''D;JEQ'', ''D=0'', ''@END_'' @ ''0'', ''0;JMP'', ''D=-1'',
              ''@SP'', ''A=M'', ''M=D'', ''@SP'', ''M=M+1'']"
  let ?s12 = "\<lparr>pc = pc s + 12, areg = ram s 0 + 1, dreg = 5,
               ram = (ram s)(addr (ram s 0) := 5, 0 := ram s 0 + 2, addr (ram s 0 + 1) := 5)\<rparr>"
  have rom: "?rom = ?pushes @ ?eq"
    by (simp add: rom_of_def scenario_b_output_def is_pseudo_def startswith_def)
  have env: "base_env ?env" by (rule base_env_assemble)
  then have sp: "?env ''SP'' = 0" by (simp add: base_env_def)
  have labels: "?env ''TRUE_0'' = 23" "?env ''END_0'' = 24"
    by (simp_all add: assemble_env_def predefined_def scenario_b_output_def is_pseudo_def
          startswith_def)
  have r0: "rom_at ?rom (pc s) (?pushes @ ?eq)"
    unfolding rom start by (simp add: rom_at_def)
  have "rom_at ?rom (pc s) ?pushes \<and> rom_at ?rom (pc s + 12) ?eq"
    by (rule rom_at_split [OF r0]) simp
  then have r_push: "rom_at ?rom (pc s) ?pushes" and r_eq: "rom_at ?rom (pc ?s12) ?eq"
    by simp_all
  have "exec_straight ?env ?pushes s = Some ?s12"
    using sp0 sp1 by (simp add: hack_exec exec_literal_5 is_digit_def sp addr_0 add.commute)
  with r_push have run12: "run ?env ?rom 12 s = Some ?s12"
    by (rule run_straight) simp
  have jmp: "exec_line ?env ''D;JEQ'' u =
               Some (u\<lparr>pc := (if dreg u = 0 then unat (addr (areg u)) else pc u + 1)\<rparr>)" for u
    by (simp add: hack_exec)
  have tl: "unat (addr (?env (''TRUE_'' @ ''0''))) = pc ?s12 + 11"
    by (simp add: labels addr_def start)
  have el: "unat (addr (?env (''END_'' @ ''0''))) = pc ?s12 + 12"
    by (simp add: labels addr_def start)
  have t1: "addr (ram ?s12 0 - 1) \<noteq> 0" using sp0 sp1 by (simp add: add.commute)
  have t2: "addr (ram ?s12 0 - 2) \<noteq> 0" using sp0 sp1 by (simp add: add.commute)
  note cmp = compare_run [where P = "\<lambda>d. d = 0", OF jmp env r_eq tl el t1 t2]
  have run14: "run ?env ?rom 14 ?s12 =
                 Some \<lparr>pc = 29, areg = 0, dreg = - 1,
                       ram = (ram ?s12)(0 := ram s 0 + 1, addr (ram s 0) := - 1)\<rparr>"
    using sp0 sp1 cmp by (simp add: start add.commute cong: if_cong)
  from run12 run14
  have "run ?env ?rom (12 + 14) s =
          Some \<lparr>pc = 29, areg = 0, dreg = - 1,
                ram = (ram ?s12)(0 := ram s 0 + 1, addr (ram s 0) := - 1)\<rparr>"
    by (simp only: run_add option.case)
  then show ?thesis
    using sp0 by (simp add: run_program_def)
qed

lemma addr_wi: "addr (word_of_int x) = word_of_int x"
  unfolding addr_def by (rule ucast_down_wi) (simp add: is_down)

lemma addr_add: "addr (a + b) = addr a + addr b"
proof -
  have "addr (a + b) = addr (word_of_int (uint a + uint b))"
    by (simp only: word_add_def [symmetric])
  also have "\<dots> = word_of_int (uint a + uint b)"
    by (rule addr_wi)
  also have "\<dots> = addr a + addr b"
    by (simp only: addr_def ucast_eq wi_hom_add)
  finally show ?thesis .
qed

lemma addr_diff: "addr (a - b) = addr a - addr b"
proof -
  have "addr (a - b) = addr (word_of_int (uint a - uint b))"
    by (simp only: word_sub_wi [symmetric])
  also have "\<dots> = word_of_int (uint a - uint b)"
    by (rule addr_wi)
  also have "\<dots> = addr a - addr b"
    by (simp only: addr_def ucast_eq wi_hom_sub)
  finally show ?thesis .
qed

lemma addr_numeral: "addr (numeral n) = numeral n"
  unfolding addr_def by (rule ucast_down_no) (simp add: is_down)

lemma addr_1: "addr 1 = 1"
  by (simp add: addr_def)

lemmas addr_simps = addr_0 addr_1 addr_numeral addr_add addr_diff

lemma run_straight_ex:
  assumes "rom_at rom (pc s) code" and "\<exists>s'. exec_straight env code s = Some s' \<and> P s'"
    and "length code = n"
  shows "\<exists>s'. run env rom n s = Some s' \<and> P s'"
  using assms run_straight by blast

subsection \<open>Executing the lines of call and return\<close>

lemma translate_push_skip:
  "translate_push_vm_code_to_asm cw ''skip'' index = Inr [''@SP'', ''AM=M+1'', ''A=A-1'', ''M=D'']"
  by (simp add: translate_push_vm_code_to_asm_def)

lemma call_commands_lines:
  "call_commands cw lab f (Some n) =
     Inr [''@'' @ lab, ''D=A'', ''@SP'', ''AM=M+1'', ''A=A-1'', ''M=D'',
          ''@LCL'', ''D=M'', ''@SP'', ''AM=M+1'', ''A=A-1'', ''M=D'',
          ''@ARG'', ''D=M'', ''@SP'', ''AM=M+1'', ''A=A-1'', ''M=D'',
          ''@THIS'', ''D=M'', ''@SP'', ''AM=M+1'', ''A=A-1'', ''M=D'',
          ''@THAT'', ''D=M'', ''@SP'', ''AM=M+1'', ''A=A-1'', ''M=D'',
          ''@SP'', ''D=M'', ''@'' @ str_int (n + 5), ''D=D-A'', ''@ARG'', ''M=D'',
          ''@SP'', ''D=M'', ''@LCL'', ''M=D'',
          ''@'' @ f, ''0;JMP'',
          ''('' @ lab @ '')'']"
  by (simp add: call_commands_def translate_push_skip get_ram_code_simps)

lemma write_call_open:
  "\<not> closed cw \<Longrightarrow>
   write_call cw f (Some n) =
     (None, cw\<lparr>write_file := write_file cw @
                   (if log_vm_commands cw then [''//  call '' @ f @ '' '' @ str_int n] else []) @
                   emitted (call_commands cw (''RETURN_'' @ str_int (return_counter cw)) f (Some n)),
                 return_counter := return_counter cw + 1\<rparr>)"
  by (simp add: write_call_def write_out_def call_commands_lines emitted_def Let_def)


lemma exec_straight_append:
  "exec_straight env a s = Some s' \<Longrightarrow> pc s' = pc s + length a \<Longrightarrow> b \<noteq> [] \<Longrightarrow>
   exec_straight env (a @ b) s = exec_straight env b s'"
proof (induction a arbitrary: s)
  case Nil
  then show ?case by simp
next
  case (Cons l ls)
  from Cons.prems(1) obtain u where u: "exec_line env l s = Some u"
    by (auto split: option.splits)
  show ?case
  proof (cases "ls = []")
    case True
    with Cons.prems u show ?thesis by simp
  next
    case False
    with Cons.prems(1) u have step: "pc u = pc s + 1" and rest: "exec_straight env ls u = Some s'"
      by (auto split: if_splits)
    from Cons.prems(2) step have "pc s' = pc u + length ls" by simp
    from Cons.IH [OF rest this Cons.prems(3)] u step show ?thesis by simp
  qed
qed

lemma push_value_run:
  assumes l: "\<And>u. exec_line env l u = Some (u\<lparr>pc := pc u + 1, areg := a\<rparr>)"
    and env: "base_env env"
  shows "exec_straight env [l, ''D=A'', ''@SP'', ''AM=M+1'', ''A=A-1'', ''M=D''] u =
           Some (u\<lparr>pc := pc u + 6, areg := ram u 0, dreg := a,
                   ram := (ram u)(0 := ram u 0 + 1, addr (ram u 0) := a)\<rparr>)"
proof -
  from env have regs: "env ''SP'' = 0" by (simp add: base_env_def)
  show ?thesis
    by (simp add: hack_exec is_digit_def regs l addr_0)
qed

lemma push_cell_run:
  assumes l: "\<And>u. exec_line env l u = Some (u\<lparr>pc := pc u + 1, areg := a\<rparr>)"
    and env: "base_env env"
  shows "exec_straight env [l, ''D=M'', ''@SP'', ''AM=M+1'', ''A=A-1'', ''M=D''] u =
           Some (u\<lparr>pc := pc u + 6, areg := ram u 0, dreg := ram u (addr a),
                   ram := (ram u)(0 := ram u 0 + 1, addr (ram u 0) := ram u (addr a))\<rparr>)"
proof -
  from env have regs: "env ''SP'' = 0" by (simp add: base_env_def)
  show ?thesis
    by (simp add: hack_exec is_digit_def regs l addr_0)
qed

lemma call_tail_run:
  assumes env: "base_env env"
    and k: "\<And>u. exec_line env kl u = Some (u\<lparr>pc := pc u + 1, areg := k\<rparr>)"
    and f: "\<And>u. exec_line env fl u = Some (u\<lparr>pc := pc u + 1, areg := fa\<rparr>)"
  shows "exec_straight env [''@SP'', ''D=M'', kl, ''D=D-A'', ''@ARG'', ''M=D'',
            ''@SP'', ''D=M'', ''@LCL'', ''M=D'', fl, ''0;JMP''] u =
           Some (u\<lparr>pc := unat (addr fa), areg := fa, dreg := ram u 0,
                   ram := (ram u)(2 := ram u 0 - k, 1 := ram u 0)\<rparr>)"
proof -
  from env have regs: "env ''SP'' = 0" "env ''LCL'' = 1" "env ''ARG'' = 2"
    by (simp_all add: base_env_def)
  show ?thesis
    by (simp add: hack_exec is_digit_def regs k f addr_0 addr_1 addr_numeral)
qed

lemma call_run:
  assumes env: "base_env env"
    and n: "0 \<le> n" "n + 5 < 32768"
    and lab: "\<not> is_number lab"
    and target: "a_value env f = Some fa"
    and rom: "rom_at rom (pc s) (rom_of (emitted (call_commands cw lab f (Some n))))"
    and stack: "set [addr (ram s 0), addr (ram s 0 + 1), addr (ram s 0 + 2), addr (ram s 0 + 3),
                     addr (ram s 0 + 4)] \<inter> set [0, 1, 2, 3, 4] = {}"
  shows "\<exists>s'. run env rom 42 s = Some s' \<and> pc s' = unat (addr fa) \<and>
           ram s' (addr (ram s 0)) = env lab \<and>
           ram s' (addr (ram s 0 + 1)) = ram s 1 \<and>
           ram s' (addr (ram s 0 + 2)) = ram s 2 \<and>
           ram s' (addr (ram s 0 + 3)) = ram s 3 \<and>
           ram s' (addr (ram s 0 + 4)) = ram s 4 \<and>
           ram s' 0 = ram s 0 + 5 \<and>
           ram s' 2 = ram s' 0 - of_int n - 5 \<and>
           ram s' 1 = ram s' 0 \<and>
           ram s' 3 = ram s 3 \<and> ram s' 4 = ram s 4"
proof -
  let ?c1 = "[''@'' @ lab, ''D=A'', ''@SP'', ''AM=M+1'', ''A=A-1'', ''M=D'']"
  let ?c2 = "[''@LCL'', ''D=M'', ''@SP'', ''AM=M+1'', ''A=A-1'', ''M=D'']"
  let ?c3 = "[''@ARG'', ''D=M'', ''@SP'', ''AM=M+1'', ''A=A-1'', ''M=D'']"
  let ?c4 = "[''@THIS'', ''D=M'', ''@SP'', ''AM=M+1'', ''A=A-1'', ''M=D'']"
  let ?c5 = "[''@THAT'', ''D=M'', ''@SP'', ''AM=M+1'', ''A=A-1'', ''M=D'']"
  let ?c6 = "[''@SP'', ''D=M'', ''@'' @ str_int (n + 5), ''D=D-A'', ''@ARG'', ''M=D'',
          ''@SP'', ''D=M'', ''@LCL'', ''M=D'', ''@'' @ f, ''0;JMP'']"
  let ?code = "?c1 @ ?c2 @ ?c3 @ ?c4 @ ?c5 @ ?c6"
  from env have regs: "env ''SP'' = 0" "env ''LCL'' = 1" "env ''ARG'' = 2" "env ''THIS'' = 3"
      "env ''THAT'' = 4"
    by (simp_all add: base_env_def)
  have labx: "exec_line env (''@'' @ lab) u = Some (u\<lparr>pc := pc u + 1, areg := env lab\<rparr>)" for u
    by (simp add: exec_at a_value_symbol lab)
  have fx: "exec_line env (''@'' @ f) u = Some (u\<lparr>pc := pc u + 1, areg := fa\<rparr>)" for u
    by (simp add: exec_at target)
  have nx: "exec_line env (''@'' @ str_int (n + 5)) u =
              Some (u\<lparr>pc := pc u + 1, areg := of_int (n + 5)\<rparr>)" for u
    using n by (simp add: exec_num)
  have regx: "exec_line env ''@LCL'' u = Some (u\<lparr>pc := pc u + 1, areg := 1\<rparr>)"
      "exec_line env ''@ARG'' u = Some (u\<lparr>pc := pc u + 1, areg := 2\<rparr>)"
      "exec_line env ''@THIS'' u = Some (u\<lparr>pc := pc u + 1, areg := 3\<rparr>)"
      "exec_line env ''@THAT'' u = Some (u\<lparr>pc := pc u + 1, areg := 4\<rparr>)" for u
    by (simp_all add: exec_sym is_digit_def regs)
  have "rom_of (emitted (call_commands cw lab f (Some n))) = ?code"
    by (simp add: call_commands_lines emitted_def rom_of_def is_pseudo_def startswith_def)
  with rom have rom': "rom_at rom (pc s) ?code" by simp
  have regs_free:
    "addr (ram s 0) \<noteq> 0" "addr (ram s 0) \<noteq> 1" "addr (ram s 0) \<noteq> 2"
    "addr (ram s 0) \<noteq> 3" "addr (ram s 0) \<noteq> 4" "addr (ram s 0 + 1) \<noteq> 0"
    "addr (ram s 0 + 1) \<noteq> 1" "addr (ram s 0 + 1) \<noteq> 2" "addr (ram s 0 + 1) \<noteq> 3"
    "addr (ram s 0 + 1) \<noteq> 4" "addr (ram s 0 + 2) \<noteq> 0" "addr (ram s 0 + 2) \<noteq> 1"
    "addr (ram s 0 + 2) \<noteq> 2" "addr (ram s 0 + 2) \<noteq> 3" "addr (ram s 0 + 2) \<noteq> 4"
    "addr (ram s 0 + 3) \<noteq> 0" "addr (ram s 0 + 3) \<noteq> 1" "addr (ram s 0 + 3) \<noteq> 2"
    "addr (ram s 0 + 3) \<noteq> 3" "addr (ram s 0 + 3) \<noteq> 4" "addr (ram s 0 + 4) \<noteq> 0"
    "addr (ram s 0 + 4) \<noteq> 1" "addr (ram s 0 + 4) \<noteq> 2" "addr (ram s 0 + 4) \<noteq> 3"
    "addr (ram s 0 + 4) \<noteq> 4"
    using stack by auto
  have cells:
    "addr (ram s 0) \<noteq> addr (ram s 0 + 1)" "addr (ram s 0) \<noteq> addr (ram s 0 + 2)"
    "addr (ram s 0) \<noteq> addr (ram s 0 + 3)" "addr (ram s 0) \<noteq> addr (ram s 0 + 4)"
    "addr (ram s 0 + 1) \<noteq> addr (ram s 0 + 2)" "addr (ram s 0 + 1) \<noteq> addr (ram s 0 + 3)"
    "addr (ram s 0 + 1) \<noteq> addr (ram s 0 + 4)" "addr (ram s 0 + 2) \<noteq> addr (ram s 0 + 3)"
    "addr (ram s 0 + 2) \<noteq> addr (ram s 0 + 4)" "addr (ram s 0 + 3) \<noteq> addr (ram s 0 + 4)"
    by (simp_all add: addr_simps)
  define s1 where "s1 = s\<lparr>pc := pc s + 6, areg := ram s 0, dreg := env lab,
                   ram := (ram s)(0 := ram s 0 + 1, addr (ram s 0) := env lab)\<rparr>"
  define s2 where "s2 = s1\<lparr>pc := pc s1 + 6, areg := ram s1 0, dreg := ram s1 (addr 1),
                   ram := (ram s1)(0 := ram s1 0 + 1, addr (ram s1 0) := ram s1 (addr 1))\<rparr>"
  define s3 where "s3 = s2\<lparr>pc := pc s2 + 6, areg := ram s2 0, dreg := ram s2 (addr 2),
                   ram := (ram s2)(0 := ram s2 0 + 1, addr (ram s2 0) := ram s2 (addr 2))\<rparr>"
  define s4 where "s4 = s3\<lparr>pc := pc s3 + 6, areg := ram s3 0, dreg := ram s3 (addr 3),
                   ram := (ram s3)(0 := ram s3 0 + 1, addr (ram s3 0) := ram s3 (addr 3))\<rparr>"
  define s5 where "s5 = s4\<lparr>pc := pc s4 + 6, areg := ram s4 0, dreg := ram s4 (addr 4),
                   ram := (ram s4)(0 := ram s4 0 + 1, addr (ram s4 0) := ram s4 (addr 4))\<rparr>"
  define s6 where "s6 = s5\<lparr>pc := unat (addr fa), areg := fa, dreg := ram s5 0,
                   ram := (ram s5)(2 := ram s5 0 - of_int (n + 5), 1 := ram s5 0)\<rparr>"
  have e1: "exec_straight env ?c1 s = Some s1"
    unfolding s1_def by (rule push_value_run [OF labx env])
  have e2: "exec_straight env ?c2 s1 = Some s2"
    unfolding s2_def by (rule push_cell_run [OF regx(1) env])
  have e3: "exec_straight env ?c3 s2 = Some s3"
    unfolding s3_def by (rule push_cell_run [OF regx(2) env])
  have e4: "exec_straight env ?c4 s3 = Some s4"
    unfolding s4_def by (rule push_cell_run [OF regx(3) env])
  have e5: "exec_straight env ?c5 s4 = Some s5"
    unfolding s5_def by (rule push_cell_run [OF regx(4) env])
  have e6: "exec_straight env ?c6 s5 = Some s6"
    unfolding s6_def by (rule call_tail_run [OF env nx fx])
  have "exec_straight env ?code s = exec_straight env (?c2 @ ?c3 @ ?c4 @ ?c5 @ ?c6) s1"
    by (rule exec_straight_append [OF e1]) (simp_all add: s1_def)
  also have "\<dots> = exec_straight env (?c3 @ ?c4 @ ?c5 @ ?c6) s2"
    by (rule exec_straight_append [OF e2]) (simp_all add: s2_def)
  also have "\<dots> = exec_straight env (?c4 @ ?c5 @ ?c6) s3"
    by (rule exec_straight_append [OF e3]) (simp_all add: s3_def)
  also have "\<dots> = exec_straight env (?c5 @ ?c6) s4"
    by (rule exec_straight_append [OF e4]) (simp_all add: s4_def)
  also have "\<dots> = exec_straight env ?c6 s5"
    by (rule exec_straight_append [OF e5]) (simp_all add: s5_def)
  finally have whole: "exec_straight env ?code s = Some s6"
    using e6 by simp
  have r1: "ram s1 0 = ram s 0 + 1" "ram s1 1 = ram s 1" "ram s1 2 = ram s 2"
      "ram s1 3 = ram s 3" "ram s1 4 = ram s 4" "ram s1 (addr (ram s 0)) = env lab"
    by (simp_all add: s1_def regs_free regs_free [symmetric])
  have r2: "ram s2 0 = ram s 0 + 2" "ram s2 1 = ram s 1" "ram s2 2 = ram s 2"
      "ram s2 3 = ram s 3" "ram s2 4 = ram s 4" "ram s2 (addr (ram s 0)) = env lab"
      "ram s2 (addr (ram s 0 + 1)) = ram s 1"
    by (simp_all add: s2_def r1 addr_1 addr_numeral regs_free regs_free [symmetric]
          cells cells [symmetric])
  have r3: "ram s3 0 = ram s 0 + 3" "ram s3 1 = ram s 1" "ram s3 2 = ram s 2"
      "ram s3 3 = ram s 3" "ram s3 4 = ram s 4" "ram s3 (addr (ram s 0)) = env lab"
      "ram s3 (addr (ram s 0 + 1)) = ram s 1" "ram s3 (addr (ram s 0 + 2)) = ram s 2"
    by (simp_all add: s3_def r2 addr_1 addr_numeral regs_free regs_free [symmetric]
          cells cells [symmetric])
  have r4: "ram s4 0 = ram s 0 + 4" "ram s4 1 = ram s 1" "ram s4 2 = ram s 2"
      "ram s4 3 = ram s 3" "ram s4 4 = ram s 4" "ram s4 (addr (ram s 0)) = env lab"
      "ram s4 (addr (ram s 0 + 1)) = ram s 1" "ram s4 (addr (ram s 0 + 2)) = ram s 2"
      "ram s4 (addr (ram s 0 + 3)) = ram s 3"
    by (simp_all add: s4_def r3 addr_1 addr_numeral regs_free regs_free [symmetric]
          cells cells [symmetric])
  have r5: "ram s5 0 = ram s 0 + 5" "ram s5 1 = ram s 1" "ram s5 2 = ram s 2"
      "ram s5 3 = ram s 3" "ram s5 4 = ram s 4" "ram s5 (addr (ram s 0)) = env lab"
      "ram s5 (addr (ram s 0 + 1)) = ram s 1" "ram s5 (addr (ram s 0 + 2)) = ram s 2"
      "ram s5 (addr (ram s 0 + 3)) = ram s 3" "ram s5 (addr (ram s 0 + 4)) = ram s 4"
    by (simp_all add: s5_def r4 addr_1 addr_numeral regs_free regs_free [symmetric]
          cells cells [symmetric])
  have r6: "pc s6 = unat (addr fa)"
      "ram s6 (addr (ram s 0)) = env lab"
      "ram s6 (addr (ram s 0 + 1)) = ram s 1" "ram s6 (addr (ram s 0 + 2)) = ram s 2"
      "ram s6 (addr (ram s 0 + 3)) = ram s 3" "ram s6 (addr (ram s 0 + 4)) = ram s 4"
      "ram s6 0 = ram s 0 + 5" "ram s6 2 = ram s6 0 - of_int n - 5" "ram s6 1 = ram s6 0"
      "ram s6 3 = ram s 3" "ram s6 4 = ram s 4"
    by (simp_all add: s6_def r5 regs_free)
  show ?thesis
    using rom'
  proof (rule run_straight_ex)
    show "length ?code = 42" by simp
    show "\<exists>s'. exec_straight env ?code s = Some s' \<and> pc s' = unat (addr fa) \<and>
           ram s' (addr (ram s 0)) = env lab \<and>
           ram s' (addr (ram s 0 + 1)) = ram s 1 \<and>
           ram s' (addr (ram s 0 + 2)) = ram s 2 \<and>
           ram s' (addr (ram s 0 + 3)) = ram s 3 \<and>
           ram s' (addr (ram s 0 + 4)) = ram s 4 \<and>
           ram s' 0 = ram s 0 + 5 \<and>
           ram s' 2 = ram s' 0 - of_int n - 5 \<and>
           ram s' 1 = ram s' 0 \<and>
           ram s' 3 = ram s 3 \<and> ram s' 4 = ram s 4"
      using whole r6 by blast
  qed
qed

lemma return_commands_lines:
  "return_commands =
     Inr [''@LCL'', ''D=M'', ''@frame'', ''M=D'',
          ''@5'', ''A=D-A'', ''D=M'', ''@return'', ''M=D'',
          ''@SP'', ''AM=M-1'', ''D=M'', ''@ARG'', ''A=M'', ''M=D'',
          ''D=A+1'', ''@SP'', ''M=D'',
          ''@frame'', ''D=M'', ''@1'', ''A=D-A'', ''D=M'', ''@THAT'', ''M=D'',
          ''@frame'', ''D=M'', ''@2'', ''A=D-A'', ''D=M'', ''@THIS'', ''M=D'',
          ''@frame'', ''D=M'', ''@3'', ''A=D-A'', ''D=M'', ''@ARG'', ''M=D'',
          ''@frame'', ''D=M'', ''@4'', ''A=D-A'', ''D=M'', ''@LCL'', ''M=D'',
          ''@return'', ''A=M'', ''0;JMP'']"
  by (simp add: return_commands_def get_ram_code_simps)

lemma exec_literals:
  "exec_line env ''@1'' u = Some (u\<lparr>pc := pc u + 1, areg := 1\<rparr>)"
  "exec_line env ''@2'' u = Some (u\<lparr>pc := pc u + 1, areg := 2\<rparr>)"
  "exec_line env ''@3'' u = Some (u\<lparr>pc := pc u + 1, areg := 3\<rparr>)"
  "exec_line env ''@4'' u = Some (u\<lparr>pc := pc u + 1, areg := 4\<rparr>)"
  "exec_line env ''@256'' u = Some (u\<lparr>pc := pc u + 1, areg := 256\<rparr>)"
  by (simp_all add: exec_at a_value_def is_number_def is_digit_def nat_of_digits_def digit_val_def)

lemma return_run:
  assumes env: "base_env env"
    and rom: "rom_at rom (pc s) (emitted return_commands)"
    and temps: "distinct [addr (env ''frame''), addr (env ''return''), 0, 1, 2, 3, 4]"
    and frame: "set [addr (ram s 1 - 1), addr (ram s 1 - 2), addr (ram s 1 - 3), addr (ram s 1 - 4)]
                  \<inter> set [addr (env ''frame''), addr (env ''return''), 0, 1, 2, 3, 4] = {}"
    and ret: "addr (ram s 1 - 5) \<noteq> addr (env ''frame'')"
    and top: "addr (ram s 0 - 1) \<notin> set [addr (env ''frame''), addr (env ''return''), 0]"
    and arg: "addr (ram s 2) \<notin> set [addr (env ''frame''), addr (env ''return''), 0, 1, 2, 3, 4,
                 addr (ram s 1 - 1), addr (ram s 1 - 2), addr (ram s 1 - 3), addr (ram s 1 - 4)]"
  shows "\<exists>s'. run env rom 49 s = Some s' \<and>
           pc s' = unat (addr (ram s (addr (ram s 1 - 5)))) \<and>
           ram s' (addr (ram s 2)) = ram s (addr (ram s 0 - 1)) \<and>
           ram s' 0 = ram s 2 + 1 \<and>
           ram s' 4 = ram s (addr (ram s 1 - 1)) \<and>
           ram s' 3 = ram s (addr (ram s 1 - 2)) \<and>
           ram s' 2 = ram s (addr (ram s 1 - 3)) \<and>
           ram s' 1 = ram s (addr (ram s 1 - 4)) \<and>
           ram s' (addr (env ''frame'')) = ram s 1 \<and>
           ram s' (addr (env ''return'')) = ram s (addr (ram s 1 - 5))"
proof -
  from env have regs: "env ''SP'' = 0" "env ''LCL'' = 1" "env ''ARG'' = 2" "env ''THIS'' = 3"
      "env ''THAT'' = 4"
    by (simp_all add: base_env_def)
  from rom have rom': "rom_at rom (pc s)
         [''@LCL'', ''D=M'', ''@frame'', ''M=D'',
          ''@5'', ''A=D-A'', ''D=M'', ''@return'', ''M=D'',
          ''@SP'', ''AM=M-1'', ''D=M'', ''@ARG'', ''A=M'', ''M=D'',
          ''D=A+1'', ''@SP'', ''M=D'',
          ''@frame'', ''D=M'', ''@1'', ''A=D-A'', ''D=M'', ''@THAT'', ''M=D'',
          ''@frame'', ''D=M'', ''@2'', ''A=D-A'', ''D=M'', ''@THIS'', ''M=D'',
          ''@frame'', ''D=M'', ''@3'', ''A=D-A'', ''D=M'', ''@ARG'', ''M=D'',
          ''@frame'', ''D=M'', ''@4'', ''A=D-A'', ''D=M'', ''@LCL'', ''M=D'',
          ''@return'', ''A=M'', ''0;JMP'']"
    by (simp add: return_commands_lines emitted_def)
  have facts: "addr (env ''frame'') \<noteq> addr (env ''return'')"
    "addr (env ''frame'') \<noteq> 0" "addr (env ''frame'') \<noteq> 1" "addr (env ''frame'') \<noteq> 2"
    "addr (env ''frame'') \<noteq> 3" "addr (env ''frame'') \<noteq> 4"
    "addr (env ''return'') \<noteq> 0" "addr (env ''return'') \<noteq> 1" "addr (env ''return'') \<noteq> 2"
    "addr (env ''return'') \<noteq> 3" "addr (env ''return'') \<noteq> 4"
    "addr (ram s 1 - 1) \<noteq> addr (env ''frame'')" "addr (ram s 1 - 1) \<noteq> addr (env ''return'')"
    "addr (ram s 1 - 1) \<noteq> 0" "addr (ram s 1 - 1) \<noteq> 1" "addr (ram s 1 - 1) \<noteq> 2"
    "addr (ram s 1 - 1) \<noteq> 3" "addr (ram s 1 - 1) \<noteq> 4"
    "addr (ram s 1 - 2) \<noteq> addr (env ''frame'')" "addr (ram s 1 - 2) \<noteq> addr (env ''return'')"
    "addr (ram s 1 - 2) \<noteq> 0" "addr (ram s 1 - 2) \<noteq> 1" "addr (ram s 1 - 2) \<noteq> 2"
    "addr (ram s 1 - 2) \<noteq> 3" "addr (ram s 1 - 2) \<noteq> 4"
    "addr (ram s 1 - 3) \<noteq> addr (env ''frame'')" "addr (ram s 1 - 3) \<noteq> addr (env ''return'')"
    "addr (ram s 1 - 3) \<noteq> 0" "addr (ram s 1 - 3) \<noteq> 1" "addr (ram s 1 - 3) \<noteq> 2"
    "addr (ram s 1 - 3) \<noteq> 3" "addr (ram s 1 - 3) \<noteq> 4"
    "addr (ram s 1 - 4) \<noteq> addr (env ''frame'')" "addr (ram s 1 - 4) \<noteq> addr (env ''return'')"
    "addr (ram s 1 - 4) \<noteq> 0" "addr (ram s 1 - 4) \<noteq> 1" "addr (ram s 1 - 4) \<noteq> 2"
    "addr (ram s 1 - 4) \<noteq> 3" "addr (ram s 1 - 4) \<noteq> 4"
    "addr (ram s 1 - 5) \<noteq> addr (env ''frame'')"
    "addr (ram s 0 - 1) \<noteq> addr (env ''frame'')" "addr (ram s 0 - 1) \<noteq> addr (env ''return'')"
    "addr (ram s 0 - 1) \<noteq> 0"
    "addr (ram s 2) \<noteq> addr (env ''frame'')" "addr (ram s 2) \<noteq> addr (env ''return'')"
    "addr (ram s 2) \<noteq> 0" "addr (ram s 2) \<noteq> 1" "addr (ram s 2) \<noteq> 2"
    "addr (ram s 2) \<noteq> 3" "addr (ram s 2) \<noteq> 4"
    "addr (ram s 2) \<noteq> addr (ram s 1 - 1)" "addr (ram s 2) \<noteq> addr (ram s 1 - 2)"
    "addr (ram s 2) \<noteq> addr (ram s 1 - 3)" "addr (ram s 2) \<noteq> addr (ram s 1 - 4)"
    using temps frame ret top arg by auto
  show ?thesis
    using rom'
  proof (rule run_straight_ex)
    show "\<exists>s'. exec_straight env
         [''@LCL'', ''D=M'', ''@frame'', ''M=D'',
          ''@5'', ''A=D-A'', ''D=M'', ''@return'', ''M=D'',
          ''@SP'', ''AM=M-1'', ''D=M'', ''@ARG'', ''A=M'', ''M=D'',
          ''D=A+1'', ''@SP'', ''M=D'',
          ''@frame'', ''D=M'', ''@1'', ''A=D-A'', ''D=M'', ''@THAT'', ''M=D'',
          ''@frame'', ''D=M'', ''@2'', ''A=D-A'', ''D=M'', ''@THIS'', ''M=D'',
          ''@frame'', ''D=M'', ''@3'', ''A=D-A'', ''D=M'', ''@ARG'', ''M=D'',
          ''@frame'', ''D=M'', ''@4'', ''A=D-A'', ''D=M'', ''@LCL'', ''M=D'',
          ''@return'', ''A=M'', ''0;JMP''] s = Some s' \<and>
           pc s' = unat (addr (ram s (addr (ram s 1 - 5)))) \<and>
           ram s' (addr (ram s 2)) = ram s (addr (ram s 0 - 1)) \<and>
           ram s' 0 = ram s 2 + 1 \<and>
           ram s' 4 = ram s (addr (ram s 1 - 1)) \<and>
           ram s' 3 = ram s (addr (ram s 1 - 2)) \<and>
           ram s' 2 = ram s (addr (ram s 1 - 3)) \<and>
           ram s' 1 = ram s (addr (ram s 1 - 4)) \<and>
           ram s' (addr (env ''frame'')) = ram s 1 \<and>
           ram s' (addr (env ''return'')) = ram s (addr (ram s 1 - 5))"
      by (simp add: hack_exec exec_literals exec_literal_5 is_digit_def regs addr_0 addr_1
            addr_numeral facts facts [symmetric])
  qed simp
qed

subsection \<open>A unit that compares 32767 with -1\<close>

lemma str_int_32767: "str_int 32767 = ''32767''"
  by (simp add: str_int_def str_nat.simps digit_char_def)

lemma write_push_constant:
  "\<not> closed cw \<Longrightarrow>
   write_push_pop cw ''C_PUSH'' ''constant'' (Some i) =
     (None, cw\<lparr>write_file := write_file cw @
                   (if log_vm_commands cw then [''//  push constant '' @ str_int i] else []) @
                   [''@'' @ str_int i, ''D=A'', ''@SP'', ''AM=M+1'', ''A=A-1'', ''M=D'']\<rparr>)"
  by (simp add: write_push_pop_def write_out_def translate_push_vm_code_to_asm_def
        translate_segment_vm_code_def)

lemma write_arithmetic_neg:
  "\<not> closed cw \<Longrightarrow>
   write_arithmetic cw (Some ''neg'') =
     (None, cw\<lparr>write_file := write_file cw @
                   (if log_vm_commands cw then [''//  neg''] else []) @
                   [''@SP'', ''AM=M-1'', ''M=-M'', ''@SP'', ''M=M+1'']\<rparr>)"
  by (simp add: write_arithmetic_def write_out_def translate_arithmetic_vm_code_to_assembly_def)

lemma write_arithmetic_gt:
  "\<not> closed cw \<Longrightarrow>
   write_arithmetic cw (Some ''gt'') =
     (None, cw\<lparr>write_file := write_file cw @
                   (if log_vm_commands cw then [''//  gt''] else []) @
                   [''@SP'', ''AM=M-1'', ''D=M'', ''@SP'', ''AM=M-1'', ''D=M-D'',
                    ''@TRUE_'' @ str_int (arith_jump_counter cw), ''D;JGT'',
                    ''D=0'', ''@END_'' @ str_int (arith_jump_counter cw), ''0;JMP'',
                    ''(TRUE_'' @ str_int (arith_jump_counter cw) @ '')'', ''D=-1'',
                    ''(END_'' @ str_int (arith_jump_counter cw) @ '')'',
                    ''@SP'', ''A=M'', ''M=D'', ''@SP'', ''M=M+1''],
                 arith_jump_counter := arith_jump_counter cw + 1\<rparr>)"
  by (simp add: write_arithmetic_def write_out_def translate_comparison)

lemma overflow_translated:
  "translate_files no_dirs [(''O.vm'', overflow_unit)] ''O.vm'' =
     (None, Some \<lparr>in_filepath = ''O.vm'', out_filename = ''O.asm'',
                  write_file = overflow_output, closed = True,
                  current_filename = Some ''O'', current_function = None,
                  arith_jump_counter = 1, return_counter = 0, log_vm_commands = True\<rparr>)"
proof -
  let ?cw0 = "\<lparr>in_filepath = ''O.vm'', out_filename = ''O.asm'', write_file = [],
                closed = False, current_filename = None, current_function = None,
                arith_jump_counter = 0, return_counter = 0, log_vm_commands = True\<rparr>"
  have init: "CodeWriter_init no_dirs ''O.vm'' True = Inr ?cw0"
    by code_simp
  have name: "set_filename ?cw0 ''O.vm'' = ?cw0\<lparr>current_filename := Some ''O''\<rparr>"
    by code_simp
  have cleaned: "clean_file overflow_unit =
      [''push constant 32767'', ''push constant 1'', ''neg'', ''gt'']"
    by code_simp
  have k1: "Command_init ''push constant 32767'' =
      Inr \<lparr>command_type = ''C_PUSH'', arg1 = Some ''constant'', arg2 = Some 32767\<rparr>"
    by code_simp
  have k2: "Command_init ''push constant 1'' =
      Inr \<lparr>command_type = ''C_PUSH'', arg1 = Some ''constant'', arg2 = Some 1\<rparr>"
    by code_simp
  have k3: "Command_init ''neg'' =
      Inr \<lparr>command_type = ''C_ARITHMETIC'', arg1 = Some ''neg'', arg2 = None\<rparr>"
    by code_simp
  have k4: "Command_init ''gt'' =
      Inr \<lparr>command_type = ''C_ARITHMETIC'', arg1 = Some ''gt'', arg2 = None\<rparr>"
    by code_simp
  have small: "str_int 0 = ''0''" "str_int 1 = ''1''"
    by code_simp+
  have "translate_lines (?cw0\<lparr>current_filename := Some ''O''\<rparr>)
          [''push constant 32767'', ''push constant 1'', ''neg'', ''gt''] =
        (None, ?cw0\<lparr>current_filename := Some ''O'', write_file := overflow_output,
                     arith_jump_counter := 1\<rparr>)"
    by (simp add: k1 k2 k3 k4 translate_command_def get_arg1_def get_arg2_def
          is_valid_arg1_call_def ARG1_BLACKLIST_COMMAND_TYPES_def
          ARG2_WHITELIST_COMMAND_TYPES_def write_push_constant write_arithmetic_neg
          write_arithmetic_gt str_int_32767 small overflow_output_def)
  then show ?thesis
    by (simp add: translate_files_def init translate_file_def name cleaned close_def)
qed

section \<open>C1: return\<close>

text \<open>
  Claim C1. For every translated \<^verbatim>\<open>return\<close>, the lines written are the 49 instructions
  below, in this order: they keep the local base pointer (LCL) in the variable
  \<^verbatim>\<open>frame\<close>, keep the return address read at frame - 5 in the variable \<^verbatim>\<open>return\<close>,
  pop the top of the stack into the cell ARG points to, set the stack pointer to
  ARG + 1, load THAT, THIS, ARG and LCL from the cells frame - 1, frame - 2, frame - 3
  and frame - 4, and jump to the return address. Executed on the machine from a state
  in which the two variables, the five registers, the four cells of the saved base
  pointers and the cell ARG points to are different cells (the cell of the return
  address may be the one ARG points to, as it is after a call with no argument), the
  49 steps end at the return address that was stored at LCL - 5 before, with the
  value that was on top of the stack in the cell the old ARG points to, the stack
  pointer at the old ARG + 1, and THAT, THIS, ARG and LCL holding what the cells
  LCL - 1, LCL - 2, LCL - 3 and LCL - 4 held, LCL being the old one.
\<close>

theorem return_translation:
  assumes opened: "\<not> closed cw"
    and env: "base_env env"
    and rom: "rom_at rom (pc s) (emitted return_commands)"
    and temps: "distinct [addr (env ''frame''), addr (env ''return''), 0, 1, 2, 3, 4]"
    and frame: "set [addr (ram s 1 - 1), addr (ram s 1 - 2), addr (ram s 1 - 3), addr (ram s 1 - 4)]
                  \<inter> set [addr (env ''frame''), addr (env ''return''), 0, 1, 2, 3, 4] = {}"
    and ret: "addr (ram s 1 - 5) \<noteq> addr (env ''frame'')"
    and top: "addr (ram s 0 - 1) \<notin> set [addr (env ''frame''), addr (env ''return''), 0]"
    and arg: "addr (ram s 2) \<notin> set [addr (env ''frame''), addr (env ''return''), 0, 1, 2, 3, 4,
                 addr (ram s 1 - 1), addr (ram s 1 - 2), addr (ram s 1 - 3), addr (ram s 1 - 4)]"
  shows "write_return cw =
           (None, cw\<lparr>write_file := write_file cw @
                         (if log_vm_commands cw then [''//  return''] else []) @
                         emitted return_commands\<rparr>) \<and>
         emitted return_commands =
           [''@LCL'', ''D=M'', ''@frame'', ''M=D'',
            ''@5'', ''A=D-A'', ''D=M'', ''@return'', ''M=D'',
            ''@SP'', ''AM=M-1'', ''D=M'', ''@ARG'', ''A=M'', ''M=D'',
            ''D=A+1'', ''@SP'', ''M=D'',
            ''@frame'', ''D=M'', ''@1'', ''A=D-A'', ''D=M'', ''@THAT'', ''M=D'',
            ''@frame'', ''D=M'', ''@2'', ''A=D-A'', ''D=M'', ''@THIS'', ''M=D'',
            ''@frame'', ''D=M'', ''@3'', ''A=D-A'', ''D=M'', ''@ARG'', ''M=D'',
            ''@frame'', ''D=M'', ''@4'', ''A=D-A'', ''D=M'', ''@LCL'', ''M=D'',
            ''@return'', ''A=M'', ''0;JMP''] \<and>
         (\<exists>s'. run env rom 49 s = Some s' \<and>
            pc s' = unat (addr (ram s (addr (ram s 1 - 5)))) \<and>
            ram s' (addr (ram s 2)) = ram s (addr (ram s 0 - 1)) \<and>
            ram s' 0 = ram s 2 + 1 \<and>
            ram s' 4 = ram s (addr (ram s 1 - 1)) \<and>
            ram s' 3 = ram s (addr (ram s 1 - 2)) \<and>
            ram s' 2 = ram s (addr (ram s 1 - 3)) \<and>
            ram s' 1 = ram s (addr (ram s 1 - 4)) \<and>
            ram s' (addr (env ''frame'')) = ram s 1 \<and>
            ram s' (addr (env ''return'')) = ram s (addr (ram s 1 - 5)))"
proof -
  from opened have "write_return cw =
           (None, cw\<lparr>write_file := write_file cw @
                         (if log_vm_commands cw then [''//  return''] else []) @
                         emitted return_commands\<rparr>)"
    by (simp add: write_return_def write_out_def return_commands_lines emitted_def)
  moreover note return_run [OF env rom temps frame ret top arg]
  moreover have "emitted return_commands =
           [''@LCL'', ''D=M'', ''@frame'', ''M=D'',
            ''@5'', ''A=D-A'', ''D=M'', ''@return'', ''M=D'',
            ''@SP'', ''AM=M-1'', ''D=M'', ''@ARG'', ''A=M'', ''M=D'',
            ''D=A+1'', ''@SP'', ''M=D'',
            ''@frame'', ''D=M'', ''@1'', ''A=D-A'', ''D=M'', ''@THAT'', ''M=D'',
            ''@frame'', ''D=M'', ''@2'', ''A=D-A'', ''D=M'', ''@THIS'', ''M=D'',
            ''@frame'', ''D=M'', ''@3'', ''A=D-A'', ''D=M'', ''@ARG'', ''M=D'',
            ''@frame'', ''D=M'', ''@4'', ''A=D-A'', ''D=M'', ''@LCL'', ''M=D'',
            ''@return'', ''A=M'', ''0;JMP'']"
    by (simp add: return_commands_lines emitted_def)
  ultimately show ?thesis by blast
qed

text \<open>The lines of \<^verbatim>\<open>return\<close> as a program of their own, on the example state: the
  assembler puts \<^verbatim>\<open>frame\<close> and \<^verbatim>\<open>return\<close> in cells 16 and 17; the machine ends at
  instruction 7 with 42 in cell 300, the stack pointer at 301 and the four base
  pointers of the caller back.\<close>

theorem return_translation_witness:
  "\<not> closed writer_in_function \<and>
   base_env (assemble_env (emitted return_commands)) \<and>
   rom_at (emitted return_commands) (pc frame_machine) (emitted return_commands) \<and>
   addr (assemble_env (emitted return_commands) ''frame'') = 16 \<and>
   addr (assemble_env (emitted return_commands) ''return'') = 17 \<and>
   addr (ram frame_machine 1 - 5) = addr (ram frame_machine 2) \<and>
   write_file (snd (write_return writer_in_function)) = emitted return_commands \<and>
   (\<exists>s'. run (assemble_env (emitted return_commands)) (emitted return_commands) 49
             frame_machine = Some s' \<and>
          pc s' = 7 \<and> ram s' 300 = 42 \<and> ram s' 0 = 301 \<and> ram s' 4 = 4000 \<and>
          ram s' 3 = 3000 \<and> ram s' 2 = 2000 \<and> ram s' 1 = 1000 \<and>
          ram s' 16 = 305 \<and> ram s' 17 = 7)"
proof -
  let ?env = "assemble_env (emitted return_commands)"
  have vars: "variables (emitted return_commands) = [''frame'', ''return'']"
    by (simp add: return_commands_lines emitted_def variables_def startswith_def is_number_def
          is_digit_def predefined_def is_pseudo_def)
  have labels: "label_address (emitted return_commands) ''frame'' 0 = None"
      "label_address (emitted return_commands) ''return'' 0 = None"
    by (simp_all add: return_commands_lines emitted_def is_pseudo_def startswith_def)
  have fr: "addr (?env ''frame'') = 16" and rt: "addr (?env ''return'') = 17"
    by (simp_all add: assemble_env_def vars labels predefined_def addr_numeral)
  have opened: "\<not> closed writer_in_function"
    by (simp add: writer_in_function_def)
  have rom: "rom_at (emitted return_commands) (pc frame_machine) (emitted return_commands)"
    by (simp add: rom_at_def frame_machine_def)
  have temps: "distinct [addr (?env ''frame''), addr (?env ''return''), 0, 1, 2, 3, 4]"
    by (simp add: fr rt)
  have frame: "set [addr (ram frame_machine 1 - 1), addr (ram frame_machine 1 - 2),
                    addr (ram frame_machine 1 - 3), addr (ram frame_machine 1 - 4)]
                  \<inter> set [addr (?env ''frame''), addr (?env ''return''), 0, 1, 2, 3, 4] = {}"
    by (simp add: fr rt frame_machine_def addr_numeral)
  have ret: "addr (ram frame_machine 1 - 5) \<noteq> addr (?env ''frame'')"
    by (simp add: fr frame_machine_def addr_numeral)
  have top: "addr (ram frame_machine 0 - 1) \<notin> set [addr (?env ''frame''), addr (?env ''return''), 0]"
    by (simp add: fr rt frame_machine_def addr_numeral)
  have arg: "addr (ram frame_machine 2) \<notin>
               set [addr (?env ''frame''), addr (?env ''return''), 0, 1, 2, 3, 4,
                 addr (ram frame_machine 1 - 1), addr (ram frame_machine 1 - 2),
                 addr (ram frame_machine 1 - 3), addr (ram frame_machine 1 - 4)]"
    by (simp add: fr rt frame_machine_def addr_numeral)
  have same: "addr (ram frame_machine 1 - 5) = addr (ram frame_machine 2)"
    by (simp add: frame_machine_def)
  note inst = return_translation [OF opened base_env_assemble rom temps frame ret top arg]
  from inst have written: "write_file (snd (write_return writer_in_function)) =
      emitted return_commands"
    by (simp add: writer_in_function_def)
  from inst have "\<exists>s'. run ?env (emitted return_commands) 49 frame_machine = Some s' \<and>
            pc s' = unat (addr (ram frame_machine (addr (ram frame_machine 1 - 5)))) \<and>
            ram s' (addr (ram frame_machine 2)) = ram frame_machine (addr (ram frame_machine 0 - 1)) \<and>
            ram s' 0 = ram frame_machine 2 + 1 \<and>
            ram s' 4 = ram frame_machine (addr (ram frame_machine 1 - 1)) \<and>
            ram s' 3 = ram frame_machine (addr (ram frame_machine 1 - 2)) \<and>
            ram s' 2 = ram frame_machine (addr (ram frame_machine 1 - 3)) \<and>
            ram s' 1 = ram frame_machine (addr (ram frame_machine 1 - 4)) \<and>
            ram s' (addr (?env ''frame'')) = ram frame_machine 1 \<and>
            ram s' (addr (?env ''return'')) = ram frame_machine (addr (ram frame_machine 1 - 5))"
    by blast
  then have run: "\<exists>s'. run ?env (emitted return_commands) 49 frame_machine = Some s' \<and>
          pc s' = 7 \<and> ram s' 300 = 42 \<and> ram s' 0 = 301 \<and> ram s' 4 = 4000 \<and>
          ram s' 3 = 3000 \<and> ram s' 2 = 2000 \<and> ram s' 1 = 1000 \<and>
          ram s' 16 = 305 \<and> ram s' 17 = 7"
    unfolding fr rt by (simp add: frame_machine_def addr_numeral)
  from opened base_env_assemble [of "emitted return_commands"] rom fr rt same written run
  show ?thesis by blast
qed

section \<open>C2: call\<close>

text \<open>
  Claim C2. For every translated \<^verbatim>\<open>call f n\<close>, the writer makes the label
  \<^verbatim>\<open>RETURN_c\<close> from its counter of calls \<open>c\<close>, moves the counter on by one, and writes
  the 42 instructions below followed by the declaration of the label: the push of the
  address of the label, the pushes of LCL, ARG, THIS and THAT in this order, ARG set to
  the stack pointer - (n + 5), LCL set to the stack pointer, and the jump to \<open>f\<close>; the
  declaration \<^verbatim>\<open>(RETURN_c)\<close> is the line after the jump, so that the label is the address
  of the instruction that follows the 42. Executed on the machine from a state in which
  the five stack cells from the stack pointer on are not the registers, the 42 steps
  end at the address of \<open>f\<close>, with the address of the label and the old LCL, ARG, THIS
  and THAT in the five cells, the stack pointer five higher, ARG at the new stack
  pointer - n - 5, LCL at the new stack pointer, and THIS and THAT as they were.
\<close>

theorem call_translation:
  assumes opened: "\<not> closed cw"
    and n: "0 \<le> n" "n + 5 < 32768"
    and env: "base_env env"
    and target: "a_value env f = Some fa"
    and rom: "rom_at rom (pc s) (rom_of (emitted (call_commands cw (''RETURN_'' @ str_int (return_counter cw)) f (Some n))))"
    and stack: "set [addr (ram s 0), addr (ram s 0 + 1), addr (ram s 0 + 2), addr (ram s 0 + 3),
                     addr (ram s 0 + 4)] \<inter> set [0, 1, 2, 3, 4] = {}"
  shows "write_call cw f (Some n) =
           (None, cw\<lparr>write_file := write_file cw @
                         (if log_vm_commands cw then [''//  call '' @ f @ '' '' @ str_int n]
                          else []) @
                         emitted (call_commands cw (''RETURN_'' @ str_int (return_counter cw)) f (Some n)),
                       return_counter := return_counter cw + 1\<rparr>) \<and>
         emitted (call_commands cw (''RETURN_'' @ str_int (return_counter cw)) f (Some n)) =
           [''@RETURN_'' @ str_int (return_counter cw), ''D=A'',
            ''@SP'', ''AM=M+1'', ''A=A-1'', ''M=D'',
            ''@LCL'', ''D=M'', ''@SP'', ''AM=M+1'', ''A=A-1'', ''M=D'',
            ''@ARG'', ''D=M'', ''@SP'', ''AM=M+1'', ''A=A-1'', ''M=D'',
            ''@THIS'', ''D=M'', ''@SP'', ''AM=M+1'', ''A=A-1'', ''M=D'',
            ''@THAT'', ''D=M'', ''@SP'', ''AM=M+1'', ''A=A-1'', ''M=D'',
            ''@SP'', ''D=M'', ''@'' @ str_int (n + 5), ''D=D-A'', ''@ARG'', ''M=D'',
            ''@SP'', ''D=M'', ''@LCL'', ''M=D'',
            ''@'' @ f, ''0;JMP'',
            ''(RETURN_'' @ str_int (return_counter cw) @ '')''] \<and>
         label_address (emitted (call_commands cw (''RETURN_'' @ str_int (return_counter cw)) f (Some n))) (''RETURN_'' @ str_int (return_counter cw)) k = Some (k + 42) \<and>
         (\<exists>s'. run env rom 42 s = Some s' \<and> pc s' = unat (addr fa) \<and>
            ram s' (addr (ram s 0)) = env (''RETURN_'' @ str_int (return_counter cw)) \<and>
            ram s' (addr (ram s 0 + 1)) = ram s 1 \<and>
            ram s' (addr (ram s 0 + 2)) = ram s 2 \<and>
            ram s' (addr (ram s 0 + 3)) = ram s 3 \<and>
            ram s' (addr (ram s 0 + 4)) = ram s 4 \<and>
            ram s' 0 = ram s 0 + 5 \<and>
            ram s' 2 = ram s' 0 - of_int n - 5 \<and>
            ram s' 1 = ram s' 0 \<and>
            ram s' 3 = ram s 3 \<and> ram s' 4 = ram s 4)"
proof -
  have lab: "\<not> is_number (''RETURN_'' @ str_int (return_counter cw))"
    by (simp add: not_number_Cons is_digit_def)
  have lines: "emitted (call_commands cw (''RETURN_'' @ str_int (return_counter cw)) f (Some n)) =
           [''@RETURN_'' @ str_int (return_counter cw), ''D=A'',
            ''@SP'', ''AM=M+1'', ''A=A-1'', ''M=D'',
            ''@LCL'', ''D=M'', ''@SP'', ''AM=M+1'', ''A=A-1'', ''M=D'',
            ''@ARG'', ''D=M'', ''@SP'', ''AM=M+1'', ''A=A-1'', ''M=D'',
            ''@THIS'', ''D=M'', ''@SP'', ''AM=M+1'', ''A=A-1'', ''M=D'',
            ''@THAT'', ''D=M'', ''@SP'', ''AM=M+1'', ''A=A-1'', ''M=D'',
            ''@SP'', ''D=M'', ''@'' @ str_int (n + 5), ''D=D-A'', ''@ARG'', ''M=D'',
            ''@SP'', ''D=M'', ''@LCL'', ''M=D'',
            ''@'' @ f, ''0;JMP'',
            ''(RETURN_'' @ str_int (return_counter cw) @ '')'']"
    by (simp add: call_commands_lines emitted_def)
  have "label_address (emitted (call_commands cw (''RETURN_'' @ str_int (return_counter cw)) f (Some n))) (''RETURN_'' @ str_int (return_counter cw)) k = Some (k + 42)"
    unfolding lines by (simp add: is_pseudo_def startswith_def)
  moreover note write_call_open [OF opened, of f n] lines
    call_run [OF env n lab target rom stack]
  ultimately show ?thesis by blast
qed

text \<open>\<^verbatim>\<open>call A.g 2\<close> in the example program, on the example state: the label
  \<^verbatim>\<open>RETURN_0\<close> is instruction 42 and \<^verbatim>\<open>A.g\<close> is instruction 44; the machine ends at 44
  with 42, 300, 400, 3000 and 3010 in cells 256 to 260, the stack pointer and LCL at
  261 and ARG at 254.\<close>

theorem call_translation_witness:
  "\<not> closed writer_in_function \<and>
   base_env (assemble_env call_program) \<and>
   a_value (assemble_env call_program) ''A.g'' = Some 44 \<and>
   rom_at (rom_of call_program) (pc machine0)
     (rom_of (emitted (call_commands writer_in_function
        (''RETURN_'' @ str_int (return_counter writer_in_function)) ''A.g'' (Some 2)))) \<and>
   set [addr (ram machine0 0), addr (ram machine0 0 + 1), addr (ram machine0 0 + 2),
        addr (ram machine0 0 + 3), addr (ram machine0 0 + 4)] \<inter> set [0, 1, 2, 3, 4] = {} \<and>
   return_counter (snd (write_call writer_in_function ''A.g'' (Some 2))) = 1 \<and>
   assemble_env call_program ''RETURN_0'' = 42 \<and>
   (\<exists>s'. run_program call_program 42 machine0 = Some s' \<and> pc s' = 44 \<and>
          ram s' 256 = 42 \<and> ram s' 257 = 300 \<and> ram s' 258 = 400 \<and> ram s' 259 = 3000 \<and>
          ram s' 260 = 3010 \<and> ram s' 0 = 261 \<and> ram s' 2 = 254 \<and> ram s' 1 = 261 \<and>
          ram s' 3 = 3000 \<and> ram s' 4 = 3010)"
proof -
  let ?env = "assemble_env call_program"
  let ?rom = "rom_of call_program"
  let ?lab = "''RETURN_'' @ str_int (return_counter writer_in_function)"
  have n0: "str_int 0 = ''0''" and n7: "str_int 7 = ''7''"
    by code_simp+
  have opened: "\<not> closed writer_in_function"
    by (simp add: writer_in_function_def)
  have lab: "?lab = ''RETURN_0''"
    by (simp add: writer_in_function_def n0)
  have lines: "emitted (call_commands writer_in_function ?lab ''A.g'' (Some 2)) =
          [''@RETURN_0'', ''D=A'', ''@SP'', ''AM=M+1'', ''A=A-1'', ''M=D'',
           ''@LCL'', ''D=M'', ''@SP'', ''AM=M+1'', ''A=A-1'', ''M=D'',
           ''@ARG'', ''D=M'', ''@SP'', ''AM=M+1'', ''A=A-1'', ''M=D'',
           ''@THIS'', ''D=M'', ''@SP'', ''AM=M+1'', ''A=A-1'', ''M=D'',
           ''@THAT'', ''D=M'', ''@SP'', ''AM=M+1'', ''A=A-1'', ''M=D'',
           ''@SP'', ''D=M'', ''@7'', ''D=D-A'', ''@ARG'', ''M=D'',
           ''@SP'', ''D=M'', ''@LCL'', ''M=D'', ''@A.g'', ''0;JMP'', ''(RETURN_0)'']"
    unfolding lab by (simp add: call_commands_lines emitted_def n7)
  have prog: "call_program =
          [''@RETURN_0'', ''D=A'', ''@SP'', ''AM=M+1'', ''A=A-1'', ''M=D'',
           ''@LCL'', ''D=M'', ''@SP'', ''AM=M+1'', ''A=A-1'', ''M=D'',
           ''@ARG'', ''D=M'', ''@SP'', ''AM=M+1'', ''A=A-1'', ''M=D'',
           ''@THIS'', ''D=M'', ''@SP'', ''AM=M+1'', ''A=A-1'', ''M=D'',
           ''@THAT'', ''D=M'', ''@SP'', ''AM=M+1'', ''A=A-1'', ''M=D'',
           ''@SP'', ''D=M'', ''@7'', ''D=D-A'', ''@ARG'', ''M=D'',
           ''@SP'', ''D=M'', ''@LCL'', ''M=D'', ''@A.g'', ''0;JMP'', ''(RETURN_0)'',
           ''(END)'', ''@END'', ''0;JMP'', ''(A.g)'', ''D=0'']"
    unfolding call_program_def write_call_open [OF opened] lines
    by (simp add: writer_in_function_def)
  have target: "a_value ?env ''A.g'' = Some 44"
    unfolding prog
    by (simp add: a_value_symbol not_number_Cons is_digit_def assemble_env_def predefined_def
          is_pseudo_def startswith_def)
  have ret: "?env ''RETURN_0'' = 42"
    unfolding prog
    by (simp add: assemble_env_def predefined_def is_pseudo_def startswith_def)
  have rom: "rom_at ?rom (pc machine0)
      (rom_of (emitted (call_commands writer_in_function ?lab ''A.g'' (Some 2))))"
    unfolding lines unfolding prog
    by (simp add: rom_at_def rom_of_def is_pseudo_def startswith_def machine0_def)
  have stack: "set [addr (ram machine0 0), addr (ram machine0 0 + 1), addr (ram machine0 0 + 2),
        addr (ram machine0 0 + 3), addr (ram machine0 0 + 4)] \<inter> set [0, 1, 2, 3, 4] = {}"
    by (simp add: machine0_def addr_numeral)
  have n: "(0::int) \<le> 2" "(2::int) + 5 < 32768"
    by simp_all
  note inst = call_translation [OF opened n base_env_assemble target rom stack]
  from inst have "write_call writer_in_function ''A.g'' (Some 2) =
           (None, writer_in_function\<lparr>write_file := write_file writer_in_function @
                         (if log_vm_commands writer_in_function
                          then [''//  call '' @ ''A.g'' @ '' '' @ str_int 2] else []) @
                         emitted (call_commands writer_in_function ?lab ''A.g'' (Some 2)),
                       return_counter := return_counter writer_in_function + 1\<rparr>)"
    by blast
  then have counter: "return_counter (snd (write_call writer_in_function ''A.g'' (Some 2))) = 1"
    by (simp add: writer_in_function_def)
  from inst obtain s' where s': "run ?env ?rom 42 machine0 = Some s'"
      "pc s' = unat (addr (44 :: 16 word))"
      "ram s' (addr (ram machine0 0)) = ?env ?lab"
      "ram s' (addr (ram machine0 0 + 1)) = ram machine0 1"
      "ram s' (addr (ram machine0 0 + 2)) = ram machine0 2"
      "ram s' (addr (ram machine0 0 + 3)) = ram machine0 3"
      "ram s' (addr (ram machine0 0 + 4)) = ram machine0 4"
      "ram s' 0 = ram machine0 0 + 5"
      "ram s' 2 = ram s' 0 - of_int 2 - 5"
      "ram s' 1 = ram s' 0"
      "ram s' 3 = ram machine0 3" "ram s' 4 = ram machine0 4"
    by blast
  from s' have "run_program call_program 42 machine0 = Some s' \<and> pc s' = 44 \<and>
          ram s' 256 = 42 \<and> ram s' 257 = 300 \<and> ram s' 258 = 400 \<and> ram s' 259 = 3000 \<and>
          ram s' 260 = 3010 \<and> ram s' 0 = 261 \<and> ram s' 2 = 254 \<and> ram s' 1 = 261 \<and>
          ram s' 3 = 3000 \<and> ram s' 4 = 3010"
    unfolding lab ret run_program_def
    by (simp add: machine0_def addr_numeral addr_def)
  then have run: "\<exists>s'. run_program call_program 42 machine0 = Some s' \<and> pc s' = 44 \<and>
          ram s' 256 = 42 \<and> ram s' 257 = 300 \<and> ram s' 258 = 400 \<and> ram s' 259 = 3000 \<and>
          ram s' 260 = 3010 \<and> ram s' 0 = 261 \<and> ram s' 2 = 254 \<and> ram s' 1 = 261 \<and>
          ram s' 3 = 3000 \<and> ram s' 4 = 3010"
    by (rule exI)
  from opened base_env_assemble [of call_program] target rom stack counter ret run
  show ?thesis by blast
qed

section \<open>C5: segment addressing at the boundaries\<close>

text \<open>
  Claim C5. For each of the four base-pointer segments, a push with index 0 and a push
  with a non-zero index both read the cell at base + index: the first dereferences the
  base pointer directly, the second adds the index to it first. Executed on the machine,
  the emitted lines leave the value of that cell on top of the stack and the stack
  pointer one higher (for an index the machine can load, below 32768). Every pop whose
  segment is \<^verbatim>\<open>constant\<close> fails with the InvalidSegment error, and every push or pop whose
  segment is \<^verbatim>\<open>pointer\<close> with an index other than 0 or 1 fails with the InvalidOperand
  error; \<^verbatim>\<open>write_push_pop\<close> on an open file raises these errors to its caller.
\<close>

theorem segment_addressing_boundary:
  assumes seg: "(seg, reg) \<in> set [(''argument'', ''ARG''), (''local'', ''LCL''),
                                     (''this'', ''THIS''), (''that'', ''THAT'')]"
    and i: "0 \<le> i" "i < 32768"
    and env: "base_env env"
    and rom: "rom_at rom (pc s) (emitted (translate_push_vm_code_to_asm cw seg (Some i)))"
  shows "translate_push_vm_code_to_asm cw seg (Some i) =
           Inr ([''@'' @ reg] @
                (if i = 0 then [''A=M''] else [''D=M'', ''@'' @ str_int i, ''A=D+A'']) @
                [''D=M'', ''@SP'', ''AM=M+1'', ''A=A-1'', ''M=D'']) \<and>
         run env rom (if i = 0 then 7 else 9) s =
           Some \<lparr>pc = pc s + (if i = 0 then 7 else 9),
                 areg = ram s 0,
                 dreg = ram s (addr (ram s (addr (env reg)) + of_int i)),
                 ram = (ram s)(0 := ram s 0 + 1,
                               addr (ram s 0) := ram s (addr (ram s (addr (env reg)) + of_int i)))\<rparr> \<and>
         translate_pop_vm_code_to_asm cw ''constant'' cidx = Inl (InvalidSegment ''constant'') \<and>
         (\<not> closed cw \<longrightarrow>
            fst (write_push_pop cw ''C_POP'' ''constant'' cidx) = Some (InvalidSegment ''constant'')) \<and>
         (pidx \<noteq> Some 0 \<and> pidx \<noteq> Some 1 \<longrightarrow>
            translate_push_vm_code_to_asm cw ''pointer'' pidx = Inl (InvalidOperand pidx) \<and>
            translate_pop_vm_code_to_asm cw ''pointer'' pidx = Inl (InvalidOperand pidx) \<and>
            (\<not> closed cw \<longrightarrow>
               fst (write_push_pop cw ''C_PUSH'' ''pointer'' pidx) = Some (InvalidOperand pidx) \<and>
               fst (write_push_pop cw ''C_POP'' ''pointer'' pidx) = Some (InvalidOperand pidx)))"
proof -
  let ?code = "[''@'' @ reg] @
                (if i = 0 then [''A=M''] else [''D=M'', ''@'' @ str_int i, ''A=D+A'']) @
                [''D=M'', ''@SP'', ''AM=M+1'', ''A=A-1'', ''M=D'']"
  let ?final = "\<lparr>pc = pc s + (if i = 0 then 7 else 9),
                 areg = ram s 0,
                 dreg = ram s (addr (ram s (addr (env reg)) + of_int i)),
                 ram = (ram s)(0 := ram s 0 + 1,
                               addr (ram s 0) := ram s (addr (ram s (addr (env reg)) + of_int i)))\<rparr>"
  have code: "translate_push_vm_code_to_asm cw seg (Some i) = Inr ?code"
    using translate_push_base [OF seg, of cw "Some i"] by simp
  from env have sp: "env ''SP'' = 0" by (simp add: base_env_def)
  have ex: "exec_straight env ?code s = Some ?final"
  proof (cases "i = 0")
    case True
    then show ?thesis
      by (simp add: exec_reg [OF seg] hack_exec is_digit_def sp addr_0)
  next
    case False
    with i show ?thesis
      by (simp add: exec_reg [OF seg] hack_exec is_digit_def sp addr_0)
  qed
  from rom have "rom_at rom (pc s) ?code"
    by (simp add: code emitted_def)
  then have run: "run env rom (if i = 0 then 7 else 9) s = Some ?final"
    using ex by (rule run_straight) simp
  have wpop: "\<not> closed cw \<Longrightarrow>
            fst (write_push_pop cw ''C_POP'' ''constant'' cidx) = Some (InvalidSegment ''constant'')"
    by (simp add: write_push_pop_def translate_pop_constant write_out_def)
  have wptr: "pidx \<noteq> Some 0 \<Longrightarrow> pidx \<noteq> Some 1 \<Longrightarrow> \<not> closed cw \<Longrightarrow>
               fst (write_push_pop cw ''C_PUSH'' ''pointer'' pidx) = Some (InvalidOperand pidx) \<and>
               fst (write_push_pop cw ''C_POP'' ''pointer'' pidx) = Some (InvalidOperand pidx)"
    by (simp add: write_push_pop_def translate_push_pop_pointer write_out_def)
  from code run translate_pop_constant [of cw cidx] wpop
       translate_push_pop_pointer [of pidx cw] wptr
  show ?thesis by blast
qed

text \<open>\<^verbatim>\<open>push local 5\<close> on the example state, where local starts at 300 and cell 305 holds
  77; \<^verbatim>\<open>pop constant 0\<close> and \<^verbatim>\<open>push pointer 2\<close>.\<close>

theorem segment_addressing_boundary_witness:
  "(''local'', ''LCL'') \<in> set [(''argument'', ''ARG''), (''local'', ''LCL''),
                                 (''this'', ''THIS''), (''that'', ''THAT'')] \<and>
   base_env (assemble_env []) \<and>
   rom_at [''@LCL'', ''D=M'', ''@5'', ''A=D+A'', ''D=M'', ''@SP'', ''AM=M+1'', ''A=A-1'', ''M=D'']
     (pc machine0) (emitted (translate_push_vm_code_to_asm writer_in_function ''local'' (Some 5))) \<and>
   run (assemble_env [])
     [''@LCL'', ''D=M'', ''@5'', ''A=D+A'', ''D=M'', ''@SP'', ''AM=M+1'', ''A=A-1'', ''M=D'']
     9 machine0 =
     Some \<lparr>pc = 9, areg = 256, dreg = 77, ram = (ram machine0)(0 := 257, 256 := 77)\<rparr> \<and>
   translate_pop_vm_code_to_asm writer_in_function ''constant'' (Some 0) =
     Inl (InvalidSegment ''constant'') \<and>
   translate_push_vm_code_to_asm writer_in_function ''pointer'' (Some 2) =
     Inl (InvalidOperand (Some 2))"
proof -
  have seg: "(''local'', ''LCL'') \<in> set [(''argument'', ''ARG''), (''local'', ''LCL''),
                                 (''this'', ''THIS''), (''that'', ''THAT'')]"
    by simp
  have code: "emitted (translate_push_vm_code_to_asm writer_in_function ''local'' (Some 5)) =
     [''@LCL'', ''D=M'', ''@5'', ''A=D+A'', ''D=M'', ''@SP'', ''AM=M+1'', ''A=A-1'', ''M=D'']"
    by code_simp
  have rom: "rom_at [''@LCL'', ''D=M'', ''@5'', ''A=D+A'', ''D=M'', ''@SP'', ''AM=M+1'', ''A=A-1'', ''M=D'']
     (pc machine0) (emitted (translate_push_vm_code_to_asm writer_in_function ''local'' (Some 5)))"
    unfolding code by (simp add: rom_at_def machine0_def)
  have lcl: "assemble_env [] ''LCL'' = 1"
    by (simp add: assemble_env_def predefined_def)
  from segment_addressing_boundary
         [where i = 5 and cidx = "Some 0" and pidx = "Some 2",
          OF seg _ _ base_env_assemble [of "[]"] rom]
  show ?thesis
    using seg rom base_env_assemble [of "[]"]
    by (simp add: lcl machine0_def addr_def)
qed

section \<open>C6: comparisons\<close>

text \<open>
  Claim C6. For each of the comparison commands eq, gt and lt, the lines written pop
  two values, of which the second popped is the left operand, compute left - right,
  jump to a new label \<^verbatim>\<open>TRUE_n\<close> when left = right, left > right or left < right
  respectively, otherwise set the result to 0, meet at a new label \<^verbatim>\<open>END_n\<close>, and push
  -1 for true and 0 for false. The lines written do all of this but for the condition
  of gt and lt: the jump is taken on the sign of the 16-bit difference (\<^verbatim>\<open>D=M-D\<close>, then
  \<^verbatim>\<open>D;JGT\<close> or \<^verbatim>\<open>D;JLT\<close>), which is not the order of the two operands when the
  difference leaves the 16-bit range. The unit \<^verbatim>\<open>push constant 32767\<close>,
  \<^verbatim>\<open>push constant 1\<close>, \<^verbatim>\<open>neg\<close>, \<^verbatim>\<open>gt\<close> is translated without an error; on the machine,
  after 17 steps the stack holds 32767 (left) and -1 (right), and left > right; after
  the 16 steps of the lines of gt the stack holds one value, and it is 0, false.
\<close>

theorem comparison_gt_wraps:
  "translate_files no_dirs [(''O.vm'', overflow_unit)] ''O.vm'' =
     (None, Some \<lparr>in_filepath = ''O.vm'', out_filename = ''O.asm'',
                  write_file = overflow_output, closed = True,
                  current_filename = Some ''O'', current_function = None,
                  arith_jump_counter = 1, return_counter = 0, log_vm_commands = True\<rparr>) \<and>
   (\<exists>s. run_program overflow_output 17 machine0 = Some s \<and> pc s = 17 \<and> ram s 0 = 258 \<and>
        ram s 256 = 32767 \<and> ram s 257 = - 1 \<and> ram s 257 <s ram s 256 \<and>
        (\<exists>s'. run (assemble_env overflow_output) (rom_of overflow_output) 16 s = Some s' \<and>
              run_program overflow_output 33 machine0 = Some s' \<and>
              pc s' = 34 \<and> ram s' 0 = 257 \<and> ram s' 256 = 0))"
proof -
  let ?env = "assemble_env overflow_output"
  let ?rom = "rom_of overflow_output"
  let ?pre = "[''@32767'', ''D=A'', ''@SP'', ''AM=M+1'', ''A=A-1'', ''M=D'',
               ''@1'', ''D=A'', ''@SP'', ''AM=M+1'', ''A=A-1'', ''M=D'',
               ''@SP'', ''AM=M-1'', ''M=-M'', ''@SP'', ''M=M+1'']"
  let ?gt = "[''@SP'', ''AM=M-1'', ''D=M'', ''@SP'', ''AM=M-1'', ''D=M-D'', ''@TRUE_'' @ ''0'',
              ''D;JGT'', ''D=0'', ''@END_'' @ ''0'', ''0;JMP'', ''D=-1'',
              ''@SP'', ''A=M'', ''M=D'', ''@SP'', ''M=M+1'']"
  have translated: "translate_files no_dirs [(''O.vm'', overflow_unit)] ''O.vm'' =
     (None, Some \<lparr>in_filepath = ''O.vm'', out_filename = ''O.asm'',
                  write_file = overflow_output, closed = True,
                  current_filename = Some ''O'', current_function = None,
                  arith_jump_counter = 1, return_counter = 0, log_vm_commands = True\<rparr>)"
    by (rule overflow_translated)
  have rom: "?rom = ?pre @ ?gt"
    by (simp add: rom_of_def overflow_output_def is_pseudo_def startswith_def)
  have env: "base_env ?env" by (rule base_env_assemble)
  then have sp: "?env ''SP'' = 0" by (simp add: base_env_def)
  have labels: "?env ''TRUE_0'' = 28" "?env ''END_0'' = 29"
    by (simp_all add: assemble_env_def predefined_def overflow_output_def is_pseudo_def
          startswith_def)
  have big: "exec_line ?env ''@32767'' u = Some (u\<lparr>pc := pc u + 1, areg := 32767\<rparr>)" for u
    by (simp add: exec_at a_value_def is_number_def is_digit_def nat_of_digits_def digit_val_def)
  have r0: "rom_at ?rom (pc machine0) (?pre @ ?gt)"
    unfolding rom by (simp add: rom_at_def machine0_def)
  have "rom_at ?rom (pc machine0) ?pre \<and> rom_at ?rom (pc machine0 + 17) ?gt"
    by (rule rom_at_split [OF r0]) simp
  then have r_pre: "rom_at ?rom (pc machine0) ?pre" and r_gt: "rom_at ?rom 17 ?gt"
    by (simp_all add: machine0_def)
  have "\<exists>s. exec_straight ?env ?pre machine0 = Some s \<and> pc s = 17 \<and> ram s 0 = 258 \<and>
          ram s 256 = 32767 \<and> ram s 257 = - 1"
    by (simp add: hack_exec exec_literals big is_digit_def sp addr_0 addr_numeral machine0_def)
  with r_pre have "\<exists>s. run ?env ?rom 17 machine0 = Some s \<and> pc s = 17 \<and> ram s 0 = 258 \<and>
          ram s 256 = 32767 \<and> ram s 257 = - 1"
    by (rule run_straight_ex) simp
  then obtain s where s: "run ?env ?rom 17 machine0 = Some s" "pc s = 17" "ram s 0 = 258"
      "ram s 256 = 32767" "ram s 257 = - 1"
    by blast
  have order: "ram s 257 <s ram s 256"
    by (simp add: s word_sless_alt)
  have jmp: "exec_line ?env ''D;JGT'' u =
               Some (u\<lparr>pc := (if 0 <s dreg u then unat (addr (areg u)) else pc u + 1)\<rparr>)" for u
    by (simp add: hack_exec)
  from r_gt have r_gt': "rom_at ?rom (pc s) ?gt" by (simp add: s)
  have tl: "unat (addr (?env (''TRUE_'' @ ''0''))) = pc s + 11"
    by (simp add: labels addr_def s)
  have el: "unat (addr (?env (''END_'' @ ''0''))) = pc s + 12"
    by (simp add: labels addr_def s)
  have t1: "addr (ram s 0 - 1) \<noteq> 0" and t2: "addr (ram s 0 - 2) \<noteq> 0"
    by (simp_all add: s addr_numeral)
  have cells: "addr (ram s 0 - 2) = 256" "addr (ram s 0 - 1) = 257"
    by (simp_all add: s addr_numeral)
  have diff: "\<not> 0 <s ram s (addr (ram s 0 - 2)) - ram s (addr (ram s 0 - 1))"
    unfolding cells by (simp add: s word_sless_alt)
  note cmp = compare_run [where P = "\<lambda>d. 0 <s d", OF jmp env r_gt' tl el t1 t2]
  let ?s' = "\<lparr>pc = pc s + 17, areg = 0, dreg = 0,
              ram = (ram s)(0 := ram s 0 - 1, addr (ram s 0 - 2) := 0)\<rparr>"
  from cmp diff have run16: "run ?env ?rom 16 s = Some ?s'"
    by simp
  from s(1) run16 have "run ?env ?rom (17 + 16) machine0 = Some ?s'"
    by (simp only: run_add option.case)
  then have run33: "run_program overflow_output 33 machine0 = Some ?s'"
    by (simp add: run_program_def)
  have final: "pc ?s' = 34 \<and> ram ?s' 0 = 257 \<and> ram ?s' 256 = 0"
    unfolding cells by (simp add: s)
  from s(1) have run17: "run_program overflow_output 17 machine0 = Some s"
    by (simp add: run_program_def)
  from run16 run33 final
  have "\<exists>s'. run ?env ?rom 16 s = Some s' \<and> run_program overflow_output 33 machine0 = Some s' \<and>
           pc s' = 34 \<and> ram s' 0 = 257 \<and> ram s' 256 = 0"
    by blast
  with translated run17 s order show ?thesis by blast
qed

section \<open>C7: the output file on the exit paths of a job\<close>

text \<open>
  Claim C7 says that on every exit path of a translation job, also when a fatal error
  ends it early, the output file opened at the start is closed before the error reaches
  the caller. As stated this fails: \<^verbatim>\<open>translate_files\<close> closes the writer after its
  loop and has no other exit handling. For the job of the one file \<^verbatim>\<open>a.vm\<close> with the
  line \<^verbatim>\<open>pop constant 0\<close>, the error reaches the caller and the file is open.
\<close>

theorem translate_files_error_leaves_file_open:
  "translate_files no_dirs [(''a.vm'', [''pop constant 0''])] ''a.vm'' =
     (Some (InvalidSegment ''constant''),
      Some \<lparr>in_filepath = ''a.vm'', out_filename = ''a.asm'',
            write_file = [''//  pop constant 0''], closed = False,
            current_filename = Some ''a'', current_function = None,
            arith_jump_counter = 0, return_counter = 0, log_vm_commands = True\<rparr>)"
  by code_simp

text \<open>
  Claim C7, amended. When a translation job has opened its output file, the file is
  closed when \<^verbatim>\<open>translate_files\<close> returns without an error, and it is still open when
  an error reaches the caller.
\<close>

theorem translate_files_closed_iff_no_error:
  assumes "translate_files isdir files input_path = (r, Some cw)"
  shows "closed cw = (r = None)"
proof (cases "CodeWriter_init isdir input_path True")
  case (Inl e)
  with assms show ?thesis by (simp add: translate_files_def)
next
  case (Inr cw0)
  then have open0: "\<not> closed cw0" by (rule CodeWriter_init_open)
  obtain x cw' where units: "translate_units cw0 files = (x, cw')"
    by (cases "translate_units cw0 files")
  then have "keeps cw0 cw'" by (rule translate_units_keeps)
  with open0 have open1: "\<not> closed cw'" by (simp add: keeps_def)
  show ?thesis
  proof (cases x)
    case None
    with assms Inr units show ?thesis by (auto simp: translate_files_def close_def)
  next
    case (Some e)
    with assms Inr units open1 show ?thesis by (auto simp: translate_files_def)
  qed
qed

theorem translate_files_closed_iff_no_error_witness:
  "translate_files no_dirs [(''a.vm'', [''add''])] ''a.vm'' =
     (None,
      Some \<lparr>in_filepath = ''a.vm'', out_filename = ''a.asm'',
            write_file = [''//  add'', ''@SP'', ''AM=M-1'', ''D=M'', ''@SP'', ''AM=M-1'',
                          ''M=M+D'', ''@SP'', ''M=M+1''],
            closed = True,
            current_filename = Some ''a'', current_function = None,
            arith_jump_counter = 0, return_counter = 0, log_vm_commands = True\<rparr>) \<and>
   closed \<lparr>in_filepath = ''a.vm'', out_filename = ''a.asm'',
            write_file = [''//  add'', ''@SP'', ''AM=M-1'', ''D=M'', ''@SP'', ''AM=M-1'',
                          ''M=M+D'', ''@SP'', ''M=M+1''],
            closed = True,
            current_filename = Some ''a'', current_function = None,
            arith_jump_counter = 0, return_counter = 0, log_vm_commands = True\<rparr> = (None = (None :: error option))"
proof -
  have h: "translate_files no_dirs [(''a.vm'', [''add''])] ''a.vm'' =
     (None,
      Some \<lparr>in_filepath = ''a.vm'', out_filename = ''a.asm'',
            write_file = [''//  add'', ''@SP'', ''AM=M-1'', ''D=M'', ''@SP'', ''AM=M-1'',
                          ''M=M+D'', ''@SP'', ''M=M+1''],
            closed = True,
            current_filename = Some ''a'', current_function = None,
            arith_jump_counter = 0, return_counter = 0, log_vm_commands = True\<rparr>)"
    by code_simp
  from h translate_files_closed_iff_no_error [OF h] show ?thesis by simp
qed

section \<open>C8: the two address computations of a base-pointer segment\<close>

text \<open>
  Claim C8 says that, for the segments argument, local, this and that, the
  address computation written for index 0 is exactly one instruction shorter than the
  one written for a non-zero index. As stated this fails: the first has two
  instructions, the second four.
\<close>

theorem translate_segment_zero_not_one_shorter:
  "translate_segment_vm_code writer_in_function ''local'' (Some 0) = Inr [''@LCL'', ''A=M''] \<and>
   translate_segment_vm_code writer_in_function ''local'' (Some 5) =
     Inr [''@LCL'', ''D=M'', ''@5'', ''A=D+A''] \<and>
   length [''@LCL'', ''D=M'', ''@5'', ''A=D+A''] \<noteq> length [''@LCL'', ''A=M''] + 1"
  by code_simp

text \<open>
  Claim C8, amended. For every segment in argument, local, this, that: the sequence
  written for index 0 dereferences the base pointer directly (\<^verbatim>\<open>@reg\<close>, \<^verbatim>\<open>A=M\<close>) and is
  exactly two instructions shorter than the sequence written for a non-zero index
  (\<^verbatim>\<open>@reg\<close>, \<^verbatim>\<open>D=M\<close>, \<^verbatim>\<open>@index\<close>, \<^verbatim>\<open>A=D+A\<close>); executed on the machine, each leaves
  in \<open>A\<close> the address base + index (base + 0 for the first), where base is the
  content of the segment's base pointer, and neither changes the memory. The index is
  one the machine can load (below 32768).
\<close>

theorem base_pointer_paths:
  assumes seg: "(seg, reg) \<in> set [(''argument'', ''ARG''), (''local'', ''LCL''),
                                     (''this'', ''THIS''), (''that'', ''THAT'')]"
    and i: "0 < i" "i < 32768"
    and rom0: "rom_at rom0 (pc s) (emitted (translate_segment_vm_code cw seg (Some 0)))"
    and romi: "rom_at romi (pc s) (emitted (translate_segment_vm_code cw seg (Some i)))"
  shows "translate_segment_vm_code cw seg (Some 0) = Inr [''@'' @ reg, ''A=M''] \<and>
         translate_segment_vm_code cw seg (Some i) =
           Inr [''@'' @ reg, ''D=M'', ''@'' @ str_int i, ''A=D+A''] \<and>
         length (emitted (translate_segment_vm_code cw seg (Some i))) =
           length (emitted (translate_segment_vm_code cw seg (Some 0))) + 2 \<and>
         run env rom0 2 s =
           Some (s\<lparr>pc := pc s + 2, areg := ram s (addr (env reg)) + 0\<rparr>) \<and>
         run env romi 4 s =
           Some (s\<lparr>pc := pc s + 4, areg := ram s (addr (env reg)) + of_int i,
                   dreg := ram s (addr (env reg))\<rparr>)"
proof -
  have c0: "translate_segment_vm_code cw seg (Some 0) = Inr [''@'' @ reg, ''A=M'']"
    using translate_segment_base [OF seg, of cw "Some 0"] by simp
  have ci: "translate_segment_vm_code cw seg (Some i) =
              Inr [''@'' @ reg, ''D=M'', ''@'' @ str_int i, ''A=D+A'']"
    using translate_segment_base [OF seg, of cw "Some i"] i by simp
  have e0: "exec_straight env [''@'' @ reg, ''A=M''] s =
              Some (s\<lparr>pc := pc s + 2, areg := ram s (addr (env reg)) + 0\<rparr>)"
    by (simp add: exec_reg [OF seg] hack_exec)
  have ei: "exec_straight env [''@'' @ reg, ''D=M'', ''@'' @ str_int i, ''A=D+A''] s =
              Some (s\<lparr>pc := pc s + 4, areg := ram s (addr (env reg)) + of_int i,
                      dreg := ram s (addr (env reg))\<rparr>)"
    using i by (simp add: exec_reg [OF seg] hack_exec)
  from rom0 have r0: "rom_at rom0 (pc s) [''@'' @ reg, ''A=M'']"
    by (simp add: c0 emitted_def)
  from romi have ri: "rom_at romi (pc s) [''@'' @ reg, ''D=M'', ''@'' @ str_int i, ''A=D+A'']"
    by (simp add: ci emitted_def)
  have run0: "run env rom0 2 s = Some (s\<lparr>pc := pc s + 2, areg := ram s (addr (env reg)) + 0\<rparr>)"
    by (rule run_straight [OF r0 e0]) simp
  have runi: "run env romi 4 s =
           Some (s\<lparr>pc := pc s + 4, areg := ram s (addr (env reg)) + of_int i,
                   dreg := ram s (addr (env reg))\<rparr>)"
    by (rule run_straight [OF ri ei]) simp
  show ?thesis
    unfolding c0 ci emitted_def using run0 runi by simp
qed

text \<open>The two sequences for \<^verbatim>\<open>local\<close> with the indices 0 and 5, on the example state
  where local starts at 300.\<close>

theorem base_pointer_paths_witness:
  "(''local'', ''LCL'') \<in> set [(''argument'', ''ARG''), (''local'', ''LCL''),
                                 (''this'', ''THIS''), (''that'', ''THAT'')] \<and>
   (0::int) < 5 \<and> (5::int) < 32768 \<and>
   rom_at [''@LCL'', ''A=M''] (pc machine0)
     (emitted (translate_segment_vm_code writer_in_function ''local'' (Some 0))) \<and>
   rom_at [''@LCL'', ''D=M'', ''@5'', ''A=D+A''] (pc machine0)
     (emitted (translate_segment_vm_code writer_in_function ''local'' (Some 5))) \<and>
   length (emitted (translate_segment_vm_code writer_in_function ''local'' (Some 5))) =
     length (emitted (translate_segment_vm_code writer_in_function ''local'' (Some 0))) + 2 \<and>
   run (assemble_env []) [''@LCL'', ''A=M''] 2 machine0 =
     Some (machine0\<lparr>pc := 2, areg := 300\<rparr>) \<and>
   run (assemble_env []) [''@LCL'', ''D=M'', ''@5'', ''A=D+A''] 4 machine0 =
     Some (machine0\<lparr>pc := 4, areg := 305, dreg := 300\<rparr>)"
proof -
  have seg: "(''local'', ''LCL'') \<in> set [(''argument'', ''ARG''), (''local'', ''LCL''),
                                 (''this'', ''THIS''), (''that'', ''THAT'')]"
    by simp
  have c0: "emitted (translate_segment_vm_code writer_in_function ''local'' (Some 0)) =
              [''@LCL'', ''A=M'']"
    by code_simp
  have c5: "emitted (translate_segment_vm_code writer_in_function ''local'' (Some 5)) =
              [''@LCL'', ''D=M'', ''@5'', ''A=D+A'']"
    by code_simp
  have rom0: "rom_at [''@LCL'', ''A=M''] (pc machine0)
                (emitted (translate_segment_vm_code writer_in_function ''local'' (Some 0)))"
    unfolding c0 by (simp add: rom_at_def machine0_def)
  have rom5: "rom_at [''@LCL'', ''D=M'', ''@5'', ''A=D+A''] (pc machine0)
                (emitted (translate_segment_vm_code writer_in_function ''local'' (Some 5)))"
    unfolding c5 by (simp add: rom_at_def machine0_def)
  have lcl: "assemble_env [] ''LCL'' = 1"
    by (simp add: assemble_env_def predefined_def)
  from base_pointer_paths [where i = 5 and env = "assemble_env []", OF seg _ _ rom0 rom5]
  show ?thesis
    using seg rom0 rom5 by (simp add: lcl machine0_def addr_def emitted_def)
qed

section \<open>C9: label, goto and if-goto\<close>

text \<open>
  Claim C9. For a label, goto or if-goto instruction with the name \<open>l\<close>, the name
  written is \<open>f.l\<close> when the current function is \<open>f\<close> (which \<^verbatim>\<open>write_function\<close> sets,
  and only \<^verbatim>\<open>set_filename\<close> clears), and the bare \<open>l\<close> when there is none: as the label
  declaration \<^verbatim>\<open>(name)\<close>, as \<^verbatim>\<open>@name\<close> before the unconditional jump and as \<^verbatim>\<open>@name\<close>
  before the conditional one. The lines of if-goto, executed on the machine, take one
  value off the stack and continue at the address of the name exactly when that value
  is not zero, and at the next instruction otherwise. (The file is open; \<open>t\<close> is the
  address the assembler gives the name; the top of the stack is not the cell of the
  stack pointer itself.)
\<close>

theorem branching_scoped_names:
  assumes op: "\<not> closed cw"
    and env: "base_env env"
    and rom: "rom_at rom (pc s) [''@SP'', ''AM=M-1'', ''D=M'', ''@'' @ scoped_label cw l, ''D;JNE'']"
    and target: "a_value env (scoped_label cw l) = Some t"
    and top: "addr (ram s 0 - 1) \<noteq> 0"
  shows "scoped_label cw l = (case current_function cw of None \<Rightarrow> l | Some f \<Rightarrow> f @ ''.'' @ l) \<and>
         current_function (snd (write_function cw f n)) = Some f \<and>
         scoped_label (snd (write_function cw f n)) l = f @ ''.'' @ l \<and>
         write_label cw l =
           (None, cw\<lparr>write_file := write_file cw @
                        (if log_vm_commands cw then [''//  label '' @ l] else []) @
                        [''('' @ scoped_label cw l @ '')'']\<rparr>) \<and>
         write_goto cw l =
           (None, cw\<lparr>write_file := write_file cw @
                        (if log_vm_commands cw then [''//  goto '' @ l] else []) @
                        [''@'' @ scoped_label cw l, ''0;JMP'']\<rparr>) \<and>
         write_if cw l =
           (None, cw\<lparr>write_file := write_file cw @
                        (if log_vm_commands cw then [''//  if-goto '' @ l] else []) @
                        [''@SP'', ''AM=M-1'', ''D=M'', ''@'' @ scoped_label cw l, ''D;JNE'']\<rparr>) \<and>
         run env rom 5 s =
           Some \<lparr>pc = (if ram s (addr (ram s 0 - 1)) \<noteq> 0 then unat (addr t) else pc s + 5),
                 areg = t,
                 dreg = ram s (addr (ram s 0 - 1)),
                 ram = (ram s)(0 := ram s 0 - 1)\<rparr>"
proof -
  have name: "scoped_label cw l = (case current_function cw of None \<Rightarrow> l | Some f \<Rightarrow> f @ ''.'' @ l)"
    by (cases "current_function cw") (simp_all add: scoped_label_def in_function_def)
  have fn: "current_function (snd (write_function cw f n)) = Some f"
    by (rule write_function_sets_function [OF prod.collapse [symmetric]])
  then have fname: "scoped_label (snd (write_function cw f n)) l = f @ ''.'' @ l"
    by (simp add: scoped_label_def in_function_def)
  from env have sp: "env ''SP'' = 0" by (simp add: base_env_def)
  have tgt: "\<And>u. exec_line env (CHR ''@'' # scoped_label cw l) u = Some (u\<lparr>pc := pc u + 1, areg := t\<rparr>)"
    by (simp add: exec_at target)
  have ex: "exec_straight env [''@SP'', ''AM=M-1'', ''D=M'', ''@'' @ scoped_label cw l, ''D;JNE''] s =
           Some \<lparr>pc = (if ram s (addr (ram s 0 - 1)) \<noteq> 0 then unat (addr t) else pc s + 5),
                 areg = t,
                 dreg = ram s (addr (ram s 0 - 1)),
                 ram = (ram s)(0 := ram s 0 - 1)\<rparr>"
    using top by (simp add: hack_exec is_digit_def sp addr_0 tgt)
  have run: "run env rom 5 s =
           Some \<lparr>pc = (if ram s (addr (ram s 0 - 1)) \<noteq> 0 then unat (addr t) else pc s + 5),
                 areg = t,
                 dreg = ram s (addr (ram s 0 - 1)),
                 ram = (ram s)(0 := ram s 0 - 1)\<rparr>"
    by (rule run_straight [OF rom ex]) simp
  from name fn fname write_label_open [OF op, of l] write_goto_open [OF op, of l]
       write_if_open [OF op, of l] run
  show ?thesis by blast
qed

text \<open>Inside the function \<^verbatim>\<open>A.f\<close>, \<^verbatim>\<open>if-goto LOOP\<close> writes the name \<^verbatim>\<open>A.f.LOOP\<close>; with
  7 on top of the stack the machine continues at the label, which stands at address
  0.\<close>

theorem branching_scoped_names_witness:
  "\<not> closed writer_in_function \<and> base_env (assemble_env loop_program) \<and>
   rom_at (rom_of loop_program) (pc machine0)
     [''@SP'', ''AM=M-1'', ''D=M'', ''@'' @ scoped_label writer_in_function ''LOOP'', ''D;JNE''] \<and>
   a_value (assemble_env loop_program) (scoped_label writer_in_function ''LOOP'') = Some 0 \<and>
   addr (ram machine0 0 - 1) \<noteq> 0 \<and>
   scoped_label writer_in_function ''LOOP'' = ''A.f.LOOP'' \<and>
   write_if writer_in_function ''LOOP'' =
     (None, writer_in_function
              \<lparr>write_file := [''@SP'', ''AM=M-1'', ''D=M'', ''@A.f.LOOP'', ''D;JNE'']\<rparr>) \<and>
   run_program loop_program 5 machine0 =
     Some \<lparr>pc = 0, areg = 0, dreg = 7, ram = (ram machine0)(0 := 255)\<rparr>"
proof -
  have op: "\<not> closed writer_in_function"
    by (simp add: writer_in_function_def)
  have name: "scoped_label writer_in_function ''LOOP'' = ''A.f.LOOP''"
    by code_simp
  have rom: "rom_at (rom_of loop_program) (pc machine0)
     [''@SP'', ''AM=M-1'', ''D=M'', ''@'' @ scoped_label writer_in_function ''LOOP'', ''D;JNE'']"
    unfolding name
    by (simp add: rom_at_def rom_of_def loop_program_def is_pseudo_def startswith_def machine0_def)
  have target: "a_value (assemble_env loop_program) (scoped_label writer_in_function ''LOOP'') = Some 0"
    unfolding name
    by (simp add: a_value_def is_number_def is_digit_def assemble_env_def predefined_def
          loop_program_def)
  have top: "addr (ram machine0 0 - 1) \<noteq> 0"
    by (simp add: machine0_def addr_def)
  from branching_scoped_names [OF op base_env_assemble rom target top, of "''g''" None]
  show ?thesis
    using op rom target top base_env_assemble [of loop_program]
    by (simp add: name run_program_def machine0_def addr_def writer_in_function_def)
qed

section \<open>C10: a new input unit clears the current function\<close>

text \<open>
  Claim C10. Every call of \<^verbatim>\<open>set_filename\<close>, the operation that sets the name of the
  current input unit, also sets the current function to \<^verbatim>\<open>None\<close>, whatever it was
  (in particular when the previous unit ended inside a function). Consequently, when
  the lines of the new unit translated so far hold no \<^verbatim>\<open>function\<close> instruction, the
  current function is still \<^verbatim>\<open>None\<close>, and a label, goto or if-goto instruction
  translated next writes the bare name: \<^verbatim>\<open>(l)\<close>, \<^verbatim>\<open>@l\<close> with the jump, and the pop with
  \<^verbatim>\<open>@l\<close> and the conditional jump.
\<close>

theorem set_filename_resets_function:
  "current_function (set_filename cw filepath) = None \<and>
   (list_all (\<lambda>l. \<not> is_function_line l) ls \<longrightarrow>
    translate_lines (set_filename cw filepath) ls = (None, cw1) \<longrightarrow>
      current_function cw1 = None \<and> scoped_label cw1 l = l \<and>
      (\<not> closed cw1 \<longrightarrow>
         write_label cw1 l =
           (None, cw1\<lparr>write_file := write_file cw1 @
                         (if log_vm_commands cw1 then [''//  label '' @ l] else []) @
                         [''('' @ l @ '')'']\<rparr>) \<and>
         write_goto cw1 l =
           (None, cw1\<lparr>write_file := write_file cw1 @
                         (if log_vm_commands cw1 then [''//  goto '' @ l] else []) @
                         [''@'' @ l, ''0;JMP'']\<rparr>) \<and>
         write_if cw1 l =
           (None, cw1\<lparr>write_file := write_file cw1 @
                         (if log_vm_commands cw1 then [''//  if-goto '' @ l] else []) @
                         [''@SP'', ''AM=M-1'', ''D=M'', ''@'' @ l, ''D;JNE'']\<rparr>)))"
proof -
  have reset: "current_function (set_filename cw filepath) = None"
    by (simp add: set_filename_def)
  {
    assume nf: "list_all (\<lambda>l. \<not> is_function_line l) ls"
      and run: "translate_lines (set_filename cw filepath) ls = (None, cw1)"
    from run nf have "keeps_fn (set_filename cw filepath) cw1"
      by (rule translate_lines_keeps_fn)
    with reset have none: "current_function cw1 = None"
      by (simp add: keeps_fn_def)
    then have bare: "scoped_label cw1 l = l"
      by (simp add: scoped_label_def in_function_def)
    note none bare write_label_open [of cw1 l] write_goto_open [of cw1 l] write_if_open [of cw1 l]
  }
  with reset show ?thesis by simp
qed

text \<open>The writer is inside the function \<^verbatim>\<open>A.f\<close> when the unit \<^verbatim>\<open>B.vm\<close> begins; after a
  push, the label \<^verbatim>\<open>L\<close> is written bare.\<close>

theorem set_filename_resets_function_witness:
  "current_function (set_filename writer_in_function ''d/B.vm'') = None \<and>
   list_all (\<lambda>l. \<not> is_function_line l) [''push constant 1''] \<and>
   translate_lines (set_filename writer_in_function ''d/B.vm'') [''push constant 1''] =
     (None, writer_after_push) \<and>
   \<not> closed writer_after_push \<and>
   write_label writer_after_push ''L'' =
     (None, writer_after_push\<lparr>write_file := write_file writer_after_push @ [''(L)'']\<rparr>)"
proof -
  have nf: "list_all (\<lambda>l. \<not> is_function_line l) [''push constant 1'']"
    by code_simp
  have run: "translate_lines (set_filename writer_in_function ''d/B.vm'') [''push constant 1''] =
               (None, writer_after_push)"
    by code_simp
  have op: "\<not> closed writer_after_push" and nolog: "\<not> log_vm_commands writer_after_push"
    by (simp_all add: writer_after_push_def)
  from set_filename_resets_function
         [of writer_in_function "''d/B.vm''" "[''push constant 1'']" writer_after_push "''L''"]
       nf run op nolog
  show ?thesis by simp
qed

end
